theory Spec2Isabelle
  imports Complex_Main "HOL-Library.AList" "HOL-Library.Char_ord" "HOL-Library.List_Lexorder"
begin

section \<open>JavaScript values used by the relay\<close>

text \<open>
  A JavaScript string is represented by its UTF-8 encoding, one \<^typ>\<open>char\<close> per byte.
  \<open>s.length\<close> counts UTF-16 code units, \<open>new TextEncoder().encode(s).length\<close> counts
  bytes; both are computed from the bytes below. Numbers that the code handles are
  integers far below \<open>2^53\<close> (clock readings, counters), so they are \<^typ>\<open>int\<close>.
\<close>

text \<open>\<open>a % b\<close> on integers: the remainder takes the sign of the dividend.\<close>

definition js_rem :: "int \<Rightarrow> int \<Rightarrow> int" where
  "js_rem a b = sgn a * (\<bar>a\<bar> mod \<bar>b\<bar>)"

text \<open>\<open>s.length\<close>: every byte that is not a continuation byte starts a code point, and a
  code point with a four-byte encoding takes two UTF-16 code units.\<close>

definition js_length :: "string \<Rightarrow> nat" where
  "js_length s =
     length (filter (\<lambda>c. \<not> (128 \<le> (of_char c :: nat) \<and> (of_char c :: nat) < 192)) s)
     + length (filter (\<lambda>c. 240 \<le> (of_char c :: nat)) s)"

text \<open>\<open>new TextEncoder().encode(s).length\<close>.\<close>

definition utf8_byte_length :: "string \<Rightarrow> nat" where
  "utf8_byte_length s = length s"

text \<open>
  \<open>toLowerCase\<close> and \<open>toUpperCase\<close>. On a string of ASCII characters they change the
  ASCII letters and nothing else. On any other string they follow the case mappings of
  Unicode, which are not written out here: they are a parameter, a pair of functions
  that is asked only about strings with a character outside ASCII. Whatever is proved
  for every such pair holds for the mappings of Unicode.
\<close>

definition is_ascii :: "string \<Rightarrow> bool" where
  "is_ascii s = list_all (\<lambda>c. (of_char c :: nat) < 128) s"

definition lower_char :: "char \<Rightarrow> char" where
  "lower_char c =
     (let n = (of_char c :: nat) in if 65 \<le> n \<and> n \<le> 90 then char_of (n + 32) else c)"

definition upper_char :: "char \<Rightarrow> char" where
  "upper_char c =
     (let n = (of_char c :: nat) in if 97 \<le> n \<and> n \<le> 122 then char_of (n - 32) else c)"

definition ascii_lower :: "string \<Rightarrow> string" where
  "ascii_lower s = map lower_char s"

definition ascii_upper :: "string \<Rightarrow> string" where
  "ascii_upper s = map upper_char s"

record unicode_case =
  lower_other :: "string \<Rightarrow> string"    \<comment> \<open>\<open>toLowerCase\<close> of a string that is not ASCII\<close>
  upper_other :: "string \<Rightarrow> string"    \<comment> \<open>\<open>toUpperCase\<close> of a string that is not ASCII\<close>

definition toLowerCase :: "unicode_case \<Rightarrow> string \<Rightarrow> string" where
  "toLowerCase U s = (if is_ascii s then ascii_lower s else lower_other U s)"

definition toUpperCase :: "unicode_case \<Rightarrow> string \<Rightarrow> string" where
  "toUpperCase U s = (if is_ascii s then ascii_upper s else upper_other U s)"

text \<open>A pair that leaves every other string as it is, for the examples: their strings
  are ASCII, so that any pair gives the same results.\<close>

definition ascii_case_only :: unicode_case where
  "ascii_case_only = \<lparr> lower_other = (\<lambda>s. s), upper_other = (\<lambda>s. s) \<rparr>"

text \<open>\<open>s.startsWith(p)\<close>.\<close>

fun startsWith :: "string \<Rightarrow> string \<Rightarrow> bool" where
  "startsWith s [] = True"
| "startsWith [] (p # ps) = False"
| "startsWith (c # cs) (p # ps) = (c = p \<and> startsWith cs ps)"

text \<open>\<open>s.split(sep)\<close> for a separator of one character.\<close>

fun split_on :: "char \<Rightarrow> string \<Rightarrow> string list" where
  "split_on sep [] = [[]]"
| "split_on sep (c # cs) =
     (if c = sep then [] # split_on sep cs
      else (let r = split_on sep cs in (c # hd r) # tl r))"

text \<open>\<open>s.replace(pat, rep)\<close> with a string pattern: the first occurrence only. None of
  the replacement strings of this program contains \<open>$\<close>.\<close>

fun replace_first :: "string \<Rightarrow> string \<Rightarrow> string \<Rightarrow> string" where
  "replace_first pat rep [] = (if pat = [] then rep else [])"
| "replace_first pat rep (c # cs) =
     (if startsWith (c # cs) pat then rep @ drop (length pat) (c # cs)
      else c # replace_first pat rep cs)"

text \<open>Decimal rendering of an integer, as \<open>JSON.stringify\<close> prints integers below
  \<open>10^21\<close> in absolute value.\<close>

definition digit_char :: "nat \<Rightarrow> char" where
  "digit_char d = char_of (48 + d)"

function show_digits :: "int \<Rightarrow> string" where
  "show_digits n =
     (if n < 10 then [digit_char (nat n)]
      else show_digits (n div 10) @ [digit_char (nat (n mod 10))])"
  by pat_completeness auto
termination
  by (relation "measure nat") auto

declare show_digits.simps [simp del]

definition show_int :: "int \<Rightarrow> string" where
  "show_int i = (if i < 0 then CHR ''-'' # show_digits (- i) else show_digits i)"

definition show_nat :: "nat \<Rightarrow> string" where
  "show_nat n = show_digits (int n)"

text \<open>\<open>JSON.stringify\<close> of a string: quotes, with the escapes of \<open>QuoteJSONString\<close>.\<close>

definition hex_digit :: "nat \<Rightarrow> char" where
  "hex_digit d = (if d < 10 then char_of (48 + d) else char_of (87 + d))"

definition json_escape_char :: "char \<Rightarrow> string" where
  "json_escape_char c =
     (let n = (of_char c :: nat) in
      if c = CHR 0x22 then [CHR 0x5C, CHR 0x22]
      else if c = CHR 0x5C then [CHR 0x5C, CHR 0x5C]
      else if n = 8 then [CHR 0x5C, CHR ''b'']
      else if n = 12 then [CHR 0x5C, CHR ''f'']
      else if n = 10 then [CHR 0x5C, CHR ''n'']
      else if n = 13 then [CHR 0x5C, CHR ''r'']
      else if n = 9 then [CHR 0x5C, CHR ''t'']
      else if n < 32 then [CHR 0x5C, CHR ''u'', CHR ''0'', CHR ''0'', hex_digit (n div 16), hex_digit (n mod 16)]
      else [c])"

definition json_string :: "string \<Rightarrow> string" where
  "json_string s = CHR 0x22 # concat (map json_escape_char s) @ [CHR 0x22]"

text \<open>The values a request field can hold before it is checked.\<close>

datatype js_value = JUndefined | JNull | JBool bool | JNumber int | JString string | JObject

fun truthy :: "js_value \<Rightarrow> bool" where
  "truthy JUndefined = False"
| "truthy JNull = False"
| "truthy (JBool b) = b"
| "truthy (JNumber n) = (n \<noteq> 0)"
| "truthy (JString s) = (s \<noteq> [])"
| "truthy JObject = True"

fun is_string :: "js_value \<Rightarrow> bool" where
  "is_string (JString s) = True"
| "is_string _ = False"

text \<open>\<open>a || b\<close>.\<close>

definition js_or :: "js_value \<Rightarrow> js_value \<Rightarrow> js_value" where
  "js_or a b = (if truthy a then a else b)"

text \<open>The error that the runtime throws for a call of a method that a value does not
  have, and that the \<open>Headers\<close> class throws for a name or value it does not accept.\<close>

datatype js_error = TypeError

section \<open>query.ts: language codes\<close>

text \<open>
  \<open>languageMap\<close> is an object literal. Reading \<open>languageMap[k]\<close> finds an own property
  of the table or, failing that, a property inherited from \<open>Object.prototype\<close>, or
  \<open>undefined\<close>. Every inherited property is a function, except \<open>__proto__\<close>, which reads
  as the prototype object itself; all of them are truthy.
\<close>

definition languageMap :: "(string \<times> string) list" where
  "languageMap =
    [(''chinese'', ''ZH''), (''english'', ''EN''), (''spanish'', ''ES''), (''french'', ''FR''),
     (''german'', ''DE''), (''italian'', ''IT''), (''japanese'', ''JA''), (''portuguese'', ''PT''),
     (''russian'', ''RU''), (''dutch'', ''NL''), (''polish'', ''PL''), (''swedish'', ''SV''),
     (''danish'', ''DA''), (''norwegian'', ''NB''), (''finnish'', ''FI''), (''czech'', ''CS''),
     (''slovak'', ''SK''), (''slovenian'', ''SL''), (''estonian'', ''ET''), (''latvian'', ''LV''),
     (''lithuanian'', ''LT''), (''hungarian'', ''HU''), (''romanian'', ''RO''), (''bulgarian'', ''BG''),
     (''greek'', ''EL''), (''turkish'', ''TR''), (''ukrainian'', ''UK''), (''korean'', ''KO''),
     (''indonesian'', ''ID'')]"

definition Object_prototype_names :: "string list" where
  "Object_prototype_names =
    [''constructor'', ''__defineGetter__'', ''__defineSetter__'', ''hasOwnProperty'',
     ''__lookupGetter__'', ''__lookupSetter__'', ''isPrototypeOf'', ''propertyIsEnumerable'',
     ''toString'', ''valueOf'', ''__proto__'', ''toLocaleString'']"

datatype lang_value =
    LangCode string          \<comment> \<open>a string\<close>
  | Inherited string         \<comment> \<open>the property of that name of \<open>Object.prototype\<close>\<close>

definition languageMap_get :: "string \<Rightarrow> lang_value option" where
  "languageMap_get k =
     (case map_of languageMap k of
        Some v \<Rightarrow> Some (LangCode v)
      | None \<Rightarrow> if k \<in> set Object_prototype_names then Some (Inherited k) else None)"

text \<open>\<open>normalizeLanguageCode(langCode)\<close>, for an argument of any type: \<open>JUndefined\<close> is a
  missing one. A truthy value that is not a string has no method \<open>toLowerCase\<close>, and the
  call throws a \<open>TypeError\<close>.\<close>

definition normalizeLanguageCode :: "unicode_case \<Rightarrow> js_value \<Rightarrow> js_error + lang_value" where
  "normalizeLanguageCode U langCode =
     (if \<not> truthy langCode then Inr (LangCode ''auto'')
      else (case langCode of
              JString l \<Rightarrow>
                if toLowerCase U l = ''auto'' then Inr (LangCode ''auto'')
                else (let normalized = toLowerCase U l in
                      case languageMap_get normalized of
                        Some v \<Rightarrow> Inr v
                      | None \<Rightarrow> Inr (LangCode (toUpperCase U normalized)))
            | _ \<Rightarrow> Inl TypeError))"

section \<open>query.ts: the request envelope\<close>

text \<open>\<open>a || b\<close> on an optional string: the default replaces a missing or empty value.\<close>

definition or_default :: "string option \<Rightarrow> string \<Rightarrow> string" where
  "or_default a d = (case a of None \<Rightarrow> d | Some s \<Rightarrow> if s = [] then d else s)"

record request_params =
  req_text :: js_value    \<comment> \<open>the field \<open>text\<close>\<close>
  source_lang :: js_value
  target_lang :: js_value

record envelope =
  env_id :: int
  env_text :: string
  env_timestamp :: int
  env_source_lang :: lang_value
  env_target_lang :: lang_value

text \<open>\<open>buildRequestParams(sourceLang, targetLang)\<close>, given the reading of the clock and
  the value of \<open>Math.floor(Math.random() * 1000000)\<close>. It throws what
  \<open>normalizeLanguageCode\<close> throws, for the source language first.\<close>

definition buildRequestParams ::
  "unicode_case \<Rightarrow> int \<Rightarrow> int \<Rightarrow> js_value \<Rightarrow> js_value \<Rightarrow> js_error + envelope" where
  "buildRequestParams U timestamp randomComponent sourceLang targetLang =
     (let requestId = js_rem timestamp 100000000 + js_rem randomComponent 100000000
      in case normalizeLanguageCode U (js_or sourceLang (JString ''auto'')) of
           Inl e \<Rightarrow> Inl e
         | Inr normalizedSourceLang \<Rightarrow>
             (case normalizeLanguageCode U (js_or targetLang (JString ''en'')) of
                Inl e \<Rightarrow> Inl e
              | Inr normalizedTargetLang \<Rightarrow>
                  Inr \<lparr> env_id = requestId, env_text = [], env_timestamp = 0,
                        env_source_lang = normalizedSourceLang,
                        env_target_lang = normalizedTargetLang \<rparr>))"

text \<open>\<open>countLetterI\<close> and \<open>getTimestamp\<close>; the clock reading is the first argument.\<close>

definition countLetterI :: "string \<Rightarrow> int" where
  "countLetterI translateText = int (length (split_on CHR ''i'' translateText)) - 1"

definition MAX_SAFE_INTEGER :: int where
  "MAX_SAFE_INTEGER = 9007199254740991"

definition getTimestamp :: "int \<Rightarrow> int \<Rightarrow> int" where
  "getTimestamp timestamp letterCount =
     (let safeLetterCount = max 0 letterCount in
      if safeLetterCount = 0 then timestamp
      else let modValue = safeLetterCount + 1 in
        if modValue \<le> 0 \<or> modValue > 1000 then timestamp
        else let modifiedTimestamp = timestamp - js_rem timestamp modValue + modValue in
          if modifiedTimestamp > 0 \<and> modifiedTimestamp \<le> MAX_SAFE_INTEGER
             \<and> modifiedTimestamp \<ge> timestamp - 1000
          then modifiedTimestamp
          else timestamp)"

text \<open>
  \<open>JSON.stringify(requestData)\<close>. The keys come in the order in which
  \<open>buildRequestParams\<close> creates them. A property whose value is a function is left out;
  the prototype object has no enumerable property of its own and prints as \<open>{}\<close>.
  \<open>REQUEST_ALTERNATIVES\<close> (const.ts) is a number and a parameter here.
\<close>

fun join :: "string \<Rightarrow> string list \<Rightarrow> string" where
  "join sep [] = []"
| "join sep [x] = x"
| "join sep (x # y # ys) = x @ sep @ join sep (y # ys)"

definition json_member :: "string \<Rightarrow> lang_value \<Rightarrow> string list" where
  \<open>json_member key v =
     (case v of
        LangCode s \<Rightarrow> [json_string key @ '':'' @ json_string s]
      | Inherited k \<Rightarrow> if k = ''__proto__'' then [json_string key @ '':{}''] else [])\<close>

definition json_lang :: "envelope \<Rightarrow> string" where
  \<open>json_lang e =
     ''{'' @ join '','' (json_member ''source_lang_user_selected'' (env_source_lang e)
                        @ json_member ''target_lang'' (env_target_lang e)) @ ''}''\<close>

definition JSON_stringify :: "nat \<Rightarrow> envelope \<Rightarrow> string" where
  \<open>JSON_stringify REQUEST_ALTERNATIVES e =
     ''{"jsonrpc":"2.0","method":"LMT_handle_texts","id":'' @ show_int (env_id e)
     @ '',"params":{"texts":[{"text":'' @ json_string (env_text e)
     @ '',"requestAlternatives":'' @ show_nat REQUEST_ALTERNATIVES
     @ ''}],"timestamp":'' @ show_int (env_timestamp e)
     @ '',"splitting":"newlines","lang":'' @ json_lang e @ ''}}''\<close>

text \<open>Lines 159 to 163 of \<open>buildRequestBody\<close>: the spacing around the colon after
  \<open>"method"\<close>, chosen by the request id.\<close>

definition method_spacing :: "int \<Rightarrow> string \<Rightarrow> string" where
  \<open>method_spacing requestId requestString =
     (if js_rem (requestId + 5) 29 = 0 \<or> js_rem (requestId + 3) 13 = 0
      then replace_first ''"method":"'' ''"method" : "'' requestString
      else replace_first ''"method":"'' ''"method": "'' requestString)\<close>

text \<open>
  \<open>buildRequestBody(data)\<close>. \<open>PAYLOAD_LIMITS\<close> (config.ts) and \<open>REQUEST_ALTERNATIVES\<close>
  are parameters, as are the two readings of the clock (one in \<open>buildRequestParams\<close>,
  one in \<open>getTimestamp\<close>) and the random component of the request id. \<open>None\<close> is a
  missing \<open>data\<close>. Every \<open>throw\<close> is an error value, and so is the \<open>TypeError\<close> of
  \<open>normalizeLanguageCode\<close>, which nothing in \<open>buildRequestBody\<close> catches.
\<close>

record build_config =
  MAX_TEXT_LENGTH :: nat
  MAX_REQUEST_SIZE :: nat
  REQUEST_ALTERNATIVES :: nat

record build_world =
  clock_params :: int       \<comment> \<open>\<open>Date.now()\<close> in \<open>buildRequestParams\<close>\<close>
  randomComponent :: int    \<comment> \<open>\<open>Math.floor(Math.random() * 1000000)\<close>\<close>
  clock_timestamp :: int    \<comment> \<open>\<open>Date.now()\<close> in \<open>getTimestamp\<close>\<close>

datatype build_error =
    InvalidText             \<comment> \<open>text is required and must be a string\<close>
  | EmptyText               \<comment> \<open>text cannot be empty\<close>
  | TextTooLong nat
  | LanguageTypeError       \<comment> \<open>the \<open>TypeError\<close> for a language that is not a string\<close>
  | InvalidTimestamp
  | PayloadTooLarge nat

text \<open>Lines 140 to 155: the envelope with the text and the timestamp, if the languages
  are accepted.\<close>

definition request_envelope ::
  "unicode_case \<Rightarrow> build_world \<Rightarrow> string \<Rightarrow> js_value \<Rightarrow> js_value \<Rightarrow> js_error + envelope" where
  "request_envelope U w trimmedText src tgt =
     (let sourceLang = js_or src (JString ''auto'');
          targetLang = js_or tgt (JString ''en'')
      in case buildRequestParams U (clock_params w) (randomComponent w) sourceLang targetLang of
           Inl e \<Rightarrow> Inl e
         | Inr requestData \<Rightarrow>
             (let letterICount = countLetterI trimmedText;
                  timestamp = getTimestamp (clock_timestamp w) letterICount
              in Inr (requestData \<lparr> env_text := trimmedText, env_timestamp := timestamp \<rparr>)))"

definition buildRequestBody ::
  "unicode_case \<Rightarrow> build_config \<Rightarrow> build_world \<Rightarrow> request_params option \<Rightarrow> build_error + string" where
  "buildRequestBody U cfg w data =
     (case data of
        None \<Rightarrow> Inl InvalidText
      | Some d \<Rightarrow>
         (case req_text d of
            JString trimmedText \<Rightarrow>
              if \<not> truthy (JString trimmedText) then Inl InvalidText
              else if trimmedText = [] then Inl EmptyText
              else if js_length trimmedText > MAX_TEXT_LENGTH cfg then Inl (TextTooLong (MAX_TEXT_LENGTH cfg))
              else
                (case request_envelope U w trimmedText (source_lang d) (target_lang d) of
                   Inl e \<Rightarrow> Inl LanguageTypeError
                 | Inr requestData \<Rightarrow>
                     let timestamp = env_timestamp requestData
                     in if timestamp \<le> 0 then Inl InvalidTimestamp
                        else
                          let requestString = method_spacing (env_id requestData)
                                                (JSON_stringify (REQUEST_ALTERNATIVES cfg) requestData);
                              payloadSize = utf8_byte_length requestString
                          in if payloadSize > MAX_REQUEST_SIZE cfg then Inl (PayloadTooLarge payloadSize)
                             else Inr requestString)
          | _ \<Rightarrow> Inl InvalidText))"

section \<open>rateLimit.ts: the token bucket\<close>

text \<open>
  The token count is a JavaScript number; it is modelled by an exact rational (the
  rounding of a double is not modelled), and the clock by an integer number of
  milliseconds. \<open>rateCache\<close> (a \<open>Map\<close>) and the key-value namespace are association
  lists. A record written to the namespace carries the time at which its
  \<open>expirationTtl\<close> of 3600 seconds runs out, and a read returns the record that the
  namespace holds at the time of the read.

  \<open>checkRateLimit\<close> does not wait for the namespace. A write that succeeds is in the
  namespace at once; a write that fails is dropped (\<open>.catch(() => {})\<close>), and so is a
  read that fails. A read that has been started is kept in \<open>pending\<close> with its key and
  the clock reading \<open>now\<close> of the call that started it, the two variables that its
  callback closes over. The namespace serves the read and the callback runs at some
  later time (\<open>Resolve\<close> below): \<open>existing\<close> is the record that the namespace holds then,
  which later calls may have written.
\<close>

definition DEFAULT_TOKENS_PER_MINUTE :: rat where
  "DEFAULT_TOKENS_PER_MINUTE = 60"

definition REFILL_RATE :: rat where
  "REFILL_RATE = DEFAULT_TOKENS_PER_MINUTE / 60"

definition CACHE_TTL :: int where
  "CACHE_TTL = 15000"

record RateLimitEntry =
  tokens :: rat
  lastRefill :: int

record cache_entry = RateLimitEntry +
  lastUpdate :: int

record rl_state =
  rateCache :: "(string \<times> cache_entry) list"
  RATE_LIMIT_KV :: "(string \<times> RateLimitEntry \<times> int) list"
  pending :: "(string \<times> int) list"

record kv_io =
  get_ok :: bool      \<comment> \<open>the read of the namespace succeeds\<close>
  put_ok :: bool      \<comment> \<open>the write to the namespace succeeds\<close>

definition rl_init :: rl_state where
  "rl_init = \<lparr> rateCache = [], RATE_LIMIT_KV = [], pending = [] \<rparr>"

definition rate_key :: "string \<Rightarrow> string" where
  "rate_key clientIP = ''rate:'' @ clientIP"

definition kv_get :: "string \<Rightarrow> int \<Rightarrow> rl_state \<Rightarrow> RateLimitEntry option" where
  "kv_get key now s =
     (case map_of (RATE_LIMIT_KV s) key of
        None \<Rightarrow> None
      | Some (e, expires) \<Rightarrow> if now < expires then Some e else None)"

definition kv_put :: "kv_io \<Rightarrow> string \<Rightarrow> RateLimitEntry \<Rightarrow> int \<Rightarrow> rl_state \<Rightarrow> rl_state" where
  "kv_put io key e now s =
     (if put_ok io
      then s \<lparr> RATE_LIMIT_KV := AList.update key (e, now + 3600 * 1000) (RATE_LIMIT_KV s) \<rparr>
      else s)"

definition cache_set :: "string \<Rightarrow> cache_entry \<Rightarrow> rl_state \<Rightarrow> rl_state" where
  "cache_set key e s = s \<lparr> rateCache := AList.update key e (rateCache s) \<rparr>"

text \<open>Lines 50 to 64: the tokens available to this call, and the state after the read
  of the namespace has been started.\<close>

definition available_tokens :: "string \<Rightarrow> int \<Rightarrow> kv_io \<Rightarrow> rl_state \<Rightarrow> rat \<times> rl_state" where
  "available_tokens key now io s =
     (let fresh = (case map_of (rateCache s) key of
                     Some cached \<Rightarrow> if now - lastUpdate cached < CACHE_TTL then Some cached else None
                   | None \<Rightarrow> None)
      in case fresh of
           Some cached \<Rightarrow>
             (let timePassed = of_int (now - lastRefill cached) / 1000
              in (min DEFAULT_TOKENS_PER_MINUTE (tokens cached + timePassed * REFILL_RATE), s))
         | None \<Rightarrow>
             (DEFAULT_TOKENS_PER_MINUTE,
              if get_ok io then s \<lparr> pending := pending s @ [(key, now)] \<rparr> else s))"

definition checkRateLimit :: "string \<Rightarrow> int \<Rightarrow> kv_io \<Rightarrow> rl_state \<Rightarrow> bool \<times> rl_state" where
  "checkRateLimit clientIP now io s =
     (let key = rate_key clientIP;
          (tokens0, s1) = available_tokens key now io s
      in if tokens0 < 1
         then (False,
               kv_put io key \<lparr> tokens = tokens0, lastRefill = now \<rparr> now
                 (cache_set key \<lparr> tokens = tokens0, lastRefill = now, lastUpdate = now \<rparr> s1))
         else (let tokens1 = tokens0 - 1
               in (True,
                   kv_put io key \<lparr> tokens = tokens1, lastRefill = now \<rparr> now
                     (cache_set key \<lparr> tokens = tokens1, lastRefill = now, lastUpdate = now \<rparr> s1))))"

text \<open>The callback of a read of the namespace (lines 57 to 62), chosen by its place in
  the list of pending reads; the namespace serves the read at time \<open>t\<close>. \<open>now\<close> is the
  clock reading of the call that started the read.\<close>

definition resolve_read :: "nat \<Rightarrow> int \<Rightarrow> rl_state \<Rightarrow> rl_state" where
  "resolve_read i t s =
     (if i < length (pending s)
      then (let (key, now) = pending s ! i;
                s1 = s \<lparr> pending := take i (pending s) @ drop (Suc i) (pending s) \<rparr>
            in case kv_get key t s of
                 Some existing \<Rightarrow>
                   (let timePassed = of_int (now - lastRefill existing) / 1000;
                        kvTokens = min DEFAULT_TOKENS_PER_MINUTE
                                       (tokens existing + timePassed * REFILL_RATE)
                    in cache_set key \<lparr> tokens = kvTokens, lastRefill = lastRefill existing,
                                       lastUpdate = now \<rparr> s1)
               | None \<Rightarrow> s1)
      else s)"

text \<open>\<open>checkCombinedRateLimit(clientIP, proxyUrl, env)\<close>: each call of \<open>checkRateLimit\<close>
  reads the clock for itself. \<open>None\<close> is a \<open>null\<close> proxy URL.\<close>

record RateLimitResult =
  allowed :: bool
  reason :: "string option"

definition checkCombinedRateLimit ::
  "string \<Rightarrow> string option \<Rightarrow> int \<times> kv_io \<Rightarrow> int \<times> kv_io \<Rightarrow> rl_state \<Rightarrow> RateLimitResult \<times> rl_state" where
  "checkCombinedRateLimit clientIP proxyUrl c1 c2 s =
     (let (allowed1, s1) = checkRateLimit clientIP (fst c1) (snd c1) s
      in if \<not> allowed1 then (\<lparr> allowed = False, reason = Some ''Client rate limit exceeded'' \<rparr>, s1)
         else (case proxyUrl of
                 None \<Rightarrow> (\<lparr> allowed = True, reason = None \<rparr>, s1)
               | Some url \<Rightarrow>
                   if url = [] then (\<lparr> allowed = True, reason = None \<rparr>, s1)
                   else (let (proxyAllowed, s2) = checkRateLimit url (fst c2) (snd c2) s1
                         in if \<not> proxyAllowed
                            then (\<lparr> allowed = False, reason = Some ''Proxy rate limit exceeded'' \<rparr>, s2)
                            else (\<lparr> allowed = True, reason = None \<rparr>, s2))))"


datatype rl_event = Check string int kv_io | Resolve nat int

fun rl_step :: "rl_event \<Rightarrow> rl_state \<Rightarrow> rl_state" where
  "rl_step (Check clientIP now io) s = snd (checkRateLimit clientIP now io s)"
| "rl_step (Resolve i t) s = resolve_read i t s"

fun rl_run :: "rl_event list \<Rightarrow> rl_state \<Rightarrow> rl_state" where
  "rl_run [] s = s"
| "rl_run (e # es) s = rl_run es (rl_step e s)"

fun check_times :: "rl_event list \<Rightarrow> int list" where
  "check_times [] = []"
| "check_times (Check clientIP now io # es) = now # check_times es"
| "check_times (Resolve i t # es) = check_times es"

definition tokens_in_range :: "rl_state \<Rightarrow> bool" where
  "tokens_in_range s =
     (list_all (\<lambda>(k, e). 0 \<le> tokens e \<and> tokens e \<le> DEFAULT_TOKENS_PER_MINUTE) (rateCache s)
      \<and> list_all (\<lambda>(k, e, x). 0 \<le> tokens e \<and> tokens e \<le> DEFAULT_TOKENS_PER_MINUTE) (RATE_LIMIT_KV s))"

definition tokens_at_most_capacity :: "rl_state \<Rightarrow> bool" where
  "tokens_at_most_capacity s =
     (list_all (\<lambda>(k, e). tokens e \<le> DEFAULT_TOKENS_PER_MINUTE) (rateCache s)
      \<and> list_all (\<lambda>(k, e, x). tokens e \<le> DEFAULT_TOKENS_PER_MINUTE) (RATE_LIMIT_KV s))"

text \<open>A read is served in time if the record that its callback receives was not
  refilled after the call that started the read; a run is timely if each of its reads
  is served in time.\<close>

definition served_in_time :: "nat \<Rightarrow> int \<Rightarrow> rl_state \<Rightarrow> bool" where
  "served_in_time i t s =
     (if i < length (pending s)
      then (let (key, now) = pending s ! i
            in case kv_get key t s of
                 Some existing \<Rightarrow> lastRefill existing \<le> now
               | None \<Rightarrow> True)
      else True)"

fun timely :: "rl_event list \<Rightarrow> rl_state \<Rightarrow> bool" where
  "timely [] s = True"
| "timely (Check clientIP now io # es) s = timely es (rl_step (Check clientIP now io) s)"
| "timely (Resolve i t # es) s =
     (served_in_time i t s \<and> timely es (rl_step (Resolve i t) s))"

text \<open>The invariant of the limiter at clock reading \<open>t\<close>: every stored token count lies
  between 0 and the capacity, and no stored refill time is later than \<open>t\<close>.\<close>

definition entry_ok :: "int \<Rightarrow> 'a RateLimitEntry_scheme \<Rightarrow> bool" where
  "entry_ok t e = (0 \<le> tokens e \<and> tokens e \<le> DEFAULT_TOKENS_PER_MINUTE \<and> lastRefill e \<le> t)"

definition rl_invariant :: "int \<Rightarrow> rl_state \<Rightarrow> bool" where
  "rl_invariant t s =
     (list_all (\<lambda>(k, e). entry_ok t e) (rateCache s)
      \<and> list_all (\<lambda>(k, e, x). entry_ok t e) (RATE_LIMIT_KV s))"


section \<open>proxyManager.ts: the request headers\<close>

text \<open>
  \<open>Headers\<close> is the class of the Fetch standard. Its header list is a list of pairs of a
  name and a value; names are compared without regard to the case of their ASCII
  letters (byte-lowercase; a name that the class accepts is ASCII). \<open>append\<close>, \<open>set\<close> and
  \<open>delete\<close> throw a \<open>TypeError\<close> for a name that is not a token, and \<open>append\<close> and \<open>set\<close>
  also for a value that, with the HTTP whitespace at its two ends removed, contains a
  NUL, a line feed or a carriage return, or a character above U+00FF (in UTF-8, a byte
  of 0xC4 or more).

  A \<open>Headers\<close> object lives in a heap of objects, addressed by its index, so that the
  object \<open>prepareRequestHeaders\<close> returns can be told from the one it was given. A plain
  record of headers is the list of its own properties; nothing writes to it.
\<close>

definition is_tchar :: "char \<Rightarrow> bool" where
  "is_tchar c =
     (let n = (of_char c :: nat) in
      (48 \<le> n \<and> n \<le> 57) \<or> (65 \<le> n \<and> n \<le> 90) \<or> (97 \<le> n \<and> n \<le> 122)
      \<or> n \<in> set [33, 35, 36, 37, 38, 39, 42, 43, 45, 46, 94, 95, 96, 124, 126])"

definition header_name_ok :: "string \<Rightarrow> bool" where
  "header_name_ok name = (name \<noteq> [] \<and> list_all is_tchar name)"

definition is_http_whitespace :: "char \<Rightarrow> bool" where
  "is_http_whitespace c = (c \<in> set [CHR 0x09, CHR 0x0A, CHR 0x0D, CHR 0x20])"

definition normalize_value :: "string \<Rightarrow> string" where
  "normalize_value v = rev (dropWhile is_http_whitespace (rev (dropWhile is_http_whitespace v)))"

definition is_value_char :: "char \<Rightarrow> bool" where
  "is_value_char c = (c \<notin> set [CHR 0x00, CHR 0x0A, CHR 0x0D] \<and> (of_char c :: nat) < 196)"

definition header_value_ok :: "string \<Rightarrow> bool" where
  "header_value_ok v = list_all is_value_char v"

type_synonym header_list = "(string \<times> string) list"

definition same_name :: "string \<Rightarrow> string \<Rightarrow> bool" where
  "same_name a b = (ascii_lower a = ascii_lower b)"

definition header_values :: "string \<Rightarrow> header_list \<Rightarrow> string list" where
  "header_values name hs = map snd (filter (\<lambda>(n, v). same_name n name) hs)"

text \<open>\<open>get\<close> and \<open>has\<close>, for a name that is a token: the values of the name, joined.\<close>

definition Headers_get :: "string \<Rightarrow> header_list \<Rightarrow> string option" where
  "Headers_get name hs =
     (let vs = header_values name hs in if vs = [] then None else Some (join '', '' vs))"

definition Headers_has :: "string \<Rightarrow> header_list \<Rightarrow> bool" where
  "Headers_has name hs = (header_values name hs \<noteq> [])"

text \<open>\<open>append\<close>: a name that the list has already takes the case of its first entry.\<close>

definition Headers_append :: "string \<Rightarrow> string \<Rightarrow> header_list \<Rightarrow> js_error + header_list" where
  "Headers_append name val hs =
     (let v = normalize_value val in
      if \<not> header_name_ok name \<or> \<not> header_value_ok v then Inl TypeError
      else (case filter (\<lambda>(n, x). same_name n name) hs of
              [] \<Rightarrow> Inr (hs @ [(name, v)])
            | (n, x) # rest \<Rightarrow> Inr (hs @ [(n, v)])))"

definition Headers_delete :: "string \<Rightarrow> header_list \<Rightarrow> js_error + header_list" where
  "Headers_delete name hs =
     (if \<not> header_name_ok name then Inl TypeError
      else Inr (filter (\<lambda>(n, v). \<not> same_name n name) hs))"

text \<open>\<open>set\<close>: the first entry of the name takes the value and the others go; a name
  that the list does not have is appended.\<close>

fun set_header :: "string \<Rightarrow> string \<Rightarrow> header_list \<Rightarrow> header_list" where
  "set_header name v [] = [(name, v)]"
| "set_header name v ((n, x) # hs) =
     (if same_name n name then (n, v) # filter (\<lambda>(m, y). \<not> same_name m name) hs
      else (n, x) # set_header name v hs)"

definition Headers_set :: "string \<Rightarrow> string \<Rightarrow> header_list \<Rightarrow> js_error + header_list" where
  "Headers_set name val hs =
     (let v = normalize_value val in
      if \<not> header_name_ok name \<or> \<not> header_value_ok v then Inl TypeError
      else Inr (set_header name v hs))"

text \<open>The iteration order of a \<open>Headers\<close> object (sort and combine): the names in lower
  case, sorted, each once with its values joined, except that every \<open>set-cookie\<close> header
  comes by itself.\<close>

definition Headers_entries :: "header_list \<Rightarrow> (string \<times> string) list" where
  "Headers_entries hs =
     concat (map (\<lambda>k. if k = ''set-cookie'' then map (Pair k) (header_values k hs)
                       else [(k, join '', '' (header_values k hs))])
                 (sort (remdups (map (\<lambda>(n, v). ascii_lower n) hs))))"

definition Headers_keys :: "header_list \<Rightarrow> string list" where
  "Headers_keys hs = map fst (Headers_entries hs)"

text \<open>\<open>new Headers(init)\<close> fills an empty list with the pairs of \<open>init\<close>, in the iteration
  order of a \<open>Headers\<close> object or the property order of a record, and stops at the first
  pair that \<open>append\<close> rejects. An address outside the heap is not a case of the source;
  it is an error here.\<close>

type_synonym heap = "header_list list"

datatype headers_init = InitHeaders nat | InitRecord "(string \<times> string) list"

fun Headers_fill :: "(string \<times> string) list \<Rightarrow> header_list \<Rightarrow> js_error + header_list" where
  "Headers_fill [] hs = Inr hs"
| "Headers_fill ((name, val) # rest) hs =
     (case Headers_append name val hs of
        Inl e \<Rightarrow> Inl e
      | Inr hs' \<Rightarrow> Headers_fill rest hs')"

definition init_pairs :: "headers_init \<Rightarrow> heap \<Rightarrow> (js_error + (string \<times> string) list)" where
  "init_pairs init h =
     (case init of
        InitHeaders a \<Rightarrow> if a < length h then Inr (Headers_entries (h ! a)) else Inl TypeError
      | InitRecord kv \<Rightarrow> Inr kv)"

definition Headers_new :: "headers_init \<Rightarrow> heap \<Rightarrow> js_error + header_list" where
  "Headers_new init h =
     (case init_pairs init h of
        Inl e \<Rightarrow> Inl e
      | Inr pairs \<Rightarrow> Headers_fill pairs [])"

text \<open>\<open>prepareRequestHeaders(origHeaders, clientIp)\<close> (the version with the deny-list).
  \<open>CF_HEADER_PREFIX\<close> (config.ts) is a parameter; \<open>REAL_CLIENT_IP_HEADER\<close> has the value
  that the other version of the file gives it. \<open>None\<close> is a missing \<open>clientIp\<close>.\<close>

definition REAL_CLIENT_IP_HEADER :: string where
  "REAL_CLIENT_IP_HEADER = ''X-Real-Client-IP''"

definition removeList :: "string list" where
  "removeList = [''x-forwarded-for'', ''x-client-ip'', ''true-client-ip'', ''x-real-ip'',
                 ''x-real-client-ip'', ''via'', ''forwarded'']"

definition to_remove :: "string \<Rightarrow> string \<Rightarrow> bool" where
  "to_remove prefixLower n = (startsWith n prefixLower \<or> n \<in> set removeList)"

fun remove_loop ::
  "unicode_case \<Rightarrow> string \<Rightarrow> string list \<Rightarrow> header_list \<Rightarrow> js_error + header_list" where
  "remove_loop U prefixLower [] hs = Inr hs"
| "remove_loop U prefixLower (name # names) hs =
     (let n = toLowerCase U name in
      if to_remove prefixLower n
      then (case Headers_delete name hs of
              Inl e \<Rightarrow> Inl e
            | Inr hs' \<Rightarrow> remove_loop U prefixLower names hs')
      else remove_loop U prefixLower names hs)"

definition prepareRequestHeaders ::
  "unicode_case \<Rightarrow> string \<Rightarrow> headers_init \<Rightarrow> string option \<Rightarrow> heap \<Rightarrow> (js_error + nat) \<times> heap" where
  "prepareRequestHeaders U CF_HEADER_PREFIX origHeaders clientIp h =
     (case Headers_new origHeaders h of
        Inl e \<Rightarrow> (Inl e, h)
      | Inr hs0 \<Rightarrow>
          (let newHeaders = length h;
               h1 = h @ [hs0];
               prefixLower = toLowerCase U CF_HEADER_PREFIX
           in case remove_loop U prefixLower (Headers_keys hs0) hs0 of
                Inl e \<Rightarrow> (Inl e, h1)
              | Inr hs1 \<Rightarrow>
                  (let h2 = h1[newHeaders := hs1]
                   in case clientIp of
                        None \<Rightarrow> (Inr newHeaders, h2)
                      | Some ip \<Rightarrow>
                          if ip = [] then (Inr newHeaders, h2)
                          else (case Headers_set REAL_CLIENT_IP_HEADER ip hs1 of
                                  Inl e \<Rightarrow> (Inl e, h2)
                                | Inr hs2 \<Rightarrow> (Inr newHeaders, h2[newHeaders := hs2])))))"

text \<open>A header list as every \<open>Headers\<close> object holds it, and an argument that \<open>append\<close>
  accepts pair by pair.\<close>

definition wf_headers :: "header_list \<Rightarrow> bool" where
  "wf_headers hs = list_all (\<lambda>(n, v). header_name_ok n \<and> header_value_ok v) hs"

definition init_ok :: "headers_init \<Rightarrow> heap \<Rightarrow> bool" where
  "init_ok init h =
     (case init of
        InitHeaders a \<Rightarrow> a < length h \<and> wf_headers (h ! a)
      | InitRecord kv \<Rightarrow>
          list_all (\<lambda>(n, v). header_name_ok n \<and> header_value_ok (normalize_value v)) kv)"

text \<open>What \<open>prepareRequestHeaders\<close> makes of the list that \<open>new Headers(origHeaders)\<close> holds, when
  nothing throws: the headers go whose name, in lower case, starts with the prefix in
  lower case or is on the list. (The names of the list are ASCII.)\<close>

definition sanitized :: "unicode_case \<Rightarrow> string \<Rightarrow> string option \<Rightarrow> header_list \<Rightarrow> header_list" where
  "sanitized U p clientIp hs0 =
     (let hs1 = filter (\<lambda>(n, v). \<not> to_remove (toLowerCase U p) (ascii_lower n)) hs0
      in case clientIp of
           None \<Rightarrow> hs1
         | Some ip \<Rightarrow> if ip = [] then hs1 else hs1 @ [(REAL_CLIENT_IP_HEADER, normalize_value ip)])"

section \<open>proxyManager.ts and query.ts: one translation request\<close>

text \<open>
  An exception is a value: the name of the error, its message, and the \<open>code\<close> and
  \<open>status\<close> that \<open>query\<close> attaches to some errors.
\<close>

record js_exn =
  exn_name :: string
  exn_message :: string
  exn_code :: "int option"
  exn_status :: "int option"

definition Error :: "string \<Rightarrow> js_exn" where
  "Error msg = \<lparr> exn_name = ''Error'', exn_message = msg, exn_code = None, exn_status = None \<rparr>"

definition TypeError_exn :: "string \<Rightarrow> js_exn" where
  "TypeError_exn msg = \<lparr> exn_name = ''TypeError'', exn_message = msg, exn_code = None, exn_status = None \<rparr>"

text \<open>The errors that \<open>buildRequestBody\<close>, \<open>normalizeLanguageCode\<close> and the \<open>Headers\<close> class
  throw, as exceptions.\<close>

definition language_exn :: "js_error \<Rightarrow> js_exn" where
  "language_exn e = TypeError_exn ''langCode.toLowerCase is not a function''"

definition exn_of_build_error :: "build_config \<Rightarrow> build_error \<Rightarrow> js_exn" where
  "exn_of_build_error cfg e =
     (case e of
        InvalidText \<Rightarrow> Error ''Invalid request parameters: text is required and must be a string''
      | EmptyText \<Rightarrow> Error ''Invalid request parameters: text cannot be empty''
      | TextTooLong n \<Rightarrow>
          Error (''Text too long. Maximum length is '' @ show_nat n
                 @ '' characters to prevent payload size errors.'')
      | LanguageTypeError \<Rightarrow> language_exn TypeError
      | InvalidTimestamp \<Rightarrow> Error ''Invalid timestamp generated''
      | PayloadTooLarge n \<Rightarrow>
          Error (''Request payload too large ('' @ show_nat n @ '' bytes). Maximum allowed is ''
                 @ show_nat (MAX_REQUEST_SIZE cfg) @ '' bytes.''))"

definition exn_of_js_error :: "js_error \<Rightarrow> js_exn" where
  "exn_of_js_error e = TypeError_exn ''Invalid header''"

text \<open>
  \<open>String.prototype.trim\<close> removes the white space and the line terminators at the two
  ends: the characters U+0009 to U+000D, U+0020, U+00A0, U+1680, U+2000 to U+200A,
  U+2028, U+2029, U+202F, U+205F, U+3000 and U+FEFF, listed here by their encodings.
\<close>

definition js_whitespace :: "string list" where
  "js_whitespace =
     [[CHR 0x09], [CHR 0x0A], [CHR 0x0B], [CHR 0x0C], [CHR 0x0D], [CHR 0x20],
      [CHR 0xC2, CHR 0xA0],
      [CHR 0xE1, CHR 0x9A, CHR 0x80],
      [CHR 0xE2, CHR 0x80, CHR 0x80], [CHR 0xE2, CHR 0x80, CHR 0x81],
      [CHR 0xE2, CHR 0x80, CHR 0x82], [CHR 0xE2, CHR 0x80, CHR 0x83],
      [CHR 0xE2, CHR 0x80, CHR 0x84], [CHR 0xE2, CHR 0x80, CHR 0x85],
      [CHR 0xE2, CHR 0x80, CHR 0x86], [CHR 0xE2, CHR 0x80, CHR 0x87],
      [CHR 0xE2, CHR 0x80, CHR 0x88], [CHR 0xE2, CHR 0x80, CHR 0x89],
      [CHR 0xE2, CHR 0x80, CHR 0x8A],
      [CHR 0xE2, CHR 0x80, CHR 0xA8], [CHR 0xE2, CHR 0x80, CHR 0xA9],
      [CHR 0xE2, CHR 0x80, CHR 0xAF],
      [CHR 0xE2, CHR 0x81, CHR 0x9F],
      [CHR 0xE3, CHR 0x80, CHR 0x80],
      [CHR 0xEF, CHR 0xBB, CHR 0xBF]]"

text \<open>The number of bytes of the first of the words \<open>ws\<close> that \<open>s\<close> starts with, or 0.\<close>

definition leading :: "string list \<Rightarrow> string \<Rightarrow> nat" where
  "leading ws s = (case filter (startsWith s) ws of [] \<Rightarrow> 0 | w # others \<Rightarrow> length w)"

function strip_leading :: "string list \<Rightarrow> string \<Rightarrow> string" where
  "strip_leading ws s =
     (if leading ws s = 0 then s else strip_leading ws (drop (leading ws s) s))"
  by pat_completeness auto
termination
proof (relation "measure (\<lambda>(ws, s). length s)")
  show "wf (measure (\<lambda>(ws, s). length s))"
    by simp
next
  fix ws :: "string list" and s :: string
  assume k: "leading ws s \<noteq> 0"
  have "s \<noteq> []"
  proof
    assume e: "s = []"
    have sw: "startsWith [] w = (w = [])" for w
      by (cases w) simp_all
    have "leading ws [] = 0"
      unfolding leading_def by (induction ws) (auto simp add: sw split: list.splits)
    with k e show False
      by simp
  qed
  with k show "((ws, drop (leading ws s) s), (ws, s)) \<in> measure (\<lambda>(ws, s). length s)"
    by simp
qed

declare strip_leading.simps [simp del]

definition trim :: "string \<Rightarrow> string" where
  "trim s = rev (strip_leading (map rev js_whitespace) (rev (strip_leading js_whitespace s)))"

text \<open>
  \<open>getProxyEndpoints\<close> and \<open>selectProxy\<close>. The argument \<open>pick\<close> is
  \<open>Math.floor(Math.random() * proxies.length)\<close>.
\<close>

definition getProxyEndpoints :: "string option \<Rightarrow> string list" where
  "getProxyEndpoints PROXY_URLS =
     (case PROXY_URLS of
        None \<Rightarrow> []
      | Some urls \<Rightarrow> if urls = [] then [] else map trim (split_on CHR '','' urls))"

definition selectProxy :: "string option \<Rightarrow> nat \<Rightarrow> string option" where
  "selectProxy PROXY_URLS pick =
     (let proxies = getProxyEndpoints PROXY_URLS
      in if length proxies = 0 then None
         else if pick < length proxies then Some (proxies ! pick) else None)"

text \<open>\<open>generateBrowserFingerprint\<close>, with the two random indexes as arguments; an index
  outside a list reads \<open>undefined\<close>, which a record of headers prints as that word.\<close>

definition USER_AGENTS :: "string list" where
  "USER_AGENTS =
    [''Mozilla/5.0 (Windows NT 10.0; Win64; x64) AppleWebKit/537.36 (KHTML, like Gecko) Chrome/120.0.0.0 Safari/537.36'',
     ''Mozilla/5.0 (Windows NT 10.0; Win64; x64) AppleWebKit/537.36 (KHTML, like Gecko) Chrome/120.0.0.0 Safari/537.36 Edg/120.0.0.0'',
     ''Mozilla/5.0 (Macintosh; Intel Mac OS X 10_15_7) AppleWebKit/605.1.15 (KHTML, like Gecko) Version/16.4 Safari/605.1.15'',
     ''Mozilla/5.0 (Windows NT 10.0; Win64; x64; rv:121.0) Gecko/20100101 Firefox/121.0'',
     ''Mozilla/5.0 (X11; Linux x86_64) AppleWebKit/537.36 (KHTML, like Gecko) Chrome/120.0.0.0 Safari/537.36'']"

definition ACCEPT_LANGUAGES :: "string list" where
  "ACCEPT_LANGUAGES =
    [''en-US,en;q=0.9'', ''en-GB,en;q=0.9'', ''en-US,en;q=0.8,es;q=0.6'',
     ''en-US,en;q=0.9,fr;q=0.8'', ''en-US,en;q=0.9,de;q=0.8'']"

definition pick_of :: "string list \<Rightarrow> nat \<Rightarrow> string" where
  "pick_of xs i = (if i < length xs then xs ! i else ''undefined'')"

definition generateBrowserFingerprint :: "nat \<Rightarrow> nat \<Rightarrow> (string \<times> string) list" where
  "generateBrowserFingerprint i j =
     [(''User-Agent'', pick_of USER_AGENTS i),
      (''Accept-Language'', pick_of ACCEPT_LANGUAGES j),
      (''Accept'', ''application/json, text/plain, */*''),
      (''Accept-Encoding'', ''gzip, deflate, br''),
      (''DNT'', ''1''),
      (''Connection'', ''keep-alive''),
      (''Upgrade-Insecure-Requests'', ''1'')]"

text \<open>An object literal with spread properties: a later property of the same name
  replaces the value and keeps the place.\<close>

fun spread :: "(string \<times> string) list \<Rightarrow> (string \<times> string) list \<Rightarrow> (string \<times> string) list" where
  "spread obj [] = obj"
| "spread obj ((k, v) # rest) = spread (AList.update k v obj) rest"

text \<open>What the network and the upstream service do in one attempt.\<close>

record api_error =
  err_code :: "int option"
  err_message :: "string option"

record raw_result =
  res_texts :: "string option list option"    \<comment> \<open>\<open>result.texts\<close>, each with its \<open>text\<close>\<close>
  res_lang :: "string option"

record raw_response =
  raw_error :: "api_error option"              \<comment> \<open>\<open>None\<close>: no \<open>error\<close>, or a falsy one\<close>
  raw_result :: "raw_result option"
  raw_id :: "int option"

datatype json_body = NotAnObject | Object raw_response

record http_response =
  resp_status :: int
  resp_ok :: bool
  resp_text :: "string option"                 \<comment> \<open>\<open>None\<close>: reading the body throws\<close>
  resp_json :: "(string + json_body)"          \<comment> \<open>\<open>Inl\<close>: parsing throws, with that message\<close>

datatype fetch_outcome = FetchThrows js_exn | FetchReturns http_response

record attempt_io =
  proxy_pick :: nat
  client_check :: "int \<times> kv_io"
  proxy_check :: "int \<times> kv_io"
  agent_pick :: nat
  language_pick :: nat
  build_io :: build_world
  fetched :: fetch_outcome

record env =
  PROXY_URLS :: "string option"

record config =
  cfg_env :: "env option"
  cfg_proxyEndpoint :: "string option"
  cfg_clientIP :: "string option"
  cfg_customHeader :: "(string \<times> string) list option"

text \<open>The constants of config.ts and const.ts that \<open>query\<close> reads, as parameters.\<close>

record constants =
  API_URL :: string
  CF_HEADER_PREFIX :: string
  PAYLOAD :: build_config
  timeout_seconds :: string                    \<comment> \<open>\<open>REQUEST_TIMEOUT / 1000\<close>, printed\<close>
  maxAttempts :: nat                           \<comment> \<open>of \<open>DEFAULT_RETRY_CONFIG\<close>\<close>

text \<open>Modelled from the spec: \<open>createStandardResponse\<close> (types.ts is missing) builds the
  result \<open>{httpStatus, translatedText|null, requestId?, detectedSourceLang, targetLang}\<close>.\<close>

record ResponseParams =
  httpStatus :: int
  translatedText :: "string option"
  requestId :: "int option"
  detectedSourceLang :: lang_value
  targetLang :: lang_value

definition createStandardResponse ::
  "int \<Rightarrow> string option \<Rightarrow> int option \<Rightarrow> lang_value \<Rightarrow> lang_value \<Rightarrow> ResponseParams" where
  "createStandardResponse st txt rid src tgt =
     \<lparr> httpStatus = st, translatedText = txt, requestId = rid,
       detectedSourceLang = src, targetLang = tgt \<rparr>"

text \<open>\<open>makeRequest\<close> (lines 219 to 267): the body and the headers are built, then the
  request is sent. An \<open>AbortError\<close> becomes the timeout error with status 408; every
  other exception is thrown again.\<close>

definition makeRequest ::
  "unicode_case \<Rightarrow> constants \<Rightarrow> request_params \<Rightarrow> config option \<Rightarrow> string \<Rightarrow> attempt_io
     \<Rightarrow> js_exn + http_response" where
  "makeRequest U K params cfg endpoint io =
     (case buildRequestBody U (PAYLOAD K) (build_io io) (Some params) of
        Inl e \<Rightarrow> Inl (exn_of_build_error (PAYLOAD K) e)
      | Inr requestBody \<Rightarrow>
          (let fingerprint = generateBrowserFingerprint (agent_pick io) (language_pick io);
               custom = (case cfg of None \<Rightarrow> [] | Some c \<Rightarrow> (case cfg_customHeader c of None \<Rightarrow> [] | Some h \<Rightarrow> h));
               baseHeadersObj = spread (spread [(''Content-Type'', ''application/json; charset=utf-8'')]
                                          fingerprint) custom
           in case fst (prepareRequestHeaders U (CF_HEADER_PREFIX K) (InitRecord baseHeadersObj)
                          (case cfg of None \<Rightarrow> None | Some c \<Rightarrow> cfg_clientIP c) []) of
                Inl e \<Rightarrow> Inl (exn_of_js_error e)
              | Inr preparedHeaders \<Rightarrow>
                  (case fetched io of
                     FetchThrows error \<Rightarrow>
                       if exn_name error = ''AbortError''
                       then Inl ((Error (''Request timeout after '' @ timeout_seconds K
                                         @ '' seconds to '' @ endpoint)) \<lparr> exn_status := Some 408 \<rparr>)
                       else Inl error
                   | FetchReturns response \<Rightarrow> Inr response)))"

text \<open>The message of an error that the upstream service reports (lines 297 to 325).\<close>

definition show_code :: "int option \<Rightarrow> string" where
  "show_code c = (case c of None \<Rightarrow> ''undefined'' | Some n \<Rightarrow> show_int n)"

definition enhancedMessage :: "int option \<Rightarrow> string \<Rightarrow> string" where
  "enhancedMessage errorCode errorMessage =
     (if errorCode = Some 1156049
      then ''Invalid request format detected. This may be caused by: 1) Incorrect JSON-RPC structure, 2) Invalid request ID format, 3) Malformed timestamp, or 4) Unsupported language codes.''
      else if errorCode = Some 1042912 then ''Too many requests. Please try again later.''
      else if errorCode = Some 1042513 then ''Request quota exceeded. Please try again later.''
      else if errorCode = Some 1042003 then ''Invalid authentication. Please check your API configuration.''
      else ''DeepL API error: '' @ errorMessage @ '' (Code: '' @ show_code errorCode @ '')'')"

text \<open>Lines 199 and 200: the proxy, if there is an environment, and the endpoint.\<close>

definition config_env :: "config option \<Rightarrow> env option" where
  "config_env cfg = (case cfg of None \<Rightarrow> None | Some c \<Rightarrow> cfg_env c)"

definition resolve_endpoint :: "constants \<Rightarrow> config option \<Rightarrow> attempt_io \<Rightarrow> string" where
  "resolve_endpoint K cfg io =
     (let proxy = (case config_env cfg of
                     None \<Rightarrow> None
                   | Some e \<Rightarrow> selectProxy (PROXY_URLS e) (proxy_pick io))
      in case (case cfg of None \<Rightarrow> None | Some c \<Rightarrow> cfg_proxyEndpoint c) of
           Some p \<Rightarrow> p
         | None \<Rightarrow> (case proxy of Some url \<Rightarrow> url | None \<Rightarrow> API_URL K))"

text \<open>Lines 203 to 215: the check of the rate limits, if there is an environment.\<close>

definition config_clientIP :: "config option \<Rightarrow> string" where
  "config_clientIP cfg = or_default (case cfg of None \<Rightarrow> None | Some c \<Rightarrow> cfg_clientIP c) ''unknown''"

definition rate_limit_step ::
  "config option \<Rightarrow> string \<Rightarrow> attempt_io \<Rightarrow> rl_state \<Rightarrow> js_exn option \<times> rl_state" where
  "rate_limit_step cfg endpoint io s =
     (case config_env cfg of
        None \<Rightarrow> (None, s)
      | Some e \<Rightarrow>
          (let (rateLimitResult, s') =
                 checkCombinedRateLimit (config_clientIP cfg) (Some endpoint) (client_check io) (proxy_check io) s
           in if \<not> allowed rateLimitResult
              then (Some ((Error (or_default (reason rateLimitResult) ''Rate limit exceeded''))
                            \<lparr> exn_code := Some 429 \<rparr>), s')
              else (None, s')))"

text \<open>The function that \<open>query\<close> hands to \<open>retryWithBackoff\<close> (lines 197 to 342): one
  attempt, on the state of the rate limiter.\<close>

definition attempt ::
  "unicode_case \<Rightarrow> constants \<Rightarrow> request_params \<Rightarrow> config option \<Rightarrow> attempt_io \<Rightarrow> rl_state
     \<Rightarrow> (js_exn + ResponseParams) \<times> rl_state" where
  "attempt U K params cfg io s =
     (let endpoint = resolve_endpoint K cfg io;
          (limited, s1) = rate_limit_step cfg endpoint io s
      in case limited of
           Some error \<Rightarrow> (Inl error, s1)
         | None \<Rightarrow>
            (case makeRequest U K params cfg endpoint io of
               Inl error \<Rightarrow> (Inl error, s1)
             | Inr response \<Rightarrow>
                 if \<not> resp_ok response
                 then (Inl ((Error (''Request failed with status '' @ show_int (resp_status response)
                                    @ (case resp_text response of
                                         None \<Rightarrow> []
                                       | Some errorText \<Rightarrow> if errorText = [] then [] else '': '' @ errorText)))
                             \<lparr> exn_status := Some (resp_status response) \<rparr>), s1)
                 else
                   (case resp_json response of
                      Inl parseError \<Rightarrow>
                        (Inl ((Error (''Failed to parse JSON response from '' @ endpoint @ '': '' @ parseError))
                                \<lparr> exn_code := Some 500 \<rparr>), s1)
                    | Inr NotAnObject \<Rightarrow> (Inl (TypeError_exn ''not an object''), s1)
                    | Inr (Object result) \<Rightarrow>
                        (case raw_error result of
                           Some err \<Rightarrow>
                             (let errorCode = err_code err;
                                  errorMessage = or_default (err_message err) ''Unknown DeepL API error''
                              in (Inl ((Error (enhancedMessage errorCode errorMessage))
                                         \<lparr> exn_code := errorCode \<rparr>), s1))
                         | None \<Rightarrow>
                             (case raw_result result of
                                None \<Rightarrow> (Inl ((Error ''Invalid response structure from DeepL API'')
                                                 \<lparr> exn_code := Some 500 \<rparr>), s1)
                              | Some res \<Rightarrow>
                                  (case res_texts res of
                                     None \<Rightarrow> (Inl ((Error ''Invalid response structure from DeepL API'')
                                                      \<lparr> exn_code := Some 500 \<rparr>), s1)
                                   | Some [] \<Rightarrow> (Inl ((Error ''Invalid response structure from DeepL API'')
                                                         \<lparr> exn_code := Some 500 \<rparr>), s1)
                                   | Some (translated # others) \<Rightarrow>
                                       (case res_lang res of
                                          None \<Rightarrow> (Inl (TypeError_exn ''toUpperCase of undefined''), s1)
                                        | Some lang \<Rightarrow>
                                            (case normalizeLanguageCode U (target_lang params) of
                                               Inl e \<Rightarrow> (Inl (language_exn e), s1)
                                             | Inr tgt \<Rightarrow>
                                                 (Inr (createStandardResponse 200 translated
                                                         (raw_id result)
                                                         (LangCode (toUpperCase U lang)) tgt),
                                                  s1)))))))))"

text \<open>Modelled from the spec: \<open>retryWithBackoff\<close> (retryLogic.ts is missing) runs the
  attempt up to \<open>maxAttempts\<close> times, and at least once. After a failed attempt it throws
  the error if the error is not retryable or no attempt is left, and otherwise runs the
  next attempt. The waiting between attempts shows only in the clock readings of the
  next attempt.\<close>

fun retryLoop ::
  "(js_exn \<Rightarrow> bool) \<Rightarrow> (nat \<Rightarrow> 's \<Rightarrow> (js_exn + 'a) \<times> 's) \<Rightarrow> nat \<Rightarrow> nat \<Rightarrow> 's \<Rightarrow> (js_exn + 'a) \<times> 's" where
  "retryLoop isRetryable fn n 0 s = fn n s"
| "retryLoop isRetryable fn n (Suc left) s =
     (case fn n s of
        (Inr r, s') \<Rightarrow> (Inr r, s')
      | (Inl e, s') \<Rightarrow> if isRetryable e then retryLoop isRetryable fn (Suc n) left s' else (Inl e, s'))"

definition retryWithBackoff ::
  "nat \<Rightarrow> (js_exn \<Rightarrow> bool) \<Rightarrow> (nat \<Rightarrow> 's \<Rightarrow> (js_exn + 'a) \<times> 's) \<Rightarrow> 's \<Rightarrow> (js_exn + 'a) \<times> 's" where
  "retryWithBackoff attempts isRetryable fn s = retryLoop isRetryable fn 1 (attempts - 1) s"

text \<open>Lines 186 and 187, and again lines 352 and 353: the two languages of a result
  without a translation. Neither pair of calls is inside a \<open>try\<close> block.\<close>

definition response_languages ::
  "unicode_case \<Rightarrow> js_value \<Rightarrow> js_value \<Rightarrow> js_error + lang_value \<times> lang_value" where
  "response_languages U src tgt =
     (case normalizeLanguageCode U (js_or src (JString ''auto'')) of
        Inl e \<Rightarrow> Inl e
      | Inr a \<Rightarrow>
          (case normalizeLanguageCode U (js_or tgt (JString ''en'')) of
             Inl e \<Rightarrow> Inl e
           | Inr b \<Rightarrow> Inr (a, b)))"

text \<open>
  \<open>query(params, config)\<close>. \<open>isRetryableError\<close> (retryLogic.ts) and \<open>createErrorResponse\<close>
  (errorHandler.ts) are missing and are parameters: the first says whether an error is
  retried; the second gives the \<open>httpStatus\<close> of an error, or throws (\<open>Inl\<close>), and its
  second argument is the \<open>endpoint\<close> of its options. \<open>ios n\<close> is what the world does in
  attempt \<open>n\<close>. The result is \<open>Inl\<close> for an exception that leaves \<open>query\<close>, which is a
  promise that rejects.
\<close>

definition query ::
  "unicode_case \<Rightarrow> constants \<Rightarrow> (js_exn \<Rightarrow> bool) \<Rightarrow> (js_exn \<Rightarrow> string option \<Rightarrow> js_exn + int)
     \<Rightarrow> request_params option \<Rightarrow> config option \<Rightarrow> (nat \<Rightarrow> attempt_io) \<Rightarrow> rl_state
     \<Rightarrow> (js_exn + ResponseParams) \<times> rl_state" where
  "query U K isRetryableError createErrorResponse params cfg ios s =
     (case (case params of None \<Rightarrow> None | Some p \<Rightarrow> if truthy (req_text p) then Some p else None) of
        None \<Rightarrow>
          (case response_languages U
                  (case params of None \<Rightarrow> JUndefined | Some p \<Rightarrow> source_lang p)
                  (case params of None \<Rightarrow> JUndefined | Some p \<Rightarrow> target_lang p) of
             Inl e \<Rightarrow> (Inl (language_exn e), s)
           | Inr (src, tgt) \<Rightarrow> (Inr (createStandardResponse 400 None None src tgt), s))
      | Some p \<Rightarrow>
          (case retryWithBackoff (maxAttempts K) isRetryableError (\<lambda>n. attempt U K p cfg (ios n)) s of
             (Inr r, s') \<Rightarrow> (Inr r, s')
           | (Inl error, s') \<Rightarrow>
               (case createErrorResponse error
                       (case cfg of None \<Rightarrow> None | Some c \<Rightarrow> cfg_proxyEndpoint c) of
                  Inl thrown \<Rightarrow> (Inl thrown, s')
                | Inr errorDetails \<Rightarrow>
                    (case response_languages U (source_lang p) (target_lang p) of
                       Inl e \<Rightarrow> (Inl (language_exn e), s')
                     | Inr (src, tgt) \<Rightarrow>
                         (Inr (createStandardResponse errorDetails None None src tgt), s')))))"

section \<open>Properties of the request builder\<close>

subsection \<open>The perturbed timestamp\<close>

lemma length_split_on: "length (split_on sep s) = Suc (count_list s sep)"
  by (induction s) (auto simp: Let_def)

lemma countLetterI_count: "countLetterI s = int (count_list s (CHR ''i''))"
  by (simp add: countLetterI_def length_split_on)

lemma js_rem_nonneg: "0 \<le> a \<Longrightarrow> 0 < b \<Longrightarrow> js_rem a b = a mod b"
  by (cases "a = 0") (simp_all add: js_rem_def)

lemma count_list_replicate: "count_list (replicate k c) c = k"
  by (induction k) auto

text \<open>
  C1, as the claim states it, fails. A text of 1000 letters \<open>i\<close> at the clock reading
  1700000000000 gives \<open>m = 1001\<close> and the adjusted value 1700000000699, which is 699 ms
  from the original and a positive safe integer; \<open>getTimestamp\<close> still returns the raw
  reading, because it gives up as soon as \<open>m\<close> exceeds 1000.
\<close>

theorem getTimestamp_large_count_counterexample:
  "getTimestamp 1700000000000 (countLetterI (replicate 1000 (CHR ''i''))) = 1700000000000
   \<and> \<bar>(1700000000000 - 1700000000000 mod 1001 + 1001) - (1700000000000::int)\<bar> \<le> 1000
   \<and> (0::int) < 1700000000000 - 1700000000000 mod 1001 + 1001
   \<and> (1700000000000 - 1700000000000 mod 1001 + 1001) \<le> MAX_SAFE_INTEGER"
  by (simp add: countLetterI_count count_list_replicate getTimestamp_def MAX_SAFE_INTEGER_def)

text \<open>
  C1, amended. Let \<open>n\<close> be the number of occurrences of \<open>i\<close> in the text and \<open>now\<close> the raw
  clock reading, not negative. If \<open>n = 0\<close> the timestamp is \<open>now\<close>. If \<open>n > 0\<close>, with
  \<open>m = n + 1\<close> and \<open>t' = now - (now mod m) + m\<close>, the timestamp is \<open>t'\<close> exactly when
  \<open>m \<le> 1000\<close> and \<open>t'\<close> is a safe integer, and \<open>now\<close> otherwise. Whenever the timestamp
  differs from \<open>now\<close> it is \<open>t'\<close>, a multiple of \<open>n + 1\<close>, positive, a safe integer and
  within 1000 ms of \<open>now\<close>.
\<close>

theorem getTimestamp_perturbation:
  fixes now :: int and txt0 :: string
  defines "n \<equiv> int (count_list txt0 (CHR ''i''))"
  defines "t' \<equiv> now - now mod (n + 1) + (n + 1)"
  defines "r \<equiv> getTimestamp now (countLetterI txt0)"
  assumes now: "0 \<le> now"
  shows "(n = 0 \<longrightarrow> r = now)
       \<and> (0 < n \<longrightarrow> r = (if n + 1 \<le> 1000 \<and> t' \<le> MAX_SAFE_INTEGER then t' else now))
       \<and> (r \<noteq> now \<longrightarrow> r = t' \<and> r mod (n + 1) = 0 \<and> \<bar>r - now\<bar> \<le> 1000 \<and> 0 < r \<and> r \<le> MAX_SAFE_INTEGER)"
proof -
  have n0: "0 \<le> n" by (simp add: n_def)
  have cnt: "countLetterI txt0 = n" by (simp add: n_def countLetterI_count)
  have lo: "0 \<le> now mod (n + 1)"
    using n0 by simp
  have hi: "now mod (n + 1) < n + 1"
    using n0 by (intro pos_mod_bound) simp
  have rem: "js_rem now (n + 1) = now mod (n + 1)"
    using now n0 by (simp add: js_rem_nonneg)
  have dvd: "t' mod (n + 1) = 0"
    unfolding t'_def by (simp add: mod_simps)
  have r_eq: "r = (if n = 0 then now
                   else if n + 1 \<le> 1000 \<and> t' \<le> MAX_SAFE_INTEGER then t' else now)"
  proof -
    have mx: "max 0 n = n" using n0 by simp
    show ?thesis
      unfolding r_def cnt getTimestamp_def Let_def mx rem
      using n0 now lo hi by (auto simp: t'_def)
  qed
  show ?thesis
    unfolding r_eq using n0 now lo hi dvd by (auto simp: t'_def)
qed

text \<open>The amended C1 at the text \<open>this is it\<close> (three letters \<open>i\<close>) and the clock
  reading 1700000000003: the timestamp is the next multiple of 4.\<close>

theorem getTimestamp_perturbation_witness:
  "(0::int) \<le> 1700000000003
   \<and> getTimestamp 1700000000003 (countLetterI ''this is it'') = 1700000000004
   \<and> getTimestamp 1700000000003 (countLetterI ''this is it'') mod 4 = 0"
proof -
  have h: "(0::int) \<le> 1700000000003" by simp
  have c: "int (count_list ''this is it'' (CHR ''i'')) = 3" by simp
  have m: "(1700000000003::int) mod (3 + 1) = 3" by simp
  note T = getTimestamp_perturbation [OF h, of "''this is it''", unfolded c m]
  have "(0::int) < 3 \<longrightarrow> getTimestamp 1700000000003 (countLetterI ''this is it'') =
      (if (3::int) + 1 \<le> 1000 \<and> 1700000000003 - 3 + (3 + 1) \<le> MAX_SAFE_INTEGER
       then 1700000000003 - 3 + (3 + 1) else 1700000000003)"
    by (rule T [THEN conjunct2, THEN conjunct1])
  then have g: "getTimestamp 1700000000003 (countLetterI ''this is it'') = 1700000000004"
    by (simp add: MAX_SAFE_INTEGER_def)
  show ?thesis unfolding g using h by simp
qed

subsection \<open>The spacing after the method key\<close>

lemma js_rem_eq_0_iff: "0 < b \<Longrightarrow> js_rem a b = 0 \<longleftrightarrow> a mod b = 0"
proof -
  assume b: "0 < b"
  have "js_rem a b = 0 \<longleftrightarrow> \<bar>a\<bar> mod b = 0"
    using b by (cases "a = 0") (auto simp: js_rem_def sgn_if)
  also have "\<dots> \<longleftrightarrow> b dvd \<bar>a\<bar>" by (simp add: dvd_eq_mod_eq_0)
  also have "\<dots> \<longleftrightarrow> b dvd a" by simp
  also have "\<dots> \<longleftrightarrow> a mod b = 0" by (simp add: dvd_eq_mod_eq_0)
  finally show ?thesis .
qed

lemma JSON_stringify_prefix:
  \<open>\<exists>rest. JSON_stringify alts e = ''{"jsonrpc":"2.0","method":"LMT_handle_texts","id":'' @ show_int (env_id e) @ rest\<close>
  by (simp add: JSON_stringify_def)

lemma replace_first_method:
  \<open>replace_first ''"method":"'' rep (''{"jsonrpc":"2.0","method":"'' @ rest) = ''{"jsonrpc":"2.0",'' @ rep @ rest\<close>
  by simp

lemma method_spacing_prefix:
  \<open>method_spacing i (''{"jsonrpc":"2.0","method":"'' @ rest) =
     ''{"jsonrpc":"2.0",'' @ (if (i + 5) mod 29 = 0 \<or> (i + 3) mod 13 = 0
                             then ''"method" : "'' else ''"method": "'') @ rest\<close>
  unfolding method_spacing_def replace_first_method
  by (simp add: js_rem_eq_0_iff)

lemma getTimestamp_pos: "0 < now \<Longrightarrow> 0 < getTimestamp now k"
  by (auto simp: getTimestamp_def Let_def)

lemma normalizeLanguageCode_Inl:
  "(\<exists>e. normalizeLanguageCode U v = Inl e) \<longleftrightarrow> truthy v \<and> \<not> is_string v"
  by (cases v) (auto simp: normalizeLanguageCode_def Let_def split: option.splits)

lemma js_or_Inl:
  assumes "truthy d" "is_string d"
  shows "(\<exists>e. normalizeLanguageCode U (js_or v d) = Inl e) \<longleftrightarrow> truthy v \<and> \<not> is_string v"
  unfolding normalizeLanguageCode_Inl using assms by (auto simp: js_or_def)

lemma js_or_js_or: "js_or (js_or v d) d = js_or v d"
  by (simp add: js_or_def)

lemma request_envelope_Inl:
  "(\<exists>e. request_envelope U w t src tgt = Inl e) \<longleftrightarrow>
     (truthy src \<and> \<not> is_string src) \<or> (truthy tgt \<and> \<not> is_string tgt)"
proof -
  have a: "(\<exists>e. normalizeLanguageCode U (js_or src (JString ''auto'')) = Inl e)
             \<longleftrightarrow> truthy src \<and> \<not> is_string src"
    by (rule js_or_Inl) simp_all
  have b: "(\<exists>e. normalizeLanguageCode U (js_or tgt (JString ''en'')) = Inl e)
             \<longleftrightarrow> truthy tgt \<and> \<not> is_string tgt"
    by (rule js_or_Inl) simp_all
  have "(\<exists>e. request_envelope U w t src tgt = Inl e) \<longleftrightarrow>
          (\<exists>e. normalizeLanguageCode U (js_or src (JString ''auto'')) = Inl e)
          \<or> (\<exists>e. normalizeLanguageCode U (js_or tgt (JString ''en'')) = Inl e)"
    by (auto simp: request_envelope_def buildRequestParams_def Let_def js_or_js_or
        split: sum.splits)
  then show ?thesis
    unfolding a b .
qed

lemma env_id_request_envelope:
  "request_envelope U w t src tgt = Inr e \<Longrightarrow>
     env_id e = js_rem (clock_params w) 100000000 + js_rem (randomComponent w) 100000000"
  by (auto simp: request_envelope_def buildRequestParams_def Let_def split: sum.splits)

lemma env_timestamp_request_envelope:
  "request_envelope U w t src tgt = Inr e \<Longrightarrow>
     env_timestamp e = getTimestamp (clock_timestamp w) (countLetterI t)"
  by (auto simp: request_envelope_def buildRequestParams_def Let_def split: sum.splits)

lemma buildRequestBody_Inr:
  assumes "buildRequestBody U cfg w data = Inr body"
  shows "\<exists>d t e. data = Some d \<and> req_text d = JString t
           \<and> request_envelope U w t (source_lang d) (target_lang d) = Inr e
           \<and> body = method_spacing (env_id e) (JSON_stringify (REQUEST_ALTERNATIVES cfg) e)"
  using assms
  by (auto simp: buildRequestBody_def Let_def
      split: option.splits js_value.splits if_splits sum.splits)

text \<open>
  C2. Every request body that \<open>buildRequestBody\<close> returns starts with \<open>{"jsonrpc":"2.0",\<close>,
  then the method key in one of two forms, then the method name and the request id
  \<open>id = (clock mod 10^8) + (random mod 10^8)\<close>. The form is \<open>"method" : "\<close> if
  \<open>(id + 5) mod 29 = 0\<close> or \<open>(id + 3) mod 13 = 0\<close>, and \<open>"method": "\<close> otherwise; the
  form with no space does not remain.
\<close>

theorem spacing_variant_by_id:
  fixes w :: build_world
  defines "rid \<equiv> js_rem (clock_params w) 100000000 + js_rem (randomComponent w) 100000000"
  assumes "buildRequestBody U cfg w data = Inr body"
  shows \<open>\<exists>rest. body = ''{"jsonrpc":"2.0",''
            @ (if (rid + 5) mod 29 = 0 \<or> (rid + 3) mod 13 = 0 then ''"method" : "'' else ''"method": "'')
            @ ''LMT_handle_texts","id":'' @ show_int rid @ rest\<close>
proof -
  from buildRequestBody_Inr [OF assms(2)] obtain d :: request_params and t e where
    e: "request_envelope U w t (source_lang d) (target_lang d) = Inr e"
    and body: "body = method_spacing (env_id e) (JSON_stringify (REQUEST_ALTERNATIVES cfg) e)"
    by blast
  have id: "env_id e = rid"
    using env_id_request_envelope [OF e] by (simp add: rid_def)
  obtain rest where S: \<open>JSON_stringify (REQUEST_ALTERNATIVES cfg) e =
      ''{"jsonrpc":"2.0","method":"'' @ (''LMT_handle_texts","id":'' @ show_int rid @ rest)\<close>
    using JSON_stringify_prefix [of "REQUEST_ALTERNATIVES cfg" e] by (auto simp: id)
  show ?thesis
    unfolding body id S method_spacing_prefix by blast
qed


lemmas query_eval = buildRequestBody_def request_envelope_def buildRequestParams_def
  normalizeLanguageCode_def languageMap_get_def languageMap_def Object_prototype_names_def
  toLowerCase_def toUpperCase_def ascii_lower_def ascii_upper_def is_ascii_def js_or_def
  lower_char_def upper_char_def or_default_def
  js_rem_def js_length_def utf8_byte_length_def getTimestamp_def countLetterI_count
  MAX_SAFE_INTEGER_def method_spacing_def JSON_stringify_def json_lang_def json_member_def
  json_string_def json_escape_char_def hex_digit_def show_int_def show_nat_def
  show_digits.simps digit_char_def Let_def char_of_def bit_Suc_0_iff

text \<open>C2 at two requests for the text \<open>Hi\<close>: the request id 24 gives the spaced form
  and the request id 1 the compact form.\<close>

theorem spacing_variant_by_id_witness:
  \<open>buildRequestBody ascii_case_only
      \<lparr> MAX_TEXT_LENGTH = 5000, MAX_REQUEST_SIZE = 32768, REQUEST_ALTERNATIVES = 3 \<rparr>
      \<lparr> clock_params = 1700000000019, randomComponent = 5, clock_timestamp = 1700000000021 \<rparr>
      (Some \<lparr> req_text = JString ''Hi'', source_lang = JString ''auto'', target_lang = JString ''de'' \<rparr>)
    = Inr ''{"jsonrpc":"2.0","method" : "LMT_handle_texts","id":24,"params":{"texts":[{"text":"Hi","requestAlternatives":3}],"timestamp":1700000000022,"splitting":"newlines","lang":{"source_lang_user_selected":"auto","target_lang":"DE"}}}''
   \<and> (\<exists>rest. ''{"jsonrpc":"2.0","method" : "LMT_handle_texts","id":24,"params":{"texts":[{"text":"Hi","requestAlternatives":3}],"timestamp":1700000000022,"splitting":"newlines","lang":{"source_lang_user_selected":"auto","target_lang":"DE"}}}''
       = ''{"jsonrpc":"2.0","method" : "LMT_handle_texts","id":24'' @ rest)
   \<and> buildRequestBody ascii_case_only
      \<lparr> MAX_TEXT_LENGTH = 5000, MAX_REQUEST_SIZE = 32768, REQUEST_ALTERNATIVES = 3 \<rparr>
      \<lparr> clock_params = 1700000000000, randomComponent = 1, clock_timestamp = 1700000000021 \<rparr>
      (Some \<lparr> req_text = JString ''Hi'', source_lang = JString ''auto'', target_lang = JString ''de'' \<rparr>)
    = Inr ''{"jsonrpc":"2.0","method": "LMT_handle_texts","id":1,"params":{"texts":[{"text":"Hi","requestAlternatives":3}],"timestamp":1700000000022,"splitting":"newlines","lang":{"source_lang_user_selected":"auto","target_lang":"DE"}}}''
   \<and> (\<exists>rest. ''{"jsonrpc":"2.0","method": "LMT_handle_texts","id":1,"params":{"texts":[{"text":"Hi","requestAlternatives":3}],"timestamp":1700000000022,"splitting":"newlines","lang":{"source_lang_user_selected":"auto","target_lang":"DE"}}}''
       = ''{"jsonrpc":"2.0","method": "LMT_handle_texts","id":1'' @ rest)\<close>
proof -
  let ?cfg = "\<lparr> MAX_TEXT_LENGTH = 5000, MAX_REQUEST_SIZE = 32768, REQUEST_ALTERNATIVES = 3 \<rparr>"
  let ?d = "Some \<lparr> req_text = JString ''Hi'', source_lang = JString ''auto'', target_lang = JString ''de'' \<rparr>"
  let ?w24 = "\<lparr> clock_params = 1700000000019, randomComponent = 5, clock_timestamp = 1700000000021 \<rparr>"
  let ?w1 = "\<lparr> clock_params = 1700000000000, randomComponent = 1, clock_timestamp = 1700000000021 \<rparr>"
  have h24: \<open>buildRequestBody ascii_case_only ?cfg ?w24 ?d
    = Inr ''{"jsonrpc":"2.0","method" : "LMT_handle_texts","id":24,"params":{"texts":[{"text":"Hi","requestAlternatives":3}],"timestamp":1700000000022,"splitting":"newlines","lang":{"source_lang_user_selected":"auto","target_lang":"DE"}}}''\<close>
    by (simp add: query_eval)
  have h1: \<open>buildRequestBody ascii_case_only ?cfg ?w1 ?d
    = Inr ''{"jsonrpc":"2.0","method": "LMT_handle_texts","id":1,"params":{"texts":[{"text":"Hi","requestAlternatives":3}],"timestamp":1700000000022,"splitting":"newlines","lang":{"source_lang_user_selected":"auto","target_lang":"DE"}}}''\<close>
    by (simp add: query_eval)
  have i24: "js_rem (clock_params ?w24) 100000000 + js_rem (randomComponent ?w24) 100000000 = 24"
    by (simp add: js_rem_def)
  have i1: "js_rem (clock_params ?w1) 100000000 + js_rem (randomComponent ?w1) 100000000 = 1"
    by (simp add: js_rem_def)
  have s24: "show_int 24 = ''24''" and s1: "show_int 1 = ''1''"
    by (simp_all add: show_int_def show_digits.simps digit_char_def char_of_def bit_Suc_0_iff)
  have e24: \<open>\<exists>rest. ''{"jsonrpc":"2.0","method" : "LMT_handle_texts","id":24,"params":{"texts":[{"text":"Hi","requestAlternatives":3}],"timestamp":1700000000022,"splitting":"newlines","lang":{"source_lang_user_selected":"auto","target_lang":"DE"}}}''
       = ''{"jsonrpc":"2.0","method" : "LMT_handle_texts","id":24'' @ rest\<close>
    using spacing_variant_by_id [OF h24] unfolding i24 s24 by simp
  have e1: \<open>\<exists>rest. ''{"jsonrpc":"2.0","method": "LMT_handle_texts","id":1,"params":{"texts":[{"text":"Hi","requestAlternatives":3}],"timestamp":1700000000022,"splitting":"newlines","lang":{"source_lang_user_selected":"auto","target_lang":"DE"}}}''
       = ''{"jsonrpc":"2.0","method": "LMT_handle_texts","id":1'' @ rest\<close>
    using spacing_variant_by_id [OF h1] unfolding i1 s1 by simp
  show ?thesis
    using h24 e24 h1 e1 by (intro conjI)
qed

subsection \<open>The failures of the builder\<close>

text \<open>
  C7, as the claim states it, fails. A request with the text \<open>Hi\<close> and the number 5 as
  its target language has a text that is a string, not empty and within the limit, and
  no serialized payload is ever measured: \<open>normalizeLanguageCode\<close> calls \<open>toLowerCase\<close>
  on the number and \<open>buildRequestBody\<close> throws that \<open>TypeError\<close>. With the string \<open>5\<close>
  instead, the same request is built, and its payload is far below the limit.
\<close>

theorem buildRequestBody_language_counterexample:
  \<open>buildRequestBody ascii_case_only
        \<lparr> MAX_TEXT_LENGTH = 5000, MAX_REQUEST_SIZE = 32768, REQUEST_ALTERNATIVES = 3 \<rparr>
        \<lparr> clock_params = 1700000000019, randomComponent = 5, clock_timestamp = 1700000000021 \<rparr>
        (Some \<lparr> req_text = JString ''Hi'', source_lang = JUndefined, target_lang = JNumber 5 \<rparr>)
      = Inl LanguageTypeError
   \<and> js_length ''Hi'' \<le> 5000
   \<and> buildRequestBody ascii_case_only
        \<lparr> MAX_TEXT_LENGTH = 5000, MAX_REQUEST_SIZE = 32768, REQUEST_ALTERNATIVES = 3 \<rparr>
        \<lparr> clock_params = 1700000000019, randomComponent = 5, clock_timestamp = 1700000000021 \<rparr>
        (Some \<lparr> req_text = JString ''Hi'', source_lang = JUndefined, target_lang = JString ''5'' \<rparr>)
      = Inr ''{"jsonrpc":"2.0","method" : "LMT_handle_texts","id":24,"params":{"texts":[{"text":"Hi","requestAlternatives":3}],"timestamp":1700000000022,"splitting":"newlines","lang":{"source_lang_user_selected":"auto","target_lang":"5"}}}''\<close>
  by (simp add: query_eval)

text \<open>
  C7, amended. With a clock that reads a positive time, \<open>buildRequestBody\<close> fails exactly
  in these cases, tried in this order: the request or its text is missing, the text is
  not a string, or it is empty; the text has more UTF-16 code units than
  \<open>MAX_TEXT_LENGTH\<close>; the source or the target language is a truthy value that is not a
  string (the \<open>TypeError\<close> of \<open>normalizeLanguageCode\<close>); the serialized request has more
  bytes than \<open>MAX_REQUEST_SIZE\<close>. In every other case it returns the serialized request.
  (The check of the timestamp never fails then, and the second check for an empty text
  is never reached.)
\<close>

theorem buildRequestBody_failures:
  fixes U :: unicode_case and cfg :: build_config and w :: build_world
    and data :: "request_params option"
  defines "R \<equiv> buildRequestBody U cfg w data"
  assumes clock: "0 < clock_timestamp w"
  shows "((\<nexists>d t. data = Some d \<and> req_text d = JString t \<and> t \<noteq> []) \<longrightarrow> R = Inl InvalidText)
       \<and> (\<forall>d t. data = Some d \<and> req_text d = JString t \<and> t \<noteq> [] \<longrightarrow>
            (if js_length t > MAX_TEXT_LENGTH cfg
             then R = Inl (TextTooLong (MAX_TEXT_LENGTH cfg))
             else if (truthy (source_lang d) \<and> \<not> is_string (source_lang d))
                     \<or> (truthy (target_lang d) \<and> \<not> is_string (target_lang d))
             then R = Inl LanguageTypeError
             else (\<exists>e. request_envelope U w t (source_lang d) (target_lang d) = Inr e
                     \<and> R = (let body = method_spacing (env_id e)
                                         (JSON_stringify (REQUEST_ALTERNATIVES cfg) e)
                            in if utf8_byte_length body > MAX_REQUEST_SIZE cfg
                               then Inl (PayloadTooLarge (utf8_byte_length body))
                               else Inr body))))"
proof (intro conjI impI allI)
  assume "\<nexists>d t. data = Some d \<and> req_text d = JString t \<and> t \<noteq> []"
  then show "R = Inl InvalidText"
    by (auto simp: R_def buildRequestBody_def split: option.splits js_value.splits)
next
  fix d :: request_params and t
  assume a: "data = Some d \<and> req_text d = JString t \<and> t \<noteq> []"
  let ?bad = "(truthy (source_lang d) \<and> \<not> is_string (source_lang d))
              \<or> (truthy (target_lang d) \<and> \<not> is_string (target_lang d))"
  let ?env = "request_envelope U w t (source_lang d) (target_lang d)"
  have ts: "0 < env_timestamp e" if "?env = Inr e" for e
    using clock env_timestamp_request_envelope [OF that] by (simp add: getTimestamp_pos)
  have bad: "?bad \<longleftrightarrow> (\<exists>err. ?env = Inl err)"
    by (simp only: request_envelope_Inl)
  show "if js_length t > MAX_TEXT_LENGTH cfg
        then R = Inl (TextTooLong (MAX_TEXT_LENGTH cfg))
        else if ?bad then R = Inl LanguageTypeError
        else (\<exists>e. ?env = Inr e
                \<and> R = (let body = method_spacing (env_id e)
                                    (JSON_stringify (REQUEST_ALTERNATIVES cfg) e)
                       in if utf8_byte_length body > MAX_REQUEST_SIZE cfg
                          then Inl (PayloadTooLarge (utf8_byte_length body))
                          else Inr body))"
  proof (cases ?env)
    case (Inl err)
    then have b: "?bad = True"
      using bad by simp
    show ?thesis
      unfolding b using a Inl by (simp add: R_def buildRequestBody_def Let_def)
  next
    case (Inr e)
    then have nb: "?bad = False"
      using bad by simp
    show ?thesis
      unfolding nb using a Inr ts [OF Inr] by (simp add: R_def buildRequestBody_def Let_def)
  qed
qed


text \<open>The amended C7 at the text \<open>Hi\<close>: a request that is built, one whose payload is
  too large, one whose text is too long, one whose text is a number, and one whose
  target language is a number.\<close>

theorem buildRequestBody_failures_witness:
  \<open>0 < clock_timestamp \<lparr> clock_params = 1700000000019, randomComponent = 5, clock_timestamp = 1700000000021 \<rparr>
   \<and> buildRequestBody ascii_case_only
      \<lparr> MAX_TEXT_LENGTH = 5000, MAX_REQUEST_SIZE = 32768, REQUEST_ALTERNATIVES = 3 \<rparr>
      \<lparr> clock_params = 1700000000019, randomComponent = 5, clock_timestamp = 1700000000021 \<rparr>
      (Some \<lparr> req_text = JString ''Hi'', source_lang = JUndefined, target_lang = JString ''german'' \<rparr>)
    = Inr ''{"jsonrpc":"2.0","method" : "LMT_handle_texts","id":24,"params":{"texts":[{"text":"Hi","requestAlternatives":3}],"timestamp":1700000000022,"splitting":"newlines","lang":{"source_lang_user_selected":"auto","target_lang":"DE"}}}''
   \<and> buildRequestBody ascii_case_only
      \<lparr> MAX_TEXT_LENGTH = 5000, MAX_REQUEST_SIZE = 100, REQUEST_ALTERNATIVES = 3 \<rparr>
      \<lparr> clock_params = 1700000000019, randomComponent = 5, clock_timestamp = 1700000000021 \<rparr>
      (Some \<lparr> req_text = JString ''Hi'', source_lang = JUndefined, target_lang = JString ''german'' \<rparr>)
    = Inl (PayloadTooLarge 226)
   \<and> buildRequestBody ascii_case_only
      \<lparr> MAX_TEXT_LENGTH = 1, MAX_REQUEST_SIZE = 32768, REQUEST_ALTERNATIVES = 3 \<rparr>
      \<lparr> clock_params = 1700000000019, randomComponent = 5, clock_timestamp = 1700000000021 \<rparr>
      (Some \<lparr> req_text = JString ''Hi'', source_lang = JUndefined, target_lang = JString ''german'' \<rparr>)
    = Inl (TextTooLong 1)
   \<and> buildRequestBody ascii_case_only
      \<lparr> MAX_TEXT_LENGTH = 5000, MAX_REQUEST_SIZE = 32768, REQUEST_ALTERNATIVES = 3 \<rparr>
      \<lparr> clock_params = 1700000000019, randomComponent = 5, clock_timestamp = 1700000000021 \<rparr>
      (Some \<lparr> req_text = JNumber 7, source_lang = JUndefined, target_lang = JString ''german'' \<rparr>)
    = Inl InvalidText
   \<and> buildRequestBody ascii_case_only
      \<lparr> MAX_TEXT_LENGTH = 5000, MAX_REQUEST_SIZE = 32768, REQUEST_ALTERNATIVES = 3 \<rparr>
      \<lparr> clock_params = 1700000000019, randomComponent = 5, clock_timestamp = 1700000000021 \<rparr>
      (Some \<lparr> req_text = JString ''Hi'', source_lang = JUndefined, target_lang = JBool True \<rparr>)
    = Inl LanguageTypeError\<close>
proof -
  let ?w = "\<lparr> clock_params = 1700000000019, randomComponent = 5, clock_timestamp = 1700000000021 \<rparr>"
  let ?d = "\<lparr> req_text = JString ''Hi'', source_lang = JUndefined, target_lang = JString ''german'' \<rparr>"
  let ?n = "\<lparr> req_text = JNumber 7, source_lang = JUndefined, target_lang = JString ''german'' \<rparr>"
  let ?b = "\<lparr> req_text = JString ''Hi'', source_lang = JUndefined, target_lang = JBool True \<rparr>"
  have clock: "0 < clock_timestamp ?w" by simp
  have env: \<open>request_envelope ascii_case_only ?w ''Hi'' JUndefined (JString ''german'') =
      Inr \<lparr> env_id = 24, env_text = ''Hi'', env_timestamp = 1700000000022,
            env_source_lang = LangCode ''auto'', env_target_lang = LangCode ''DE'' \<rparr>\<close>
    by (simp add: query_eval)
  have body: \<open>method_spacing 24 (JSON_stringify 3
        \<lparr> env_id = 24, env_text = ''Hi'', env_timestamp = 1700000000022,
          env_source_lang = LangCode ''auto'', env_target_lang = LangCode ''DE'' \<rparr>) =
      ''{"jsonrpc":"2.0","method" : "LMT_handle_texts","id":24,"params":{"texts":[{"text":"Hi","requestAlternatives":3}],"timestamp":1700000000022,"splitting":"newlines","lang":{"source_lang_user_selected":"auto","target_lang":"DE"}}}''\<close>
    by (simp add: query_eval)
  have len: "js_length ''Hi'' = 2" by (simp add: js_length_def)
  have a: "Some ?d = Some ?d \<and> req_text ?d = JString ''Hi'' \<and> ''Hi'' \<noteq> []" by simp
  have c: "Some ?b = Some ?b \<and> req_text ?b = JString ''Hi'' \<and> ''Hi'' \<noteq> []" by simp
  have b: "\<nexists>d t. Some ?n = Some d \<and> req_text d = JString t \<and> t \<noteq> []" by simp
  let ?c0 = "\<lparr> MAX_TEXT_LENGTH = 5000, MAX_REQUEST_SIZE = 32768, REQUEST_ALTERNATIVES = 3 \<rparr>"
  let ?c1 = "\<lparr> MAX_TEXT_LENGTH = 5000, MAX_REQUEST_SIZE = 100, REQUEST_ALTERNATIVES = 3 \<rparr>"
  let ?c2 = "\<lparr> MAX_TEXT_LENGTH = 1, MAX_REQUEST_SIZE = 32768, REQUEST_ALTERNATIVES = 3 \<rparr>"
  note ok0 = buildRequestBody_failures [OF clock, where U = ascii_case_only and data = "Some ?d"
      and cfg = ?c0, THEN conjunct2, THEN spec, THEN spec, THEN mp, OF a]
  note ok1 = buildRequestBody_failures [OF clock, where U = ascii_case_only and data = "Some ?d"
      and cfg = ?c1, THEN conjunct2, THEN spec, THEN spec, THEN mp, OF a]
  note ok2 = buildRequestBody_failures [OF clock, where U = ascii_case_only and data = "Some ?d"
      and cfg = ?c2, THEN conjunct2, THEN spec, THEN spec, THEN mp, OF a]
  note lang = buildRequestBody_failures [OF clock, where U = ascii_case_only and data = "Some ?b"
      and cfg = ?c0, THEN conjunct2, THEN spec, THEN spec, THEN mp, OF c]
  note bad = buildRequestBody_failures [OF clock, where U = ascii_case_only and data = "Some ?n"
      and cfg = ?c0, THEN conjunct1, THEN mp, OF b]
  show ?thesis
    using clock ok0 ok1 ok2 bad lang
    by (simp add: env body len utf8_byte_length_def)
qed

subsection \<open>Language codes\<close>

lemma toLowerCase_ascii: "is_ascii s \<Longrightarrow> toLowerCase U s = ascii_lower s"
  by (simp add: toLowerCase_def)

lemma toUpperCase_ascii: "is_ascii s \<Longrightarrow> toUpperCase U s = ascii_upper s"
  by (simp add: toUpperCase_def)

lemma of_char_lower_char: "((of_char (lower_char c) :: nat) < 128) = ((of_char c :: nat) < 128)"
proof -
  have "of_char (char_of (of_char c + 32 :: nat)) = (of_char c + 32 :: nat)"
    if "(of_char c :: nat) \<le> 90"
    using that by (simp add: of_char_of)
  then show ?thesis
    by (auto simp: lower_char_def Let_def)
qed

lemma is_ascii_lower: "is_ascii (ascii_lower s) = is_ascii s"
  by (induction s) (simp_all add: is_ascii_def ascii_lower_def of_char_lower_char)

lemma upper_lower_char: "upper_char (lower_char c) = upper_char c"
proof -
  have "of_char (char_of (of_char c + 32 :: nat)) = (of_char c + 32 :: nat)"
    if "(of_char c :: nat) \<le> 90"
    using that by (simp add: of_char_of)
  then show ?thesis
    by (auto simp: upper_char_def lower_char_def Let_def)
qed

lemma ascii_upper_lower: "ascii_upper (ascii_lower l) = ascii_upper l"
  by (simp add: ascii_upper_def ascii_lower_def upper_lower_char)

lemma toUpperCase_toLowerCase:
  "is_ascii l \<Longrightarrow> toUpperCase U (toLowerCase U l) = toUpperCase U l"
  by (simp add: toLowerCase_ascii toUpperCase_ascii is_ascii_lower ascii_upper_lower)

lemma lower_char_idem: "lower_char (lower_char c) = lower_char c"
proof -
  have "of_char (char_of (of_char c + 32 :: nat)) = (of_char c + 32 :: nat)"
    if "(of_char c :: nat) \<le> 90"
    using that by (simp add: of_char_of)
  then show ?thesis
    by (auto simp: lower_char_def Let_def)
qed

lemma ascii_lower_idem: "ascii_lower (ascii_lower l) = ascii_lower l"
  by (simp add: ascii_lower_def lower_char_idem)

lemma languageMap_get_lower:
  assumes "map_of languageMap (ascii_lower l) = None"
    and "ascii_lower l \<noteq> ''constructor''" and "ascii_lower l \<noteq> ''__proto__''"
  shows "languageMap_get (ascii_lower l) = None"
proof -
  have "ascii_lower l \<noteq> n" if "ascii_lower n \<noteq> n" for n
    using that ascii_lower_idem [of l] by auto
  then have "ascii_lower l \<notin> set Object_prototype_names"
    using assms(2,3)
    by (auto simp: Object_prototype_names_def ascii_lower_def lower_char_def char_of_def bit_Suc_0_iff)
  then show ?thesis using assms(1) by (simp add: languageMap_get_def)
qed

lemma normalizeLanguageCode_missing:
  "\<not> truthy v \<Longrightarrow> normalizeLanguageCode U v = Inr (LangCode ''auto'')"
  by (simp add: normalizeLanguageCode_def)

lemma normalizeLanguageCode_auto:
  "toLowerCase U l = ''auto'' \<Longrightarrow> normalizeLanguageCode U (JString l) = Inr (LangCode ''auto'')"
  by (simp add: normalizeLanguageCode_def)

lemma normalizeLanguageCode_table:
  assumes "map_of languageMap (toLowerCase U l) = Some v"
  shows "normalizeLanguageCode U (JString l) = Inr (LangCode v)"
proof -
  have "map_of languageMap ''auto'' = None" "map_of languageMap [] = None"
    by (simp_all add: languageMap_def)
  with assms have "toLowerCase U l \<noteq> ''auto''" "l \<noteq> []"
    by (auto simp: toLowerCase_def is_ascii_def ascii_lower_def)
  then show ?thesis
    using assms by (simp add: normalizeLanguageCode_def languageMap_get_def Let_def)
qed

lemma normalizeLanguageCode_other:
  assumes "is_ascii l" "l \<noteq> []" "ascii_lower l \<noteq> ''auto''" "map_of languageMap (ascii_lower l) = None"
    and "ascii_lower l \<noteq> ''constructor''" "ascii_lower l \<noteq> ''__proto__''"
  shows "normalizeLanguageCode U (JString l) = Inr (LangCode (toUpperCase U l))"
  using assms languageMap_get_lower [OF assms(4,5,6)] toUpperCase_toLowerCase [OF assms(1), of U]
  by (simp add: normalizeLanguageCode_def Let_def toLowerCase_ascii)

lemma normalizeLanguageCode_german:
  "toLowerCase U l = ''german'' \<Longrightarrow> normalizeLanguageCode U (JString l) = Inr (LangCode ''DE'')"
  by (rule normalizeLanguageCode_table) (simp add: languageMap_def)

text \<open>
  C9 fails on the code at the language code \<open>Constructor\<close>: it is neither \<open>auto\<close> nor a
  name of the table, and the result is not the upper-cased string \<open>CONSTRUCTOR\<close> but the
  property \<open>constructor\<close> that the table object inherits from \<open>Object.prototype\<close>. The
  lemmas above show the claim for every other code of ASCII characters.
\<close>

theorem normalizeLanguageCode_constructor:
  "normalizeLanguageCode U (JString ''Constructor'') = Inr (Inherited ''constructor'')
   \<and> normalizeLanguageCode U (JString ''Constructor'') \<noteq> Inr (LangCode ''CONSTRUCTOR'')"
  by (simp add: normalizeLanguageCode_def languageMap_get_def languageMap_def Object_prototype_names_def
      toLowerCase_def is_ascii_def ascii_lower_def lower_char_def char_of_def bit_Suc_0_iff Let_def)

section \<open>Properties of the rate limiter\<close>

lemma rateCache_kv_put [simp]: "rateCache (kv_put io k e now s) = rateCache s"
  by (simp add: kv_put_def)

lemma pending_kv_put [simp]: "pending (kv_put io k e now s) = pending s"
  by (simp add: kv_put_def)

lemma rateCache_cache_set [simp]: "rateCache (cache_set k e s) = AList.update k e (rateCache s)"
  by (simp add: cache_set_def)

lemma kv_cache_set [simp]: "RATE_LIMIT_KV (cache_set k e s) = RATE_LIMIT_KV s"
  by (simp add: cache_set_def)

lemma pending_cache_set [simp]: "pending (cache_set k e s) = pending s"
  by (simp add: cache_set_def)

lemma rateCache_available [simp]: "rateCache (snd (available_tokens k now io s)) = rateCache s"
  by (simp add: available_tokens_def Let_def split: option.splits)

lemma kv_available [simp]: "RATE_LIMIT_KV (snd (available_tokens k now io s)) = RATE_LIMIT_KV s"
  by (simp add: available_tokens_def Let_def split: option.splits)

text \<open>What a check does to the cache entry of its own key, by the tokens available.\<close>

lemma checkRateLimit_cache:
  "map_of (rateCache (snd (checkRateLimit ip now io s))) (rate_key ip) =
     (let t = fst (available_tokens (rate_key ip) now io s)
      in Some \<lparr> tokens = (if t < 1 then t else t - 1), lastRefill = now, lastUpdate = now \<rparr>)"
  by (simp add: checkRateLimit_def Let_def update_conv' split: prod.splits)

lemma checkRateLimit_allowed:
  "fst (checkRateLimit ip now io s) = (\<not> fst (available_tokens (rate_key ip) now io s) < 1)"
  by (simp add: checkRateLimit_def Let_def split: prod.splits)

lemma checkRateLimit_other_cache:
  "k \<noteq> rate_key ip \<Longrightarrow>
   map_of (rateCache (snd (checkRateLimit ip now io s))) k = map_of (rateCache s) k"
  by (simp add: checkRateLimit_def Let_def update_conv' split: prod.splits)
    (metis rateCache_available snd_conv)

lemma available_hit:
  "map_of (rateCache s) k = Some c \<Longrightarrow> now - lastUpdate c < CACHE_TTL \<Longrightarrow>
   fst (available_tokens k now io s) =
     min DEFAULT_TOKENS_PER_MINUTE (tokens c + of_int (now - lastRefill c) / 1000 * REFILL_RATE)"
  by (simp add: available_tokens_def Let_def)

lemma available_miss:
  "map_of (rateCache s) k = None \<Longrightarrow>
   fst (available_tokens k now io s) = DEFAULT_TOKENS_PER_MINUTE"
  by (simp add: available_tokens_def Let_def)






lemma list_all_update:
  "P (k, v) \<Longrightarrow> list_all P al \<Longrightarrow> list_all P (AList.update k v al)"
  by (induction al) auto

lemma entry_ok_mono: "entry_ok t e \<Longrightarrow> t \<le> t' \<Longrightarrow> entry_ok t' e"
  by (simp add: entry_ok_def)

lemma rl_invariant_mono: "rl_invariant t s \<Longrightarrow> t \<le> t' \<Longrightarrow> rl_invariant t' s"
  unfolding rl_invariant_def list_all_iff by (auto intro: entry_ok_mono)

lemma rl_invariant_init: "rl_invariant t rl_init"
  by (simp add: rl_invariant_def rl_init_def)

lemma rl_invariant_range: "rl_invariant t s \<Longrightarrow> tokens_in_range s"
  unfolding rl_invariant_def tokens_in_range_def list_all_iff entry_ok_def by auto

lemma refill_range:
  assumes "0 \<le> tokens e" "lastRefill e \<le> now"
  shows "0 \<le> min DEFAULT_TOKENS_PER_MINUTE (tokens e + of_int (now - lastRefill e) / 1000 * REFILL_RATE)"
proof -
  have "(0::rat) \<le> of_int (now - lastRefill e) / 1000 * REFILL_RATE"
    using assms by (simp add: REFILL_RATE_def DEFAULT_TOKENS_PER_MINUTE_def)
  then show ?thesis
    using assms(1) by (simp add: DEFAULT_TOKENS_PER_MINUTE_def)
qed

lemma available_le: "fst (available_tokens k now io s) \<le> DEFAULT_TOKENS_PER_MINUTE"
  by (simp add: available_tokens_def Let_def split: option.splits)

lemma available_range:
  assumes "rl_invariant t s" "t \<le> now"
  shows "0 \<le> fst (available_tokens k now io s)"
proof (cases "map_of (rateCache s) k")
  case None
  then show ?thesis by (simp add: available_miss DEFAULT_TOKENS_PER_MINUTE_def)
next
  case (Some c)
  then have "(k, c) \<in> set (rateCache s)" by (rule map_of_SomeD)
  with assms(1) have ok: "entry_ok t c"
    by (auto simp: rl_invariant_def list_all_iff)
  then have c: "0 \<le> tokens c" "lastRefill c \<le> now"
    using assms(2) by (simp_all add: entry_ok_def)
  show ?thesis
  proof (cases "now - lastUpdate c < CACHE_TTL")
    case True
    then show ?thesis
      using refill_range [OF c] by (simp add: available_hit [OF Some True])
  next
    case False
    then show ?thesis
      using Some by (simp add: available_tokens_def Let_def DEFAULT_TOKENS_PER_MINUTE_def)
  qed
qed

lemma kv_get_mem:
  assumes "kv_get k now s = Some e"
  shows "\<exists>x. (k, e, x) \<in> set (RATE_LIMIT_KV s)"
proof -
  from assms obtain x where "map_of (RATE_LIMIT_KV s) k = Some (e, x)"
    by (auto simp: kv_get_def split: option.splits if_splits)
  then have "(k, e, x) \<in> set (RATE_LIMIT_KV s)" by (rule map_of_SomeD)
  then show ?thesis ..
qed

lemma kv_get_ok:
  assumes "rl_invariant t s" "kv_get k now s = Some e"
  shows "entry_ok t e"
  using kv_get_mem [OF assms(2)] assms(1) by (auto simp: rl_invariant_def list_all_iff)

lemma available_invariant:
  "rl_invariant t (snd (available_tokens k now io s)) = rl_invariant t s"
  by (simp add: rl_invariant_def)

lemma checkRateLimit_invariant:
  assumes "rl_invariant t s" "t \<le> now"
  shows "rl_invariant now (snd (checkRateLimit ip now io s))"
proof -
  obtain T s1 where av: "available_tokens (rate_key ip) now io s = (T, s1)"
    by (cases "available_tokens (rate_key ip) now io s") auto
  have T: "0 \<le> T" "T \<le> DEFAULT_TOKENS_PER_MINUTE"
    using available_range [OF assms, of "rate_key ip" io] available_le [of "rate_key ip" now io s]
    by (simp_all add: av)
  have "rl_invariant now s" using assms by (rule rl_invariant_mono)
  then have s1: "rl_invariant now s1"
    using available_invariant [of now "rate_key ip" now io s] by (simp add: av)
  have put: "rl_invariant now (kv_put io k \<lparr> tokens = v, lastRefill = now \<rparr> now
                 (cache_set k \<lparr> tokens = v, lastRefill = now, lastUpdate = now \<rparr> s1))"
    if "0 \<le> v" "v \<le> DEFAULT_TOKENS_PER_MINUTE" for k v
    using s1 that
    by (auto simp: rl_invariant_def kv_put_def cache_set_def entry_ok_def intro!: list_all_update)
  show ?thesis
    using T put [of T] put [of "T - 1"]
    by (simp add: checkRateLimit_def av Let_def)
qed

lemma resolve_read_invariant:
  assumes "rl_invariant t s" "served_in_time i t' s"
  shows "rl_invariant t (resolve_read i t' s)"
proof (cases "i < length (pending s)")
  case False
  then show ?thesis using assms by (simp add: resolve_read_def)
next
  case True
  obtain k now where kn: "pending s ! i = (k, now)" by (cases "pending s ! i") auto
  define s1 where "s1 = s \<lparr> pending := take i (pending s) @ drop (Suc i) (pending s) \<rparr>"
  have s1: "rl_invariant t s1"
    using assms(1) by (simp add: s1_def rl_invariant_def)
  show ?thesis
  proof (cases "kv_get k t' s")
    case None
    then show ?thesis
      using True s1 by (simp add: resolve_read_def kn s1_def)
  next
    case (Some existing)
    have ok: "entry_ok t existing" using assms(1) Some by (rule kv_get_ok)
    have late: "lastRefill existing \<le> now"
      using assms(2) True Some by (simp add: served_in_time_def kn)
    have "0 \<le> min DEFAULT_TOKENS_PER_MINUTE
                 (tokens existing + of_int (now - lastRefill existing) / 1000 * REFILL_RATE)"
      using ok late by (intro refill_range) (simp_all add: entry_ok_def)
    then have "entry_ok t \<lparr> tokens = min DEFAULT_TOKENS_PER_MINUTE
                 (tokens existing + of_int (now - lastRefill existing) / 1000 * REFILL_RATE),
               lastRefill = lastRefill existing, lastUpdate = now \<rparr>"
      using ok by (simp add: entry_ok_def)
    then have "rl_invariant t (cache_set k \<lparr> tokens = min DEFAULT_TOKENS_PER_MINUTE
                 (tokens existing + of_int (now - lastRefill existing) / 1000 * REFILL_RATE),
               lastRefill = lastRefill existing, lastUpdate = now \<rparr> s1)"
      using s1 by (auto simp: rl_invariant_def intro!: list_all_update)
    then show ?thesis
      using True Some by (simp add: resolve_read_def kn s1_def Let_def)
  qed
qed

lemma rl_run_invariant:
  "rl_invariant t s \<Longrightarrow> sorted (t # check_times evs) \<Longrightarrow> timely evs s \<Longrightarrow>
   rl_invariant (last (t # check_times evs)) (rl_run evs s)"
proof (induction evs arbitrary: t s)
  case Nil
  then show ?case by simp
next
  case (Cons ev evs)
  show ?case
  proof (cases ev)
    case (Check ip now io)
    with Cons.prems have le: "t \<le> now" and srt: "sorted (now # check_times evs)"
      and tm: "timely evs (rl_step ev s)" by simp_all
    have "rl_invariant now (rl_step ev s)"
      using checkRateLimit_invariant [OF Cons.prems(1) le] Check by simp
    from Cons.IH [OF this srt tm] show ?thesis using Check by simp
  next
    case (Resolve i t')
    with Cons.prems have srt: "sorted (t # check_times evs)"
      and now: "served_in_time i t' s" and tm: "timely evs (rl_step ev s)" by simp_all
    have "rl_invariant t (rl_step ev s)"
      using resolve_read_invariant [OF Cons.prems(1) now] Resolve by simp
    from Cons.IH [OF this srt tm] show ?thesis using Resolve by simp
  qed
qed

lemma tokens_at_most_capacity_available:
  "tokens_at_most_capacity (snd (available_tokens k now io s)) = tokens_at_most_capacity s"
  by (simp add: tokens_at_most_capacity_def)

lemma checkRateLimit_capacity:
  assumes "tokens_at_most_capacity s"
  shows "tokens_at_most_capacity (snd (checkRateLimit ip now io s))"
proof -
  obtain T s1 where av: "available_tokens (rate_key ip) now io s = (T, s1)"
    by (cases "available_tokens (rate_key ip) now io s") auto
  have T: "T \<le> DEFAULT_TOKENS_PER_MINUTE"
    using available_le [of "rate_key ip" now io s] by (simp add: av)
  have s1: "tokens_at_most_capacity s1"
    using assms tokens_at_most_capacity_available [of "rate_key ip" now io s] by (simp add: av)
  have put: "tokens_at_most_capacity (kv_put io k \<lparr> tokens = v, lastRefill = now \<rparr> now
                 (cache_set k \<lparr> tokens = v, lastRefill = now, lastUpdate = now \<rparr> s1))"
    if "v \<le> DEFAULT_TOKENS_PER_MINUTE" for k v
    using s1 that
    by (auto simp: tokens_at_most_capacity_def kv_put_def cache_set_def intro!: list_all_update)
  show ?thesis
    using T put [of T] put [of "T - 1"]
    by (simp add: checkRateLimit_def av Let_def)
qed

lemma resolve_read_capacity:
  assumes "tokens_at_most_capacity s"
  shows "tokens_at_most_capacity (resolve_read i t s)"
proof (cases "i < length (pending s)")
  case False
  then show ?thesis using assms by (simp add: resolve_read_def)
next
  case True
  obtain k now where kn: "pending s ! i = (k, now)" by (cases "pending s ! i") auto
  define s1 where "s1 = s \<lparr> pending := take i (pending s) @ drop (Suc i) (pending s) \<rparr>"
  have s1: "tokens_at_most_capacity s1"
    using assms by (simp add: s1_def tokens_at_most_capacity_def)
  have set: "tokens_at_most_capacity (cache_set k \<lparr> tokens = min DEFAULT_TOKENS_PER_MINUTE v,
               lastRefill = r, lastUpdate = now \<rparr> s1)" for v r
    using s1 by (auto simp: tokens_at_most_capacity_def intro!: list_all_update)
  show ?thesis
    using True s1 set
    by (simp add: resolve_read_def kn s1_def [symmetric] Let_def split: option.splits)
qed

lemma rl_run_capacity:
  "tokens_at_most_capacity s \<Longrightarrow> tokens_at_most_capacity (rl_run evs s)"
proof (induction evs arbitrary: s)
  case Nil
  then show ?case by simp
next
  case (Cons ev evs)
  have "tokens_at_most_capacity (rl_step ev s)"
    using Cons.prems by (cases ev) (simp_all add: checkRateLimit_capacity resolve_read_capacity)
  then show ?case
    using Cons.IH by simp
qed

lemma rl_run_range:
  assumes "rl_invariant t s" "sorted (t # check_times evs)" "timely evs s"
  shows "tokens_in_range (rl_run evs s)"
  using rl_run_invariant [OF assms] by (rule rl_invariant_range)

lemmas rl_eval = checkRateLimit_def available_tokens_def rate_key_def Let_def kv_get_def kv_put_def
  cache_set_def DEFAULT_TOKENS_PER_MINUTE_def REFILL_RATE_def CACHE_TTL_def

lemmas rl_run_eval = rl_eval resolve_read_def served_in_time_def rl_init_def tokens_in_range_def
  tokens_at_most_capacity_def

text \<open>
  C4, as the claim states it, fails: the refill is clamped at the capacity, and nothing
  clamps it at zero. Two runs from the empty limiter store a negative token count.

  In the first the clock never goes back. The identity is checked at time 1700000000000
  and again 61 seconds later; both checks miss the cache and start a read of the
  namespace. The callback of the first read runs after the second check: it receives the
  record that the second check wrote (59 tokens, refilled at 1700000061000), computes
  the time passed from it to its own clock reading, \<open>-61\<close> seconds, and stores
  \<open>59 - 61 = -2\<close> tokens in the cache.

  In the second the clock goes back by 100 seconds between two checks: the second check
  finds the cache entry of the first, computes \<open>59 - 100 = -41\<close> tokens, rejects the call
  and stores that count in the cache and in the namespace.
\<close>

theorem tokens_negative_counterexample:
  "sorted (check_times
     [Check ''203.0.113.7'' 1700000000000 \<lparr> get_ok = True, put_ok = True \<rparr>,
      Check ''203.0.113.7'' 1700000061000 \<lparr> get_ok = True, put_ok = True \<rparr>,
      Resolve 0 1700000061001])
   \<and> rateCache (rl_run
     [Check ''203.0.113.7'' 1700000000000 \<lparr> get_ok = True, put_ok = True \<rparr>,
      Check ''203.0.113.7'' 1700000061000 \<lparr> get_ok = True, put_ok = True \<rparr>,
      Resolve 0 1700000061001] rl_init)
     = [(''rate:203.0.113.7'',
         \<lparr> tokens = - 2, lastRefill = 1700000061000, lastUpdate = 1700000000000 \<rparr>)]
   \<and> \<not> tokens_in_range (rl_run
     [Check ''203.0.113.7'' 1700000000000 \<lparr> get_ok = True, put_ok = True \<rparr>,
      Check ''203.0.113.7'' 1700000061000 \<lparr> get_ok = True, put_ok = True \<rparr>,
      Resolve 0 1700000061001] rl_init)
   \<and> RATE_LIMIT_KV (rl_run
     [Check ''203.0.113.7'' 1700000100000 \<lparr> get_ok = True, put_ok = True \<rparr>,
      Check ''203.0.113.7'' 1700000000000 \<lparr> get_ok = True, put_ok = True \<rparr>] rl_init)
     = [(''rate:203.0.113.7'', \<lparr> tokens = - 41, lastRefill = 1700000000000 \<rparr>, 1700003600000)]
   \<and> \<not> tokens_in_range (rl_run
     [Check ''203.0.113.7'' 1700000100000 \<lparr> get_ok = True, put_ok = True \<rparr>,
      Check ''203.0.113.7'' 1700000000000 \<lparr> get_ok = True, put_ok = True \<rparr>] rl_init)"
  by (simp add: rl_run_eval)

text \<open>
  C4, amended. Take any state of the limiter and run any sequence of admission checks,
  of any identities, interleaved in any way with the callbacks of the reads of the
  namespace, at any clock readings. If no token count in the local cache or in the
  namespace exceeds the capacity before, none does after, however much time passes
  between checks. Every token count lies between 0 and the capacity after the run if
  that is so before it, and no record is refilled later than a time \<open>t\<close>, and the clock
  readings of the checks are \<open>t\<close> or later and do not decrease, and every read is served
  in time (its callback receives a record refilled no later than the check that started
  the read). The empty limiter is such a state, for every \<open>t\<close>.
\<close>

theorem tokens_stay_in_range:
  "(tokens_at_most_capacity s \<longrightarrow> tokens_at_most_capacity (rl_run evs s))
   \<and> (rl_invariant t s \<and> sorted (t # check_times evs) \<and> timely evs s
        \<longrightarrow> tokens_in_range (rl_run evs s))
   \<and> tokens_at_most_capacity rl_init \<and> rl_invariant t rl_init"
proof (intro conjI impI)
  assume "tokens_at_most_capacity s"
  then show "tokens_at_most_capacity (rl_run evs s)"
    by (rule rl_run_capacity)
next
  assume "rl_invariant t s \<and> sorted (t # check_times evs) \<and> timely evs s"
  then show "tokens_in_range (rl_run evs s)"
    by (blast intro: rl_run_range)
next
  show "tokens_at_most_capacity rl_init"
    by (simp add: tokens_at_most_capacity_def rl_init_def)
next
  show "rl_invariant t rl_init"
    by (rule rl_invariant_init)
qed

text \<open>The amended C4 at a namespace that holds half a token of the identity, and a run
  with a stale cache entry, a callback that is served in time, and an idle time of a
  day.\<close>

theorem tokens_stay_in_range_witness:
  "rl_invariant 500
     \<lparr> rateCache = [],
       RATE_LIMIT_KV = [(''rate:203.0.113.7'', \<lparr> tokens = 1 / 2, lastRefill = 500 \<rparr>, 3600500)],
       pending = [] \<rparr>
   \<and> sorted (500 # check_times
     [Check ''203.0.113.7'' 1000 \<lparr> get_ok = True, put_ok = True \<rparr>,
      Check ''203.0.113.7'' 20000 \<lparr> get_ok = True, put_ok = True \<rparr>,
      Resolve 1 20005,
      Check ''203.0.113.7'' 90000000 \<lparr> get_ok = False, put_ok = True \<rparr>])
   \<and> timely
     [Check ''203.0.113.7'' 1000 \<lparr> get_ok = True, put_ok = True \<rparr>,
      Check ''203.0.113.7'' 20000 \<lparr> get_ok = True, put_ok = True \<rparr>,
      Resolve 1 20005,
      Check ''203.0.113.7'' 90000000 \<lparr> get_ok = False, put_ok = True \<rparr>]
     \<lparr> rateCache = [],
       RATE_LIMIT_KV = [(''rate:203.0.113.7'', \<lparr> tokens = 1 / 2, lastRefill = 500 \<rparr>, 3600500)],
       pending = [] \<rparr>
   \<and> tokens_at_most_capacity (rl_run
     [Check ''203.0.113.7'' 1000 \<lparr> get_ok = True, put_ok = True \<rparr>,
      Check ''203.0.113.7'' 20000 \<lparr> get_ok = True, put_ok = True \<rparr>,
      Resolve 1 20005,
      Check ''203.0.113.7'' 90000000 \<lparr> get_ok = False, put_ok = True \<rparr>]
     \<lparr> rateCache = [],
       RATE_LIMIT_KV = [(''rate:203.0.113.7'', \<lparr> tokens = 1 / 2, lastRefill = 500 \<rparr>, 3600500)],
       pending = [] \<rparr>)
   \<and> tokens_in_range (rl_run
     [Check ''203.0.113.7'' 1000 \<lparr> get_ok = True, put_ok = True \<rparr>,
      Check ''203.0.113.7'' 20000 \<lparr> get_ok = True, put_ok = True \<rparr>,
      Resolve 1 20005,
      Check ''203.0.113.7'' 90000000 \<lparr> get_ok = False, put_ok = True \<rparr>]
     \<lparr> rateCache = [],
       RATE_LIMIT_KV = [(''rate:203.0.113.7'', \<lparr> tokens = 1 / 2, lastRefill = 500 \<rparr>, 3600500)],
       pending = [] \<rparr>)"
proof -
  let ?run = "[Check ''203.0.113.7'' 1000 \<lparr> get_ok = True, put_ok = True \<rparr>,
      Check ''203.0.113.7'' 20000 \<lparr> get_ok = True, put_ok = True \<rparr>,
      Resolve 1 20005,
      Check ''203.0.113.7'' 90000000 \<lparr> get_ok = False, put_ok = True \<rparr>]"
  let ?s = "\<lparr> rateCache = [],
       RATE_LIMIT_KV = [(''rate:203.0.113.7'', \<lparr> tokens = 1 / 2, lastRefill = 500 \<rparr>, 3600500)],
       pending = [] \<rparr>"
  have i: "rl_invariant 500 ?s"
    by (simp add: rl_invariant_def entry_ok_def DEFAULT_TOKENS_PER_MINUTE_def)
  have c: "tokens_at_most_capacity ?s"
    by (simp add: tokens_at_most_capacity_def DEFAULT_TOKENS_PER_MINUTE_def)
  have h: "sorted (500 # check_times ?run)"
    by simp
  have t: "timely ?run ?s"
    by (simp add: rl_run_eval)
  from tokens_stay_in_range [of ?s ?run 500] i c h t show ?thesis
    by blast
qed

lemma rate_key_inj [simp]: "rate_key a = rate_key b \<longleftrightarrow> a = b"
  by (simp add: rate_key_def)

lemma checkRateLimit_other_kv:
  "k \<noteq> rate_key ip \<Longrightarrow>
   map_of (RATE_LIMIT_KV (snd (checkRateLimit ip now io s))) k = map_of (RATE_LIMIT_KV s) k"
proof -
  assume k: "k \<noteq> rate_key ip"
  obtain T s1 where av: "available_tokens (rate_key ip) now io s = (T, s1)"
    by (cases "available_tokens (rate_key ip) now io s") auto
  have "RATE_LIMIT_KV s1 = RATE_LIMIT_KV s"
    using kv_available [of "rate_key ip" now io s] by (simp add: av)
  then show ?thesis
    using k by (simp add: checkRateLimit_def av Let_def kv_put_def update_conv')
qed

lemma checkCombinedRateLimit_unfold:
  "checkCombinedRateLimit clientIP proxyUrl c1 c2 s =
     (let r1 = checkRateLimit clientIP (fst c1) (snd c1) s
      in if \<not> fst r1 then (\<lparr> allowed = False, reason = Some ''Client rate limit exceeded'' \<rparr>, snd r1)
         else (case proxyUrl of
                 None \<Rightarrow> (\<lparr> allowed = True, reason = None \<rparr>, snd r1)
               | Some url \<Rightarrow>
                   if url = [] then (\<lparr> allowed = True, reason = None \<rparr>, snd r1)
                   else (let r2 = checkRateLimit url (fst c2) (snd c2) (snd r1)
                         in if \<not> fst r2
                            then (\<lparr> allowed = False, reason = Some ''Proxy rate limit exceeded'' \<rparr>, snd r2)
                            else (\<lparr> allowed = True, reason = None \<rparr>, snd r2))))"
  by (simp add: checkCombinedRateLimit_def case_prod_beta Let_def split: option.splits)

text \<open>
  C5. The combined check runs the client check first. If the client is rejected, the
  result is the client-limit reason and the state is the one the client check left: the
  bucket of any other identity is as before. If the client passes and no proxy URL is
  given, the request is allowed. If the client passes and a proxy URL is given, the proxy
  bucket is checked in the state the client check left; a rejection gives the proxy-limit
  reason, and in either case the client bucket keeps the token it has spent.
\<close>

theorem combined_check_order:
  fixes clientIP :: string and proxyUrl :: "string option"
    and c1 c2 :: "int \<times> kv_io" and s :: rl_state
  defines "r1 \<equiv> checkRateLimit clientIP (fst c1) (snd c1) s"
  defines "r \<equiv> checkCombinedRateLimit clientIP proxyUrl c1 c2 s"
  shows "(\<not> fst r1 \<longrightarrow>
            r = (\<lparr> allowed = False, reason = Some ''Client rate limit exceeded'' \<rparr>, snd r1)
            \<and> (\<forall>url. url \<noteq> clientIP \<longrightarrow>
                  map_of (rateCache (snd r)) (rate_key url) = map_of (rateCache s) (rate_key url)
                  \<and> map_of (RATE_LIMIT_KV (snd r)) (rate_key url) = map_of (RATE_LIMIT_KV s) (rate_key url)))
       \<and> (fst r1 \<and> (proxyUrl = None \<or> proxyUrl = Some []) \<longrightarrow>
            r = (\<lparr> allowed = True, reason = None \<rparr>, snd r1))
       \<and> (\<forall>url. fst r1 \<and> proxyUrl = Some url \<and> url \<noteq> [] \<longrightarrow>
            (let r2 = checkRateLimit url (fst c2) (snd c2) (snd r1)
             in r = (if fst r2 then \<lparr> allowed = True, reason = None \<rparr>
                     else \<lparr> allowed = False, reason = Some ''Proxy rate limit exceeded'' \<rparr>, snd r2)
                \<and> (url \<noteq> clientIP \<longrightarrow>
                     map_of (rateCache (snd r)) (rate_key clientIP) =
                       Some \<lparr> tokens = fst (available_tokens (rate_key clientIP) (fst c1) (snd c1) s) - 1,
                              lastRefill = fst c1, lastUpdate = fst c1 \<rparr>)))"
proof (intro conjI impI allI)
  assume "\<not> fst r1"
  then show "r = (\<lparr> allowed = False, reason = Some ''Client rate limit exceeded'' \<rparr>, snd r1)"
    by (simp add: r_def r1_def checkCombinedRateLimit_unfold Let_def)
next
  fix url assume a: "\<not> fst r1" "url \<noteq> clientIP"
  then have "snd r = snd r1"
    by (simp add: r_def r1_def checkCombinedRateLimit_unfold Let_def)
  then show "map_of (rateCache (snd r)) (rate_key url) = map_of (rateCache s) (rate_key url)"
    and "map_of (RATE_LIMIT_KV (snd r)) (rate_key url) = map_of (RATE_LIMIT_KV s) (rate_key url)"
    using a(2) by (simp_all add: r1_def checkRateLimit_other_cache checkRateLimit_other_kv)
next
  assume "fst r1 \<and> (proxyUrl = None \<or> proxyUrl = Some [])"
  then show "r = (\<lparr> allowed = True, reason = None \<rparr>, snd r1)"
    by (auto simp: r_def r1_def checkCombinedRateLimit_unfold Let_def)
next
  fix url assume a: "fst r1 \<and> proxyUrl = Some url \<and> url \<noteq> []"
  define r2 where "r2 = checkRateLimit url (fst c2) (snd c2) (snd r1)"
  have req: "r = (if fst r2 then \<lparr> allowed = True, reason = None \<rparr>
                     else \<lparr> allowed = False, reason = Some ''Proxy rate limit exceeded'' \<rparr>, snd r2)"
    using a by (auto simp: r_def r1_def r2_def checkCombinedRateLimit_unfold Let_def)
  have spent: "map_of (rateCache (snd r)) (rate_key clientIP) =
                       Some \<lparr> tokens = fst (available_tokens (rate_key clientIP) (fst c1) (snd c1) s) - 1,
                              lastRefill = fst c1, lastUpdate = fst c1 \<rparr>" if "url \<noteq> clientIP"
  proof -
    have "snd r = snd r2" by (simp add: req)
    then have "map_of (rateCache (snd r)) (rate_key clientIP) = map_of (rateCache (snd r1)) (rate_key clientIP)"
      using that by (simp add: r2_def checkRateLimit_other_cache)
    moreover have "\<not> fst (available_tokens (rate_key clientIP) (fst c1) (snd c1) s) < 1"
      using a checkRateLimit_allowed [of clientIP "fst c1" "snd c1" s] by (simp add: r1_def)
    ultimately show ?thesis
      by (simp add: r1_def checkRateLimit_cache Let_def)
  qed
  show "let r2 = checkRateLimit url (fst c2) (snd c2) (snd r1)
        in r = (if fst r2 then \<lparr> allowed = True, reason = None \<rparr>
                     else \<lparr> allowed = False, reason = Some ''Proxy rate limit exceeded'' \<rparr>, snd r2)
                \<and> (url \<noteq> clientIP \<longrightarrow>
                     map_of (rateCache (snd r)) (rate_key clientIP) =
                       Some \<lparr> tokens = fst (available_tokens (rate_key clientIP) (fst c1) (snd c1) s) - 1,
                              lastRefill = fst c1, lastUpdate = fst c1 \<rparr>)"
    unfolding Let_def r2_def [symmetric] using req spent by blast
qed


text \<open>C5 at a fresh client and a proxy bucket holding half a token: the request is
  rejected with the proxy-limit reason and the client has spent one of its 60 tokens.\<close>

theorem combined_check_order_witness:
  "fst (checkCombinedRateLimit ''203.0.113.7'' (Some ''https://p.example'')
         (1200, \<lparr> get_ok = True, put_ok = True \<rparr>) (1200, \<lparr> get_ok = True, put_ok = True \<rparr>)
         \<lparr> rateCache = [(''rate:https://p.example'', \<lparr> tokens = 1 / 2, lastRefill = 1000, lastUpdate = 1000 \<rparr>)],
           RATE_LIMIT_KV = [], pending = [] \<rparr>)
     = \<lparr> allowed = False, reason = Some ''Proxy rate limit exceeded'' \<rparr>
   \<and> map_of (rateCache (snd (checkCombinedRateLimit ''203.0.113.7'' (Some ''https://p.example'')
         (1200, \<lparr> get_ok = True, put_ok = True \<rparr>) (1200, \<lparr> get_ok = True, put_ok = True \<rparr>)
         \<lparr> rateCache = [(''rate:https://p.example'', \<lparr> tokens = 1 / 2, lastRefill = 1000, lastUpdate = 1000 \<rparr>)],
           RATE_LIMIT_KV = [], pending = [] \<rparr>))) (rate_key ''203.0.113.7'')
     = Some \<lparr> tokens = 59, lastRefill = 1200, lastUpdate = 1200 \<rparr>"
proof -
  let ?io = "\<lparr> get_ok = True, put_ok = True \<rparr>"
  let ?s = "\<lparr> rateCache = [(''rate:https://p.example'', \<lparr> tokens = 1 / 2, lastRefill = 1000, lastUpdate = 1000 \<rparr>)],
           RATE_LIMIT_KV = [], pending = [] \<rparr>"
  let ?r1 = "checkRateLimit ''203.0.113.7'' 1200 ?io ?s"
  have r1: "?r1 = (True, \<lparr> rateCache = [(''rate:https://p.example'', \<lparr> tokens = 1 / 2, lastRefill = 1000, lastUpdate = 1000 \<rparr>),
                                        (''rate:203.0.113.7'', \<lparr> tokens = 59, lastRefill = 1200, lastUpdate = 1200 \<rparr>)],
           RATE_LIMIT_KV = [(''rate:203.0.113.7'', \<lparr> tokens = 59, lastRefill = 1200 \<rparr>, 3601200)],
           pending = [(''rate:203.0.113.7'', 1200)] \<rparr>)"
    by (simp add: rl_eval)
  have r2: "fst (checkRateLimit ''https://p.example'' 1200 ?io (snd ?r1)) = False"
    unfolding r1 by (simp add: rl_eval)
  have av: "fst (available_tokens (rate_key ''203.0.113.7'') 1200 ?io ?s) = 60"
    by (simp add: rl_eval)
  have h: "fst ?r1 \<and> Some ''https://p.example'' = Some ''https://p.example'' \<and> ''https://p.example'' \<noteq> []"
    unfolding r1 by simp
  have ne: "''https://p.example'' \<noteq> ''203.0.113.7''" by simp
  from combined_check_order [of "''203.0.113.7''" "(1200, ?io)" ?s "Some ''https://p.example''" "(1200, ?io)"]
  show ?thesis
    using h ne r2 av unfolding Let_def fst_conv snd_conv by (auto simp del: One_nat_def)
qed

section \<open>Properties of the header sanitizer\<close>

lemma same_name_refl [simp]: "same_name a a"
  by (simp add: same_name_def)

lemma same_name_lower [simp]: "same_name (ascii_lower a) b = same_name a b"
  "same_name a (ascii_lower b) = same_name a b"
  by (simp_all add: same_name_def ascii_lower_idem)

lemma is_tchar_lower: "is_tchar c \<Longrightarrow> is_tchar (lower_char c)"
proof -
  have "of_char (char_of (of_char c + 32 :: nat)) = (of_char c + 32 :: nat)"
    if "(of_char c :: nat) \<le> 90"
    using that by (simp add: of_char_of)
  then show "is_tchar c \<Longrightarrow> is_tchar (lower_char c)"
    by (auto simp: is_tchar_def lower_char_def Let_def)
qed

lemma header_name_ok_lower: "header_name_ok n \<Longrightarrow> header_name_ok (ascii_lower n)"
  by (auto simp: header_name_ok_def ascii_lower_def list_all_iff is_tchar_lower)

lemma header_name_ok_ascii: "header_name_ok n \<Longrightarrow> is_ascii n"
  by (auto simp: header_name_ok_def is_ascii_def list_all_iff is_tchar_def Let_def)

lemma header_name_lower: "header_name_ok n \<Longrightarrow> toLowerCase U n = ascii_lower n"
  by (simp add: toLowerCase_ascii header_name_ok_ascii)

lemma list_all_normalize_value: "list_all P v \<Longrightarrow> list_all P (normalize_value v)"
  unfolding normalize_value_def list_all_iff
  by (auto dest!: set_dropWhileD)

lemma header_value_ok_normalize: "header_value_ok v \<Longrightarrow> header_value_ok (normalize_value v)"
  unfolding header_value_ok_def by (rule list_all_normalize_value)

lemma normalize_value_trimmed:
  assumes "v = [] \<or> (\<not> is_http_whitespace (hd v) \<and> \<not> is_http_whitespace (last v))"
  shows "normalize_value v = v"
proof (cases v)
  case Nil
  then show ?thesis by (simp add: normalize_value_def)
next
  case (Cons c cs)
  with assms have h: "\<not> is_http_whitespace c" and l: "\<not> is_http_whitespace (last v)" by simp_all
  have 1: "dropWhile is_http_whitespace v = v" using h Cons by simp
  have "hd (rev v) = last v" using Cons by (simp add: hd_rev)
  then have 2: "dropWhile is_http_whitespace (rev v) = rev v"
    using l by (simp add: dropWhile_eq_self_iff)
  show ?thesis by (simp add: normalize_value_def 1 2)
qed

lemma list_all_join:
  "list_all P sep \<Longrightarrow> list_all (list_all P) vs \<Longrightarrow> list_all P (join sep vs)"
  by (induction sep vs rule: join.induct) auto

lemma header_value_ok_join:
  "list_all header_value_ok vs \<Longrightarrow> header_value_ok (join '', '' vs)"
  unfolding header_value_ok_def
  by (rule list_all_join) (simp_all add: is_value_char_def)

lemma header_values_wf:
  "wf_headers hs \<Longrightarrow> list_all header_value_ok (header_values k hs)"
  by (auto simp: wf_headers_def header_values_def list_all_iff)

lemma Headers_append_ok:
  assumes "wf_headers hs" "header_name_ok n" "header_value_ok (normalize_value v)"
  shows "\<exists>hs'. Headers_append n v hs = Inr hs' \<and> wf_headers hs'"
proof (cases "filter (\<lambda>(m, x). same_name m n) hs")
  case Nil
  then show ?thesis
    using assms by (simp add: Headers_append_def Let_def wf_headers_def)
next
  case (Cons p rest)
  obtain m x where p: "p = (m, x)" by (cases p) auto
  have "(m, x) \<in> set (filter (\<lambda>(m, x). same_name m n) hs)" by (simp add: Cons p)
  then have "(m, x) \<in> set hs" by simp
  then have "header_name_ok m" using assms(1) by (auto simp: wf_headers_def list_all_iff)
  then show ?thesis
    using assms by (simp add: Headers_append_def Let_def wf_headers_def Cons p)
qed

lemma Headers_append_wf:
  assumes "wf_headers hs" "Headers_append n v hs = Inr hs'"
  shows "wf_headers hs'"
proof -
  from assms(2) have ok: "header_name_ok n" "header_value_ok (normalize_value v)"
    by (auto simp: Headers_append_def Let_def split: if_splits)
  from Headers_append_ok [OF assms(1) ok] assms(2) show ?thesis
    by simp
qed

lemma Headers_fill_wf:
  "wf_headers acc \<Longrightarrow> Headers_fill pairs acc = Inr hs \<Longrightarrow> wf_headers hs"
proof (induction pairs arbitrary: acc)
  case Nil
  then show ?case by simp
next
  case (Cons p pairs)
  obtain n v where p: "p = (n, v)" by (cases p) auto
  from Cons.prems(2) obtain hs' where a: "Headers_append n v acc = Inr hs'"
    and f: "Headers_fill pairs hs' = Inr hs"
    by (auto simp: p split: sum.splits)
  from Cons.IH [OF Headers_append_wf [OF Cons.prems(1) a] f] show ?case .
qed

lemma Headers_new_wf: "Headers_new init h = Inr hs0 \<Longrightarrow> wf_headers hs0"
proof -
  assume a: "Headers_new init h = Inr hs0"
  have e: "wf_headers []" by (simp add: wf_headers_def)
  from a obtain pairs where "Headers_fill pairs [] = Inr hs0"
    by (auto simp: Headers_new_def split: sum.splits)
  with e show ?thesis by (rule Headers_fill_wf)
qed

lemma header_values_nonascii:
  assumes "wf_headers hs" "\<not> is_ascii n"
  shows "header_values n hs = []"
proof -
  have "\<not> same_name m n" if "(m, v) \<in> set hs" for m v
  proof
    assume "same_name m n"
    then have "is_ascii (ascii_lower n) = is_ascii (ascii_lower m)"
      by (simp add: same_name_def)
    moreover have "is_ascii m"
      using that assms(1) by (auto simp: wf_headers_def list_all_iff header_name_ok_ascii)
    ultimately show False
      using assms(2) by (simp add: is_ascii_lower)
  qed
  then show ?thesis
    by (auto simp: header_values_def filter_empty_conv)
qed

lemma Headers_fill_ok:
  "wf_headers acc \<Longrightarrow>
   list_all (\<lambda>(n, v). header_name_ok n \<and> header_value_ok (normalize_value v)) pairs \<Longrightarrow>
   \<exists>hs. Headers_fill pairs acc = Inr hs \<and> wf_headers hs"
proof (induction pairs arbitrary: acc)
  case Nil
  then show ?case by simp
next
  case (Cons p pairs)
  obtain n v where p: "p = (n, v)" by (cases p) auto
  from Cons.prems obtain hs' where a: "Headers_append n v acc = Inr hs'" and w: "wf_headers hs'"
    using Headers_append_ok [of acc n v] by (auto simp: p)
  from Cons.IH [OF w] Cons.prems(2) show ?case by (simp add: p a)
qed

lemma Headers_keys_eq:
  "Headers_keys hs =
     concat (map (\<lambda>k. if k = ''set-cookie'' then map (\<lambda>v. k) (header_values k hs) else [k])
                 (sort (remdups (map (\<lambda>(n, v). ascii_lower n) hs))))"
  by (simp add: Headers_keys_def Headers_entries_def map_concat comp_def if_distrib cong: if_cong)

lemma header_values_nonempty:
  "(n, v) \<in> set hs \<Longrightarrow> header_values (ascii_lower n) hs \<noteq> []"
  by (force simp: header_values_def filter_empty_conv)

lemma set_Headers_keys: "set (Headers_keys hs) = (\<lambda>(n, v). ascii_lower n) ` set hs"
proof -
  let ?K = "(\<lambda>(n, v). ascii_lower n) ` set hs"
  let ?f = "\<lambda>k. if k = ''set-cookie'' then map (\<lambda>v. k) (header_values k hs) else [k]"
  have one: "set (?f k) = {k}" if "k \<in> ?K" for k
  proof -
    from that obtain n v where "(n, v) \<in> set hs" "k = ascii_lower n" by auto
    then have "header_values k hs \<noteq> []" by (simp add: header_values_nonempty)
    then show ?thesis by (cases "header_values k hs") auto
  qed
  have K: "set (sort (remdups (map (\<lambda>(n, v). ascii_lower n) hs))) = ?K"
    by simp
  have "set (Headers_keys hs) = (\<Union>k \<in> ?K. set (?f k))"
    unfolding Headers_keys_eq set_concat set_map image_image K ..
  also have "\<dots> = (\<Union>k \<in> ?K. {k})"
    using one by (intro SUP_cong refl) blast
  also have "\<dots> = ?K" by simp
  finally show ?thesis .
qed

lemma Headers_entries_valid:
  assumes "wf_headers hs"
  shows "list_all (\<lambda>(n, v). header_name_ok n \<and> header_value_ok (normalize_value v)) (Headers_entries hs)"
proof -
  have key: "header_name_ok k" if "k \<in> (\<lambda>(n, v). ascii_lower n) ` set hs" for k
    using that assms by (auto simp: wf_headers_def list_all_iff header_name_ok_lower)
  have vals: "list_all header_value_ok (header_values k hs)" for k
    using assms by (rule header_values_wf)
  have joined: "header_value_ok (normalize_value (join '', '' (header_values k hs)))" for k
    using vals by (intro header_value_ok_normalize header_value_ok_join)
  have single: "header_value_ok (normalize_value v)" if "v \<in> set (header_values k hs)" for k v
    using vals [of k] that by (auto simp: list_all_iff header_value_ok_normalize)
  show ?thesis
    unfolding Headers_entries_def list_all_iff
    using key joined single by (auto split: if_splits)
qed

lemma Headers_new_ok:
  assumes "init_ok init h"
  shows "\<exists>hs0. Headers_new init h = Inr hs0 \<and> wf_headers hs0"
proof -
  have e: "wf_headers []" by (simp add: wf_headers_def)
  show ?thesis
  proof (cases init)
    case (InitHeaders a)
    with assms have a: "a < length h" and w: "wf_headers (h ! a)" by (simp_all add: init_ok_def)
    from Headers_fill_ok [OF e Headers_entries_valid [OF w]] show ?thesis
      by (simp add: Headers_new_def init_pairs_def InitHeaders a)
  next
    case (InitRecord kv)
    with assms have "list_all (\<lambda>(n, v). header_name_ok n \<and> header_value_ok (normalize_value v)) kv"
      by (simp add: init_ok_def)
    from Headers_fill_ok [OF e this] show ?thesis
      by (simp add: Headers_new_def init_pairs_def InitRecord)
  qed
qed

text \<open>The loop that removes headers.\<close>

lemma remove_loop_result:
  "list_all is_ascii names \<Longrightarrow> remove_loop U p names hs = Inr hs' \<Longrightarrow>
   hs' = filter (\<lambda>(n, v). \<not> (\<exists>x \<in> set names. to_remove p (ascii_lower x) \<and> same_name n x)) hs"
proof (induction names arbitrary: hs)
  case Nil
  then show ?case by simp
next
  case (Cons name names)
  from Cons.prems(1) have low: "toLowerCase U name = ascii_lower name"
    and rest: "list_all is_ascii names"
    by (simp_all add: toLowerCase_ascii)
  show ?case
  proof (cases "to_remove p (ascii_lower name)")
    case True
    with Cons.prems(2) obtain hs1 where d: "Headers_delete name hs = Inr hs1"
      and r: "remove_loop U p names hs1 = Inr hs'"
      by (auto simp: Let_def low split: sum.splits)
    from d have hs1: "hs1 = filter (\<lambda>(n, v). \<not> same_name n name) hs"
      by (auto simp: Headers_delete_def split: if_splits)
    have "hs' = filter (\<lambda>(n, v). \<not> (\<exists>x \<in> set names. to_remove p (ascii_lower x) \<and> same_name n x))
                 (filter (\<lambda>(n, v). \<not> same_name n name) hs)"
      using Cons.IH [OF rest r] by (simp only: hs1)
    also have "\<dots> = filter (\<lambda>(n, v). \<not> (\<exists>x \<in> set (name # names). to_remove p (ascii_lower x) \<and> same_name n x)) hs"
      unfolding filter_filter by (rule filter_cong [OF refl]) (use True in auto)
    finally show ?thesis .
  next
    case False
    with Cons.prems(2) have "remove_loop U p names hs = Inr hs'" by (simp add: Let_def low)
    then have "hs' = filter (\<lambda>(n, v). \<not> (\<exists>x \<in> set names. to_remove p (ascii_lower x) \<and> same_name n x)) hs"
      by (rule Cons.IH [OF rest])
    also have "\<dots> = filter (\<lambda>(n, v). \<not> (\<exists>x \<in> set (name # names). to_remove p (ascii_lower x) \<and> same_name n x)) hs"
      by (rule filter_cong [OF refl]) (use False in \<open>auto simp: same_name_def\<close>)
    finally show ?thesis .
  qed
qed

lemma remove_loop_ok:
  "list_all header_name_ok names \<Longrightarrow> \<exists>hs'. remove_loop U p names hs = Inr hs'"
  by (induction names arbitrary: hs) (auto simp: Let_def Headers_delete_def)

lemma Headers_keys_ok: "wf_headers hs \<Longrightarrow> list_all header_name_ok (Headers_keys hs)"
  by (auto simp: list_all_iff set_Headers_keys wf_headers_def header_name_ok_lower)

lemma Headers_keys_ascii: "wf_headers hs \<Longrightarrow> list_all is_ascii (Headers_keys hs)"
  using Headers_keys_ok [of hs] by (auto simp: list_all_iff header_name_ok_ascii)

lemma remove_loop_keys:
  assumes "wf_headers hs" "remove_loop U p (Headers_keys hs) hs = Inr hs'"
  shows "hs' = filter (\<lambda>(n, v). \<not> to_remove p (ascii_lower n)) hs"
proof -
  have "(\<exists>x \<in> set (Headers_keys hs). to_remove p (ascii_lower x) \<and> same_name n x)
        \<longleftrightarrow> to_remove p (ascii_lower n)" if "(n, v) \<in> set hs" for n v
  proof
    assume "\<exists>x \<in> set (Headers_keys hs). to_remove p (ascii_lower x) \<and> same_name n x"
    then obtain m w where "(m, w) \<in> set hs" "to_remove p (ascii_lower (ascii_lower m))"
      "same_name n (ascii_lower m)"
      by (auto simp: set_Headers_keys)
    then show "to_remove p (ascii_lower n)"
      by (simp add: ascii_lower_idem same_name_def)
  next
    assume "to_remove p (ascii_lower n)"
    moreover have "ascii_lower n \<in> set (Headers_keys hs)"
      using that by (force simp: set_Headers_keys)
    ultimately show "\<exists>x \<in> set (Headers_keys hs). to_remove p (ascii_lower x) \<and> same_name n x"
      by (auto simp: ascii_lower_idem intro!: bexI [of _ "ascii_lower n"])
  qed
  then have "filter (\<lambda>(n, v). \<not> (\<exists>x \<in> set (Headers_keys hs). to_remove p (ascii_lower x) \<and> same_name n x)) hs
      = filter (\<lambda>(n, v). \<not> to_remove p (ascii_lower n)) hs"
    by (intro filter_cong [OF refl]) auto
  then show ?thesis
    using remove_loop_result [OF Headers_keys_ascii [OF assms(1)] assms(2)] by simp
qed

text \<open>Setting a header.\<close>

lemma set_header_absent:
  "header_values name hs = [] \<Longrightarrow> set_header name v hs = hs @ [(name, v)]"
  by (induction hs) (auto simp: header_values_def split: if_splits)

lemma header_values_append:
  "header_values n (hs @ [(m, v)]) = header_values n hs @ (if same_name m n then [v] else [])"
  by (simp add: header_values_def)

lemma header_values_removed:
  "header_values n (filter (\<lambda>(m, v). \<not> to_remove p (ascii_lower m)) hs) =
     (if to_remove p (ascii_lower n) then [] else header_values n hs)"
  by (induction hs) (auto simp: header_values_def same_name_def)

lemma REAL_to_remove: "to_remove p (ascii_lower REAL_CLIENT_IP_HEADER)"
  by (simp add: to_remove_def removeList_def REAL_CLIENT_IP_HEADER_def ascii_lower_def lower_char_def
      char_of_def bit_Suc_0_iff)

lemma REAL_name_ok: "header_name_ok REAL_CLIENT_IP_HEADER"
  by (simp add: header_name_ok_def REAL_CLIENT_IP_HEADER_def is_tchar_def)

lemma prepareRequestHeaders_success:
  assumes "prepareRequestHeaders U p init clientIp h = (Inr a, h')"
  shows "\<exists>hs0. Headers_new init h = Inr hs0 \<and> wf_headers hs0 \<and> a = length h
           \<and> h' = h @ [sanitized U p clientIp hs0]"
proof -
  from assms obtain hs0 where new: "Headers_new init h = Inr hs0"
    by (auto simp: prepareRequestHeaders_def split: sum.splits)
  have wf: "wf_headers hs0"
    using new by (rule Headers_new_wf)
  from assms new obtain hs1 where loop: "remove_loop U (toLowerCase U p) (Headers_keys hs0) hs0 = Inr hs1"
    by (auto simp: prepareRequestHeaders_def Let_def split: sum.splits)
  have hs1: "hs1 = filter (\<lambda>(n, v). \<not> to_remove (toLowerCase U p) (ascii_lower n)) hs0"
    using wf loop by (rule remove_loop_keys)
  have upd: "(h @ [hs0])[length h := x] = h @ [x]" for x
    by simp
  have none: "header_values REAL_CLIENT_IP_HEADER hs1 = []"
    unfolding hs1 by (simp add: header_values_removed REAL_to_remove)
  show ?thesis
  proof (cases "\<exists>ip. clientIp = Some ip \<and> ip \<noteq> []")
    case False
    then have "sanitized U p clientIp hs0 = hs1"
      by (auto simp: sanitized_def hs1 Let_def split: option.splits)
    moreover have "prepareRequestHeaders U p init clientIp h = (Inr (length h), h @ [hs1])"
      using False by (auto simp: prepareRequestHeaders_def new loop Let_def upd split: option.splits)
    ultimately show ?thesis using assms new wf by simp
  next
    case True
    then obtain ip where ip: "clientIp = Some ip" "ip \<noteq> []" by blast
    from assms obtain hs2 where set: "Headers_set REAL_CLIENT_IP_HEADER ip hs1 = Inr hs2"
      by (auto simp: prepareRequestHeaders_def new loop Let_def ip split: sum.splits)
    then have "hs2 = set_header REAL_CLIENT_IP_HEADER (normalize_value ip) hs1"
      by (auto simp: Headers_set_def Let_def split: if_splits)
    then have hs2: "hs2 = hs1 @ [(REAL_CLIENT_IP_HEADER, normalize_value ip)]"
      by (simp add: set_header_absent [OF none])
    have "sanitized U p clientIp hs0 = hs2"
      by (simp add: sanitized_def hs1 hs2 ip Let_def)
    moreover have "prepareRequestHeaders U p init clientIp h = (Inr (length h), h @ [hs2])"
      by (simp add: prepareRequestHeaders_def new loop Let_def upd ip set)
    ultimately show ?thesis using assms new wf by simp
  qed
qed

lemma prepareRequestHeaders_ok:
  assumes "init_ok init h" and "\<forall>ip. clientIp = Some ip \<longrightarrow> header_value_ok (normalize_value ip)"
  shows "\<exists>a h'. prepareRequestHeaders U p init clientIp h = (Inr a, h')"
proof -
  from Headers_new_ok [OF assms(1)] obtain hs0 where new: "Headers_new init h = Inr hs0"
    and wf: "wf_headers hs0" by blast
  from remove_loop_ok [OF Headers_keys_ok [OF wf]] obtain hs1 where
    loop: "remove_loop U (toLowerCase U p) (Headers_keys hs0) hs0 = Inr hs1" by blast
  show ?thesis
  proof (cases clientIp)
    case None
    then show ?thesis by (simp add: prepareRequestHeaders_def new loop Let_def)
  next
    case (Some ip)
    with assms(2) have "header_value_ok (normalize_value ip)" by simp
    then have "\<exists>hs2. Headers_set REAL_CLIENT_IP_HEADER ip hs1 = Inr hs2"
      by (simp add: Headers_set_def Let_def REAL_name_ok)
    then show ?thesis
      by (auto simp: prepareRequestHeaders_def new loop Let_def Some)
  qed
qed

lemma header_values_sanitized_ascii:
  "header_values n (sanitized U p clientIp hs0) =
     (if to_remove (toLowerCase U p) (ascii_lower n) then [] else header_values n hs0)
     @ (case clientIp of
          None \<Rightarrow> []
        | Some ip \<Rightarrow> if ip \<noteq> [] \<and> same_name REAL_CLIENT_IP_HEADER n then [normalize_value ip] else [])"
  by (simp add: sanitized_def Let_def header_values_append header_values_removed split: option.splits)

lemma header_values_sanitized:
  assumes "wf_headers hs0"
  shows "header_values n (sanitized U p clientIp hs0) =
     (if to_remove (toLowerCase U p) (toLowerCase U n) then [] else header_values n hs0)
     @ (case clientIp of
          None \<Rightarrow> []
        | Some ip \<Rightarrow> if ip \<noteq> [] \<and> same_name REAL_CLIENT_IP_HEADER n then [normalize_value ip] else [])"
proof (cases "is_ascii n")
  case True
  then show ?thesis
    by (simp add: header_values_sanitized_ascii toLowerCase_ascii)
next
  case False
  then have "header_values n hs0 = []"
    using assms by (simp add: header_values_nonascii)
  then show ?thesis
    by (simp add: header_values_sanitized_ascii)
qed

text \<open>
  C6, as the claim states it, fails: the function throws for some inputs. The record
  with the one property \<open>"bad name": "1"\<close> makes \<open>new Headers\<close> throw a \<open>TypeError\<close>, since
  a header name has no space, and nothing in \<open>prepareRequestHeaders\<close> catches it.
\<close>

theorem prepareRequestHeaders_throws_counterexample:
  "fst (prepareRequestHeaders ascii_case_only ''cf-'' (InitRecord [(''bad name'', ''1'')]) None [])
     = Inl TypeError"
  by (simp add: prepareRequestHeaders_def Headers_new_def init_pairs_def Headers_append_def Let_def
      header_name_ok_def is_tchar_def)

text \<open>
  C6, amended. Let the input be a \<open>Headers\<close> object of the heap, or a record whose names
  are tokens and whose values are valid header values, and let the client IP, if one is
  given, be a valid header value. Then \<open>prepareRequestHeaders\<close> does not throw. It returns
  a new object, at an address the heap did not have, and leaves every object of the heap
  as it was. The new object has no header whose name in lower case starts with the prefix
  in lower case or is on the deny-list, except the real-client-IP header when a non-empty
  client IP is given; that header then holds the client IP (without the whitespace at its
  ends) and nothing of what the input held under that name. Every other header is as in
  \<open>new Headers(origHeaders)\<close>.
\<close>

theorem prepareRequestHeaders_sanitizes:
  fixes prefix :: string
  assumes ok: "init_ok origHeaders h"
    and ip_ok: "\<forall>ip. clientIp = Some ip \<longrightarrow> header_value_ok (normalize_value ip)"
  shows "\<exists>hs0 hs. Headers_new origHeaders h = Inr hs0
          \<and> prepareRequestHeaders U prefix origHeaders clientIp h = (Inr (length h), h @ [hs])
          \<and> (\<forall>n. to_remove (toLowerCase U prefix) (toLowerCase U n)
                  \<and> \<not> ((\<exists>ip. clientIp = Some ip \<and> ip \<noteq> []) \<and> same_name n REAL_CLIENT_IP_HEADER)
                \<longrightarrow> \<not> Headers_has n hs)
          \<and> (\<forall>ip. clientIp = Some ip \<and> ip \<noteq> []
                \<longrightarrow> Headers_get REAL_CLIENT_IP_HEADER hs = Some (normalize_value ip))
          \<and> (\<forall>n. \<not> to_remove (toLowerCase U prefix) (toLowerCase U n) \<and> \<not> same_name n REAL_CLIENT_IP_HEADER
                \<longrightarrow> Headers_get n hs = Headers_get n hs0)"
proof -
  from prepareRequestHeaders_ok [OF ok ip_ok] obtain a h' where
    r: "prepareRequestHeaders U prefix origHeaders clientIp h = (Inr a, h')" by blast
  from prepareRequestHeaders_success [OF r] obtain hs0 where
    new: "Headers_new origHeaders h = Inr hs0" and wf: "wf_headers hs0" and a: "a = length h"
    and h': "h' = h @ [sanitized U prefix clientIp hs0]" by blast
  let ?hs = "sanitized U prefix clientIp hs0"
  note hv = header_values_sanitized [OF wf]
  have real: "to_remove (toLowerCase U prefix) (toLowerCase U REAL_CLIENT_IP_HEADER)"
    by (simp add: header_name_lower REAL_name_ok REAL_to_remove)
  have 1: "\<not> Headers_has n ?hs"
    if "to_remove (toLowerCase U prefix) (toLowerCase U n)
        \<and> \<not> ((\<exists>ip. clientIp = Some ip \<and> ip \<noteq> []) \<and> same_name n REAL_CLIENT_IP_HEADER)" for n
    using that by (auto simp: Headers_has_def hv same_name_def split: option.splits)
  have 2: "Headers_get REAL_CLIENT_IP_HEADER ?hs = Some (normalize_value ip)"
    if "clientIp = Some ip \<and> ip \<noteq> []" for ip
    using that by (simp add: Headers_get_def hv real Let_def)
  have 3: "Headers_get n ?hs = Headers_get n hs0"
    if "\<not> to_remove (toLowerCase U prefix) (toLowerCase U n) \<and> \<not> same_name n REAL_CLIENT_IP_HEADER" for n
    using that by (auto simp: Headers_get_def hv same_name_def Let_def split: option.splits)
  show ?thesis
    using new r 1 2 3 unfolding a h' by blast
qed

text \<open>
  C10, as the claim states it, fails on the word "exactly": \<open>set\<close> removes the HTTP
  whitespace at the two ends of a value. For the client IP \<open>" 203.0.113.7"\<close>, with a
  space in front, the header holds \<open>"203.0.113.7"\<close>.
\<close>

theorem real_client_ip_value_counterexample:
  "prepareRequestHeaders ascii_case_only ''cf-'' (InitRecord []) (Some '' 203.0.113.7'') []
     = (Inr 0, [[(''X-Real-Client-IP'', ''203.0.113.7'')]])
   \<and> Headers_get ''X-Real-Client-IP'' [(''X-Real-Client-IP'', ''203.0.113.7'')] \<noteq> Some '' 203.0.113.7''"
  by (simp add: prepareRequestHeaders_def Headers_new_def init_pairs_def Headers_keys_def Headers_entries_def
      Headers_set_def Headers_get_def header_values_def same_name_def Let_def normalize_value_def
      is_http_whitespace_def header_name_ok_def header_value_ok_def is_value_char_def is_tchar_def
      REAL_CLIENT_IP_HEADER_def)

text \<open>
  C10, amended. Whenever \<open>prepareRequestHeaders\<close> returns, the object it returns has the
  header \<open>X-Real-Client-IP\<close> if and only if a non-empty client IP was given; its value is
  then the client IP without the HTTP whitespace at its two ends, which is the client IP
  itself when it neither starts nor ends with such whitespace. Whatever the input held
  under that name is gone.
\<close>

theorem real_client_ip_header:
  assumes "prepareRequestHeaders U prefix origHeaders clientIp h = (Inr a, h')"
  shows "a < length h'
       \<and> (Headers_has REAL_CLIENT_IP_HEADER (h' ! a) \<longleftrightarrow> (\<exists>ip. clientIp = Some ip \<and> ip \<noteq> []))
       \<and> (\<forall>ip. clientIp = Some ip \<and> ip \<noteq> []
             \<longrightarrow> Headers_get REAL_CLIENT_IP_HEADER (h' ! a) = Some (normalize_value ip))
       \<and> (\<forall>ip. clientIp = Some ip \<and> ip \<noteq> []
                \<and> \<not> is_http_whitespace (hd ip) \<and> \<not> is_http_whitespace (last ip)
             \<longrightarrow> Headers_get REAL_CLIENT_IP_HEADER (h' ! a) = Some ip)"
proof -
  from prepareRequestHeaders_success [OF assms] obtain hs0 where
    a: "a = length h" and h': "h' = h @ [sanitized U prefix clientIp hs0]" by blast
  have cell: "h' ! a = sanitized U prefix clientIp hs0" by (simp add: a h')
  have v: "header_values REAL_CLIENT_IP_HEADER (sanitized U prefix clientIp hs0) =
      (case clientIp of None \<Rightarrow> [] | Some ip \<Rightarrow> if ip \<noteq> [] then [normalize_value ip] else [])"
    by (simp add: header_values_sanitized_ascii REAL_to_remove split: option.splits)
  have 1: "a < length h'" by (simp add: a h')
  have 2: "Headers_has REAL_CLIENT_IP_HEADER (h' ! a) \<longleftrightarrow> (\<exists>ip. clientIp = Some ip \<and> ip \<noteq> [])"
    using v by (auto simp: cell Headers_has_def split: option.splits)
  have 3: "Headers_get REAL_CLIENT_IP_HEADER (h' ! a) = Some (normalize_value ip)"
    if "clientIp = Some ip \<and> ip \<noteq> []" for ip
    using that v by (simp add: cell Headers_get_def Let_def)
  have 4: "Headers_get REAL_CLIENT_IP_HEADER (h' ! a) = Some ip"
    if "clientIp = Some ip \<and> ip \<noteq> [] \<and> \<not> is_http_whitespace (hd ip) \<and> \<not> is_http_whitespace (last ip)" for ip
    using that 3 [of ip] by (simp add: normalize_value_trimmed)
  show ?thesis using 1 2 3 4 by blast
qed

lemmas headers_eval = prepareRequestHeaders_def Headers_new_def init_pairs_def Headers_keys_def Headers_entries_def
  Headers_append_def Headers_delete_def to_remove_def removeList_def toLowerCase_def is_ascii_def
  ascii_lower_def lower_char_def
  char_of_def bit_Suc_0_iff Headers_set_def Headers_get_def Headers_has_def header_values_def
  same_name_def Let_def normalize_value_def is_http_whitespace_def header_name_ok_def
  header_value_ok_def is_value_char_def is_tchar_def REAL_CLIENT_IP_HEADER_def

text \<open>The amended C6 at a \<open>Headers\<close> object with a spoofed client IP, an accepted type and
  a header of the internal namespace.\<close>

theorem prepareRequestHeaders_sanitizes_witness:
  "init_ok (InitHeaders 0) [[(''X-Real-Client-IP'', ''6.6.6.6''), (''Accept'', ''*/*''), (''CF-Ray'', ''abc'')]]
   \<and> fst (prepareRequestHeaders ascii_case_only ''cf-'' (InitHeaders 0) (Some ''203.0.113.7'')
            [[(''X-Real-Client-IP'', ''6.6.6.6''), (''Accept'', ''*/*''), (''CF-Ray'', ''abc'')]]) = Inr 1
   \<and> take 1 (snd (prepareRequestHeaders ascii_case_only ''cf-'' (InitHeaders 0) (Some ''203.0.113.7'')
            [[(''X-Real-Client-IP'', ''6.6.6.6''), (''Accept'', ''*/*''), (''CF-Ray'', ''abc'')]]))
       = [[(''X-Real-Client-IP'', ''6.6.6.6''), (''Accept'', ''*/*''), (''CF-Ray'', ''abc'')]]
   \<and> \<not> Headers_has ''CF-Ray'' (snd (prepareRequestHeaders ascii_case_only ''cf-'' (InitHeaders 0) (Some ''203.0.113.7'')
            [[(''X-Real-Client-IP'', ''6.6.6.6''), (''Accept'', ''*/*''), (''CF-Ray'', ''abc'')]]) ! 1)
   \<and> Headers_get REAL_CLIENT_IP_HEADER (snd (prepareRequestHeaders ascii_case_only ''cf-'' (InitHeaders 0) (Some ''203.0.113.7'')
            [[(''X-Real-Client-IP'', ''6.6.6.6''), (''Accept'', ''*/*''), (''CF-Ray'', ''abc'')]]) ! 1)
       = Some ''203.0.113.7''"
proof -
  let ?H = "[[(''X-Real-Client-IP'', ''6.6.6.6''), (''Accept'', ''*/*''), (''CF-Ray'', ''abc'')]]"
  let ?ip = "''203.0.113.7''"
  let ?U = ascii_case_only
  have h1: "init_ok (InitHeaders 0) ?H"
    by (simp add: init_ok_def wf_headers_def header_name_ok_def header_value_ok_def is_tchar_def
        is_value_char_def)
  have h2: "\<forall>ip. Some ?ip = Some ip \<longrightarrow> header_value_ok (normalize_value ip)"
    by (simp add: header_value_ok_def normalize_value_def is_value_char_def is_http_whitespace_def)
  from prepareRequestHeaders_sanitizes [OF h1 h2, of ?U "''cf-''"] obtain hs where
    r: "prepareRequestHeaders ?U ''cf-'' (InitHeaders 0) (Some ?ip) ?H = (Inr (length ?H), ?H @ [hs])"
    and rm: "\<forall>n. to_remove (toLowerCase ?U ''cf-'') (toLowerCase ?U n)
                  \<and> \<not> ((\<exists>ip. Some ?ip = Some ip \<and> ip \<noteq> []) \<and> same_name n REAL_CLIENT_IP_HEADER)
                \<longrightarrow> \<not> Headers_has n hs"
    and ip: "\<forall>ip. Some ?ip = Some ip \<and> ip \<noteq> []
                \<longrightarrow> Headers_get REAL_CLIENT_IP_HEADER hs = Some (normalize_value ip)"
    by blast
  have m: "to_remove (toLowerCase ?U ''cf-'') (toLowerCase ?U ''CF-Ray'')
           \<and> \<not> ((\<exists>ip. Some ?ip = Some ip \<and> ip \<noteq> []) \<and> same_name ''CF-Ray'' REAL_CLIENT_IP_HEADER)"
    by (simp add: to_remove_def toLowerCase_def is_ascii_def ascii_lower_def lower_char_def char_of_def
        bit_Suc_0_iff same_name_def REAL_CLIENT_IP_HEADER_def)
  have n: "normalize_value ?ip = ?ip"
    by (simp add: normalize_value_def is_http_whitespace_def)
  have a: "\<not> Headers_has ''CF-Ray'' hs" using rm m by blast
  have b: "Headers_get REAL_CLIENT_IP_HEADER hs = Some ?ip" using ip n by simp
  show ?thesis
    unfolding r using h1 a b by simp
qed

text \<open>The amended C10 at a record with a spoofed client IP, without and with a client
  IP.\<close>

theorem real_client_ip_header_witness:
  "prepareRequestHeaders ascii_case_only ''cf-''
        (InitRecord [(''X-Real-Client-IP'', ''6.6.6.6''), (''Accept'', ''*/*'')]) None []
     = (Inr 0, [[(''Accept'', ''*/*'')]])
   \<and> \<not> Headers_has REAL_CLIENT_IP_HEADER [(''Accept'', ''*/*'')]
   \<and> prepareRequestHeaders ascii_case_only ''cf-''
        (InitRecord [(''X-Real-Client-IP'', ''6.6.6.6''), (''Accept'', ''*/*'')])
        (Some ''203.0.113.7'') []
     = (Inr 0, [[(''Accept'', ''*/*''), (''X-Real-Client-IP'', ''203.0.113.7'')]])
   \<and> Headers_get REAL_CLIENT_IP_HEADER [(''Accept'', ''*/*''), (''X-Real-Client-IP'', ''203.0.113.7'')]
     = Some ''203.0.113.7''"
proof -
  let ?init = "InitRecord [(''X-Real-Client-IP'', ''6.6.6.6''), (''Accept'', ''*/*'')]"
  let ?U = ascii_case_only
  have r1: "prepareRequestHeaders ?U ''cf-'' ?init None [] = (Inr 0, [[(''Accept'', ''*/*'')]])"
    by (simp add: headers_eval)
  have r2: "prepareRequestHeaders ?U ''cf-'' ?init (Some ''203.0.113.7'') []
     = (Inr 0, [[(''Accept'', ''*/*''), (''X-Real-Client-IP'', ''203.0.113.7'')]])"
    by (simp add: headers_eval)
  have t: "\<not> is_http_whitespace (hd ''203.0.113.7'') \<and> \<not> is_http_whitespace (last ''203.0.113.7'')"
    by (simp add: is_http_whitespace_def)
  have a: "\<not> Headers_has REAL_CLIENT_IP_HEADER [(''Accept'', ''*/*'')]"
    using real_client_ip_header [OF r1] by simp
  have b: "Headers_get REAL_CLIENT_IP_HEADER [(''Accept'', ''*/*''), (''X-Real-Client-IP'', ''203.0.113.7'')]
     = Some ''203.0.113.7''"
    using real_client_ip_header [OF r2, THEN conjunct2, THEN conjunct2, THEN conjunct2, rule_format,
        of "''203.0.113.7''"] t
    by simp
  show ?thesis using r1 r2 a b by (intro conjI)
qed

section \<open>Properties of the orchestrator\<close>

lemma rate_limit_step_denied:
  assumes "config_env cfg = Some e"
    and "\<not> allowed (fst (checkCombinedRateLimit (config_clientIP cfg) (Some endpoint)
                           (client_check io) (proxy_check io) s))"
  shows "\<exists>x. fst (rate_limit_step cfg endpoint io s) = Some x \<and> exn_code x = Some 429
           \<and> exn_message x = or_default (reason (fst (checkCombinedRateLimit (config_clientIP cfg)
                 (Some endpoint) (client_check io) (proxy_check io) s))) ''Rate limit exceeded''"
  using assms by (simp add: rate_limit_step_def Error_def case_prod_beta)

lemma attempt_limited:
  assumes "fst (rate_limit_step cfg (resolve_endpoint K cfg io) io s) = Some x"
  shows "fst (attempt U K p cfg io s) = Inl x"
  using assms by (simp add: attempt_def Let_def case_prod_beta)

lemma attempt_Inr:
  assumes "fst (attempt U K p cfg io s) = Inr r"
  shows "httpStatus r = 200"
  using assms
  by (auto simp: attempt_def Let_def case_prod_beta createStandardResponse_def
      split: option.splits sum.splits if_splits json_body.splits list.splits)

text \<open>An attempt that returns has built the request body.\<close>

lemma attempt_Inr_body:
  assumes "fst (attempt U K p cfg io s) = Inr r"
  shows "\<exists>body. buildRequestBody U (PAYLOAD K) (build_io io) (Some p) = Inr body"
  using assms
  by (auto simp: attempt_def makeRequest_def Let_def case_prod_beta
      split: option.splits sum.splits if_splits)

lemma retryLoop_Inr:
  "fst (retryLoop R fn n left s) = Inr r \<Longrightarrow> \<exists>m st. fst (fn m st) = Inr r"
proof (induction left arbitrary: n s)
  case 0
  then show ?case by auto
next
  case (Suc left)
  obtain a s' where f: "fn n s = (a, s')" by (cases "fn n s") auto
  show ?case
  proof (cases a)
    case (Inr r')
    with Suc.prems f have "r' = r" by simp
    with Inr f have "fst (fn n s) = Inr r" by simp
    then show ?thesis by blast
  next
    case (Inl e)
    show ?thesis
    proof (cases "R e")
      case True
      with Suc.prems f Inl have "fst (retryLoop R fn (Suc n) left s') = Inr r" by simp
      then show ?thesis by (rule Suc.IH)
    next
      case False
      with Suc.prems f Inl show ?thesis by simp
    qed
  qed
qed

text \<open>The languages of a request that \<open>normalizeLanguageCode\<close> does not accept.\<close>

lemma response_languages_Inl:
  "(\<exists>e. response_languages U src tgt = Inl e) \<longleftrightarrow>
     (truthy src \<and> \<not> is_string src) \<or> (truthy tgt \<and> \<not> is_string tgt)"
proof -
  have a: "(\<exists>e. normalizeLanguageCode U (js_or src (JString ''auto'')) = Inl e)
             \<longleftrightarrow> truthy src \<and> \<not> is_string src"
    by (rule js_or_Inl) simp_all
  have b: "(\<exists>e. normalizeLanguageCode U (js_or tgt (JString ''en'')) = Inl e)
             \<longleftrightarrow> truthy tgt \<and> \<not> is_string tgt"
    by (rule js_or_Inl) simp_all
  have "(\<exists>e. response_languages U src tgt = Inl e) \<longleftrightarrow>
          (\<exists>e. normalizeLanguageCode U (js_or src (JString ''auto'')) = Inl e)
          \<or> (\<exists>e. normalizeLanguageCode U (js_or tgt (JString ''en'')) = Inl e)"
    by (auto simp: response_languages_def split: sum.splits)
  then show ?thesis
    unfolding a b .
qed

lemma buildRequestBody_languages:
  assumes "buildRequestBody U cfg w (Some p) = Inr body"
  shows "\<not> ((truthy (source_lang p) \<and> \<not> is_string (source_lang p))
            \<or> (truthy (target_lang p) \<and> \<not> is_string (target_lang p)))"
proof -
  from buildRequestBody_Inr [OF assms] obtain t e where
    "request_envelope U w t (source_lang p) (target_lang p) = Inr e"
    by auto
  then have "\<not> (\<exists>err. request_envelope U w t (source_lang p) (target_lang p) = Inl err)"
    by simp
  then show ?thesis
    using request_envelope_Inl [of U w t "source_lang p" "target_lang p"] by blast
qed

text \<open>The outcome of \<open>query\<close>, by the languages of the request.\<close>

lemma query_rejects:
  assumes "params = Some p"
    and "(truthy (source_lang p) \<and> \<not> is_string (source_lang p))
         \<or> (truthy (target_lang p) \<and> \<not> is_string (target_lang p))"
  shows "\<exists>x. fst (query U K R C params cfg ios s) = Inl x"
    and "\<forall>e. \<exists>st. C e (case cfg of None \<Rightarrow> None | Some c \<Rightarrow> cfg_proxyEndpoint c) = Inr st \<Longrightarrow>
         fst (query U K R C params cfg ios s)
           = Inl (TypeError_exn ''langCode.toLowerCase is not a function'')"
proof -
  let ?ep = "case cfg of None \<Rightarrow> None | Some c \<Rightarrow> cfg_proxyEndpoint c"
  let ?T = "TypeError_exn ''langCode.toLowerCase is not a function''"
  from assms(2) obtain e where "response_languages U (source_lang p) (target_lang p) = Inl e"
    using response_languages_Inl [of U "source_lang p" "target_lang p"] by blast
  then have langs: "response_languages U (source_lang p) (target_lang p) = Inl TypeError"
    by (cases e) simp
  have "(\<exists>x. fst (query U K R C params cfg ios s) = Inl x)
      \<and> ((\<forall>e. \<exists>st. C e ?ep = Inr st) \<longrightarrow> fst (query U K R C params cfg ios s) = Inl ?T)"
  proof (cases "truthy (req_text p)")
    case False
    then show ?thesis
      by (simp add: query_def assms(1) langs language_exn_def)
  next
    case True
    obtain a s' where run: "retryWithBackoff (maxAttempts K) R (\<lambda>n. attempt U K p cfg (ios n)) s = (a, s')"
      by (cases "retryWithBackoff (maxAttempts K) R (\<lambda>n. attempt U K p cfg (ios n)) s") auto
    have "a \<noteq> Inr r" for r
    proof
      assume "a = Inr r"
      with run have "fst (retryLoop R (\<lambda>n. attempt U K p cfg (ios n)) 1 (maxAttempts K - 1) s) = Inr r"
        by (simp add: retryWithBackoff_def)
      then obtain m st where "fst (attempt U K p cfg (ios m) st) = Inr r"
        by (auto dest: retryLoop_Inr)
      then obtain body where "buildRequestBody U (PAYLOAD K) (build_io (ios m)) (Some p) = Inr body"
        by (auto dest: attempt_Inr_body)
      from buildRequestBody_languages [OF this] assms(2) show False
        by simp
    qed
    then obtain x where a: "a = Inl x"
      by (cases a) auto
    show ?thesis
    proof (cases "C x ?ep")
      case (Inl thrown)
      have 1: "\<exists>y. fst (query U K R C params cfg ios s) = Inl y"
        using True Inl by (simp add: query_def assms(1) run a)
      have 2: "(\<forall>e. \<exists>st. C e ?ep = Inr st) \<longrightarrow> fst (query U K R C params cfg ios s) = Inl ?T"
      proof
        assume "\<forall>e. \<exists>st. C e ?ep = Inr st"
        then obtain st where "C x ?ep = Inr st"
          by blast
        with Inl show "fst (query U K R C params cfg ios s) = Inl ?T"
          by simp
      qed
      from 1 2 show ?thesis ..
    next
      case (Inr st)
      then show ?thesis
        using True by (simp add: query_def assms(1) run a langs language_exn_def)
    qed
  qed
  then show "\<exists>x. fst (query U K R C params cfg ios s) = Inl x"
    and "\<forall>e. \<exists>st. C e ?ep = Inr st \<Longrightarrow> fst (query U K R C params cfg ios s) = Inl ?T"
    by blast+
qed

lemma query_returns:
  assumes "\<forall>p. params = Some p \<longrightarrow>
             \<not> ((truthy (source_lang p) \<and> \<not> is_string (source_lang p))
                \<or> (truthy (target_lang p) \<and> \<not> is_string (target_lang p)))"
  shows "\<exists>src tgt.
           response_languages U (case params of None \<Rightarrow> JUndefined | Some p \<Rightarrow> source_lang p)
             (case params of None \<Rightarrow> JUndefined | Some p \<Rightarrow> target_lang p) = Inr (src, tgt)"
proof -
  let ?src = "case params of None \<Rightarrow> JUndefined | Some p \<Rightarrow> source_lang p"
  let ?tgt = "case params of None \<Rightarrow> JUndefined | Some p \<Rightarrow> target_lang p"
  have "\<not> ((truthy ?src \<and> \<not> is_string ?src) \<or> (truthy ?tgt \<and> \<not> is_string ?tgt))"
    using assms by (cases params) auto
  then have "\<not> (\<exists>e. response_languages U ?src ?tgt = Inl e)"
    using response_languages_Inl [of U ?src ?tgt] by blast
  then show ?thesis
    by (cases "response_languages U ?src ?tgt") auto
qed

text \<open>
  C8, as the claim states it, fails: a request whose source or target language is a
  truthy value that is not a string makes \<open>query\<close> reject. With an empty text and the
  number 5 as the source language, \<open>query\<close> takes the early return for a missing text,
  and the call \<open>normalizeLanguageCode(5)\<close> in the arguments of that return throws a
  \<open>TypeError\<close>; no \<open>try\<close> block is around it. With the text \<open>Hi\<close> and the number 5 as
  the target language, the attempt fails in \<open>buildRequestBody\<close>, the handler of the
  \<open>catch\<close> block calls \<open>normalizeLanguageCode(5)\<close> again, and the \<open>TypeError\<close> leaves the
  handler. (No configuration; no error is retried; \<open>createErrorResponse\<close> gives every
  error the status 500.)
\<close>

theorem query_language_counterexample:
  "fst (query ascii_case_only
        \<lparr> API_URL = ''https://www2.deepl.com/jsonrpc'', CF_HEADER_PREFIX = ''cf-'',
          PAYLOAD = \<lparr> MAX_TEXT_LENGTH = 5000, MAX_REQUEST_SIZE = 32768, REQUEST_ALTERNATIVES = 3 \<rparr>,
          timeout_seconds = ''30'', maxAttempts = 3 \<rparr>
        (\<lambda>e. False) (\<lambda>e ep. Inr 500)
        (Some \<lparr> req_text = JString [], source_lang = JNumber 5, target_lang = JUndefined \<rparr>)
        None
        (\<lambda>n. \<lparr> proxy_pick = 0, client_check = (1200, \<lparr> get_ok = True, put_ok = True \<rparr>),
                proxy_check = (1200, \<lparr> get_ok = True, put_ok = True \<rparr>), agent_pick = 0, language_pick = 0,
                build_io = \<lparr> clock_params = 1700000000019, randomComponent = 5, clock_timestamp = 1700000000021 \<rparr>,
                fetched = FetchThrows (Error ''unreachable'') \<rparr>)
        rl_init)
     = Inl (TypeError_exn ''langCode.toLowerCase is not a function'')
   \<and> fst (query ascii_case_only
        \<lparr> API_URL = ''https://www2.deepl.com/jsonrpc'', CF_HEADER_PREFIX = ''cf-'',
          PAYLOAD = \<lparr> MAX_TEXT_LENGTH = 5000, MAX_REQUEST_SIZE = 32768, REQUEST_ALTERNATIVES = 3 \<rparr>,
          timeout_seconds = ''30'', maxAttempts = 3 \<rparr>
        (\<lambda>e. False) (\<lambda>e ep. Inr 500)
        (Some \<lparr> req_text = JString ''Hi'', source_lang = JUndefined, target_lang = JNumber 5 \<rparr>)
        None
        (\<lambda>n. \<lparr> proxy_pick = 0, client_check = (1200, \<lparr> get_ok = True, put_ok = True \<rparr>),
                proxy_check = (1200, \<lparr> get_ok = True, put_ok = True \<rparr>), agent_pick = 0, language_pick = 0,
                build_io = \<lparr> clock_params = 1700000000019, randomComponent = 5, clock_timestamp = 1700000000021 \<rparr>,
                fetched = FetchThrows (Error ''unreachable'') \<rparr>)
        rl_init)
     = Inl (TypeError_exn ''langCode.toLowerCase is not a function'')"
  by (simp add: query_rejects(2))

text \<open>
  C8, amended. Call a request ill-typed if its source or its target language is a truthy
  value that is not a string. For an ill-typed request an exception leaves \<open>query\<close>: the
  \<open>TypeError\<close> of \<open>normalizeLanguageCode\<close>, unless \<open>createErrorResponse\<close> has thrown
  before. For every other request, whatever the configuration, the constants, the state
  of the limiter and the behaviour of the network in each attempt, and provided that
  \<open>createErrorResponse\<close> returns, \<open>query\<close> returns a result and no exception leaves it:
  the result has \<open>httpStatus\<close> 200, or it has no translated text and no request id. A
  request without a text, or with an empty one, gives \<open>httpStatus\<close> 400. Whenever the
  retried attempts end with an error, of whatever kind, the result carries the
  \<open>httpStatus\<close> that \<open>createErrorResponse\<close> gives that error, and no text; what
  \<open>createErrorResponse\<close> throws leaves \<open>query\<close>. An attempt that the rate limiter denies
  ends with an error whose \<open>code\<close> is 429.
\<close>

theorem query_collapses_errors:
  fixes U :: unicode_case and K :: constants and params :: "request_params option"
    and cfg :: "config option"
    and isRetryableError :: "js_exn \<Rightarrow> bool"
    and createErrorResponse :: "js_exn \<Rightarrow> string option \<Rightarrow> js_exn + int"
    and ios :: "nat \<Rightarrow> attempt_io" and s :: rl_state
  defines "out \<equiv> fst (query U K isRetryableError createErrorResponse params cfg ios s)"
  defines "ill_typed \<equiv>
    (\<exists>p. params = Some p
       \<and> ((truthy (source_lang p) \<and> \<not> is_string (source_lang p))
          \<or> (truthy (target_lang p) \<and> \<not> is_string (target_lang p))))"
  defines "endpoint \<equiv> (case cfg of None \<Rightarrow> None | Some c \<Rightarrow> cfg_proxyEndpoint c)"
  defines "run \<equiv> retryWithBackoff (maxAttempts K) isRetryableError"
  shows "(ill_typed \<longrightarrow> (\<exists>x. out = Inl x))
       \<and> (ill_typed \<and> (\<forall>e. \<exists>st. createErrorResponse e endpoint = Inr st) \<longrightarrow>
            out = Inl (TypeError_exn ''langCode.toLowerCase is not a function''))
       \<and> (\<not> ill_typed \<and> (\<forall>e. \<exists>st. createErrorResponse e endpoint = Inr st) \<longrightarrow>
            (\<exists>r. out = Inr r \<and> (httpStatus r = 200 \<or> (translatedText r = None \<and> requestId r = None))))
       \<and> (\<not> ill_typed \<and> (\<forall>p. params = Some p \<longrightarrow> \<not> truthy (req_text p)) \<longrightarrow>
            (\<exists>r. out = Inr r \<and> httpStatus r = 400 \<and> translatedText r = None))
       \<and> (\<forall>p e s' st. \<not> ill_typed \<and> params = Some p \<and> truthy (req_text p)
              \<and> run (\<lambda>n. attempt U K p cfg (ios n)) s = (Inl e, s')
              \<and> createErrorResponse e endpoint = Inr st
            \<longrightarrow> (\<exists>r. out = Inr r \<and> httpStatus r = st
                   \<and> translatedText r = None \<and> requestId r = None))
       \<and> (\<forall>p e s' x. params = Some p \<and> truthy (req_text p)
              \<and> run (\<lambda>n. attempt U K p cfg (ios n)) s = (Inl e, s')
              \<and> createErrorResponse e endpoint = Inl x
            \<longrightarrow> out = Inl x)
       \<and> (\<forall>p e io st. config_env cfg = Some e
              \<and> \<not> allowed (fst (checkCombinedRateLimit (config_clientIP cfg) (Some (resolve_endpoint K cfg io))
                                   (client_check io) (proxy_check io) st))
            \<longrightarrow> (\<exists>x. fst (attempt U K p cfg io st) = Inl x \<and> exn_code x = Some 429))"
proof (intro conjI impI allI)
  assume ill_typed
  then show "\<exists>x. out = Inl x"
    unfolding ill_typed_def out_def by (auto intro: query_rejects(1))
next
  assume "ill_typed \<and> (\<forall>e. \<exists>st. createErrorResponse e endpoint = Inr st)"
  then show "out = Inl (TypeError_exn ''langCode.toLowerCase is not a function'')"
    unfolding ill_typed_def out_def endpoint_def by (auto intro: query_rejects(2))
next
  assume a: "\<not> ill_typed \<and> (\<forall>e. \<exists>st. createErrorResponse e endpoint = Inr st)"
  then obtain src tgt where langs:
    "response_languages U (case params of None \<Rightarrow> JUndefined | Some p \<Rightarrow> source_lang p)
       (case params of None \<Rightarrow> JUndefined | Some p \<Rightarrow> target_lang p) = Inr (src, tgt)"
    unfolding ill_typed_def using query_returns [of params U] by auto
  show "\<exists>r. out = Inr r \<and> (httpStatus r = 200 \<or> (translatedText r = None \<and> requestId r = None))"
  proof (cases "case params of None \<Rightarrow> None | Some p \<Rightarrow> if truthy (req_text p) then Some p else None")
    case None
    then show ?thesis
      by (simp add: out_def query_def langs createStandardResponse_def)
  next
    case (Some p)
    then have p: "params = Some p"
      by (auto split: option.splits if_splits)
    obtain r s' where run: "retryWithBackoff (maxAttempts K) isRetryableError (\<lambda>n. attempt U K p cfg (ios n)) s = (r, s')"
      by (cases "retryWithBackoff (maxAttempts K) isRetryableError (\<lambda>n. attempt U K p cfg (ios n)) s") auto
    show ?thesis
    proof (cases r)
      case (Inl e)
      from a obtain st where "createErrorResponse e endpoint = Inr st"
        by blast
      then show ?thesis
        using langs Inl
        by (simp add: out_def query_def Some run p createStandardResponse_def endpoint_def)
    next
      case (Inr res)
      with run have "fst (retryLoop isRetryableError (\<lambda>n. attempt U K p cfg (ios n)) 1 (maxAttempts K - 1) s) = Inr res"
        by (simp add: retryWithBackoff_def)
      then obtain m st where "fst (attempt U K p cfg (ios m) st) = Inr res"
        by (auto dest: retryLoop_Inr)
      then have "httpStatus res = 200" by (rule attempt_Inr)
      then show ?thesis
        by (simp add: out_def query_def Some run Inr)
    qed
  qed
next
  assume a: "\<not> ill_typed \<and> (\<forall>p. params = Some p \<longrightarrow> \<not> truthy (req_text p))"
  then obtain src tgt where langs:
    "response_languages U (case params of None \<Rightarrow> JUndefined | Some p \<Rightarrow> source_lang p)
       (case params of None \<Rightarrow> JUndefined | Some p \<Rightarrow> target_lang p) = Inr (src, tgt)"
    unfolding ill_typed_def using query_returns [of params U] by auto
  from a have "(case params of None \<Rightarrow> None | Some p \<Rightarrow> if truthy (req_text p) then Some p else None) = None"
    by (auto split: option.splits)
  then show "\<exists>r. out = Inr r \<and> httpStatus r = 400 \<and> translatedText r = None"
    by (simp add: out_def query_def langs createStandardResponse_def)
next
  fix p e s' st
  assume a: "\<not> ill_typed \<and> params = Some p \<and> truthy (req_text p)
     \<and> run (\<lambda>n. attempt U K p cfg (ios n)) s = (Inl e, s')
     \<and> createErrorResponse e endpoint = Inr st"
  then obtain src tgt where langs: "response_languages U (source_lang p) (target_lang p) = Inr (src, tgt)"
    unfolding ill_typed_def using query_returns [of params U] by auto
  from a show "\<exists>r. out = Inr r \<and> httpStatus r = st \<and> translatedText r = None \<and> requestId r = None"
    by (simp add: out_def query_def langs createStandardResponse_def endpoint_def run_def)
next
  fix p e s' x
  assume "params = Some p \<and> truthy (req_text p)
     \<and> run (\<lambda>n. attempt U K p cfg (ios n)) s = (Inl e, s')
     \<and> createErrorResponse e endpoint = Inl x"
  then show "out = Inl x"
    by (simp add: out_def query_def endpoint_def run_def)
next
  fix p :: request_params and e io st
  assume a: "config_env cfg = Some e
     \<and> \<not> allowed (fst (checkCombinedRateLimit (config_clientIP cfg) (Some (resolve_endpoint K cfg io))
                          (client_check io) (proxy_check io) st))"
  then obtain x where "fst (rate_limit_step cfg (resolve_endpoint K cfg io) io st) = Some x"
    and "exn_code x = Some 429"
    using rate_limit_step_denied [of cfg e "resolve_endpoint K cfg io" io st] by blast
  then show "\<exists>x. fst (attempt U K p cfg io st) = Inl x \<and> exn_code x = Some 429"
    by (auto dest: attempt_limited)
qed

text \<open>The amended C8 at a client whose bucket is empty (with an error handler that reads
  the status or the code of the error: the result has \<open>httpStatus\<close> 429), at a request
  with an empty text, and at a request whose target language is a number.\<close>

theorem query_collapses_errors_witness:
  "(\<exists>r. fst (query ascii_case_only
        \<lparr> API_URL = ''https://www2.deepl.com/jsonrpc'', CF_HEADER_PREFIX = ''cf-'',
          PAYLOAD = \<lparr> MAX_TEXT_LENGTH = 5000, MAX_REQUEST_SIZE = 32768, REQUEST_ALTERNATIVES = 3 \<rparr>,
          timeout_seconds = ''30'', maxAttempts = 3 \<rparr>
        (\<lambda>e. False)
        (\<lambda>e ep. Inr (case exn_status e of Some st \<Rightarrow> st | None \<Rightarrow> (case exn_code e of Some c \<Rightarrow> c | None \<Rightarrow> 500)))
        (Some \<lparr> req_text = JString ''Hi'', source_lang = JUndefined, target_lang = JString ''de'' \<rparr>)
        (Some \<lparr> cfg_env = Some \<lparr> PROXY_URLS = None \<rparr>, cfg_proxyEndpoint = None,
                cfg_clientIP = Some ''203.0.113.7'', cfg_customHeader = None \<rparr>)
        (\<lambda>n. \<lparr> proxy_pick = 0, client_check = (1200, \<lparr> get_ok = True, put_ok = True \<rparr>),
                proxy_check = (1200, \<lparr> get_ok = True, put_ok = True \<rparr>), agent_pick = 0, language_pick = 0,
                build_io = \<lparr> clock_params = 1700000000019, randomComponent = 5, clock_timestamp = 1700000000021 \<rparr>,
                fetched = FetchThrows (Error ''unreachable'') \<rparr>)
        \<lparr> rateCache = [(''rate:203.0.113.7'', \<lparr> tokens = 0, lastRefill = 1000, lastUpdate = 1000 \<rparr>)],
          RATE_LIMIT_KV = [], pending = [] \<rparr>) = Inr r
      \<and> httpStatus r = 429 \<and> translatedText r = None \<and> requestId r = None)
   \<and> (\<exists>r. fst (query ascii_case_only
        \<lparr> API_URL = ''https://www2.deepl.com/jsonrpc'', CF_HEADER_PREFIX = ''cf-'',
          PAYLOAD = \<lparr> MAX_TEXT_LENGTH = 5000, MAX_REQUEST_SIZE = 32768, REQUEST_ALTERNATIVES = 3 \<rparr>,
          timeout_seconds = ''30'', maxAttempts = 3 \<rparr>
        (\<lambda>e. False)
        (\<lambda>e ep. Inr (case exn_status e of Some st \<Rightarrow> st | None \<Rightarrow> (case exn_code e of Some c \<Rightarrow> c | None \<Rightarrow> 500)))
        (Some \<lparr> req_text = JString [], source_lang = JUndefined, target_lang = JString ''de'' \<rparr>)
        None
        (\<lambda>n. \<lparr> proxy_pick = 0, client_check = (1200, \<lparr> get_ok = True, put_ok = True \<rparr>),
                proxy_check = (1200, \<lparr> get_ok = True, put_ok = True \<rparr>), agent_pick = 0, language_pick = 0,
                build_io = \<lparr> clock_params = 1700000000019, randomComponent = 5, clock_timestamp = 1700000000021 \<rparr>,
                fetched = FetchThrows (Error ''unreachable'') \<rparr>)
        rl_init) = Inr r
      \<and> httpStatus r = 400 \<and> translatedText r = None)
   \<and> (\<exists>x. fst (query ascii_case_only
        \<lparr> API_URL = ''https://www2.deepl.com/jsonrpc'', CF_HEADER_PREFIX = ''cf-'',
          PAYLOAD = \<lparr> MAX_TEXT_LENGTH = 5000, MAX_REQUEST_SIZE = 32768, REQUEST_ALTERNATIVES = 3 \<rparr>,
          timeout_seconds = ''30'', maxAttempts = 3 \<rparr>
        (\<lambda>e. False)
        (\<lambda>e ep. Inr (case exn_status e of Some st \<Rightarrow> st | None \<Rightarrow> (case exn_code e of Some c \<Rightarrow> c | None \<Rightarrow> 500)))
        (Some \<lparr> req_text = JString ''Hi'', source_lang = JUndefined, target_lang = JBool True \<rparr>)
        None
        (\<lambda>n. \<lparr> proxy_pick = 0, client_check = (1200, \<lparr> get_ok = True, put_ok = True \<rparr>),
                proxy_check = (1200, \<lparr> get_ok = True, put_ok = True \<rparr>), agent_pick = 0, language_pick = 0,
                build_io = \<lparr> clock_params = 1700000000019, randomComponent = 5, clock_timestamp = 1700000000021 \<rparr>,
                fetched = FetchThrows (Error ''unreachable'') \<rparr>)
        rl_init) = Inl x)"
proof -
  let ?U = ascii_case_only
  let ?K = "\<lparr> API_URL = ''https://www2.deepl.com/jsonrpc'', CF_HEADER_PREFIX = ''cf-'',
          PAYLOAD = \<lparr> MAX_TEXT_LENGTH = 5000, MAX_REQUEST_SIZE = 32768, REQUEST_ALTERNATIVES = 3 \<rparr>,
          timeout_seconds = ''30'', maxAttempts = 3 \<rparr>"
  let ?R = "\<lambda>e :: js_exn. False"
  let ?C = "\<lambda>(e :: js_exn) (ep :: string option).
     (Inr (case exn_status e of Some st \<Rightarrow> st | None \<Rightarrow> (case exn_code e of Some c \<Rightarrow> c | None \<Rightarrow> (500 :: int)))
        :: js_exn + int)"
  let ?p = "\<lparr> req_text = JString ''Hi'', source_lang = JUndefined, target_lang = JString ''de'' \<rparr>"
  let ?q = "\<lparr> req_text = JString [], source_lang = JUndefined, target_lang = JString ''de'' \<rparr>"
  let ?b = "\<lparr> req_text = JString ''Hi'', source_lang = JUndefined, target_lang = JBool True \<rparr>"
  let ?cfg = "Some \<lparr> cfg_env = Some \<lparr> PROXY_URLS = None \<rparr>, cfg_proxyEndpoint = None,
                cfg_clientIP = Some ''203.0.113.7'', cfg_customHeader = None \<rparr>"
  let ?io = "\<lparr> proxy_pick = 0, client_check = (1200, \<lparr> get_ok = True, put_ok = True \<rparr>),
                proxy_check = (1200, \<lparr> get_ok = True, put_ok = True \<rparr>), agent_pick = 0, language_pick = 0,
                build_io = \<lparr> clock_params = 1700000000019, randomComponent = 5, clock_timestamp = 1700000000021 \<rparr>,
                fetched = FetchThrows (Error ''unreachable'') \<rparr>"
  let ?s = "\<lparr> rateCache = [(''rate:203.0.113.7'', \<lparr> tokens = 0, lastRefill = 1000, lastUpdate = 1000 \<rparr>)],
          RATE_LIMIT_KV = [], pending = [] \<rparr>"
  let ?e = "(Error ''Client rate limit exceeded'') \<lparr> exn_code := Some 429 \<rparr>"
  let ?s' = "\<lparr> rateCache = [(''rate:203.0.113.7'', \<lparr> tokens = 1 / 5, lastRefill = 1200, lastUpdate = 1200 \<rparr>)],
          RATE_LIMIT_KV = [(''rate:203.0.113.7'', \<lparr> tokens = 1 / 5, lastRefill = 1200 \<rparr>, 3601200)], pending = [] \<rparr>"
  have rl: "checkCombinedRateLimit ''203.0.113.7'' (Some ''https://www2.deepl.com/jsonrpc'')
      (1200, \<lparr> get_ok = True, put_ok = True \<rparr>) (1200, \<lparr> get_ok = True, put_ok = True \<rparr>) ?s
      = (\<lparr> allowed = False, reason = Some ''Client rate limit exceeded'' \<rparr>, ?s')"
    by (simp add: checkCombinedRateLimit_def rl_eval)
  have ep: "resolve_endpoint ?K ?cfg ?io = ''https://www2.deepl.com/jsonrpc''"
    by (simp add: resolve_endpoint_def config_env_def selectProxy_def getProxyEndpoints_def)
  have ip: "config_clientIP ?cfg = ''203.0.113.7''"
    by (simp add: config_clientIP_def or_default_def)
  have lim: "rate_limit_step ?cfg ''https://www2.deepl.com/jsonrpc'' ?io ?s = (Some ?e, ?s')"
    by (simp add: rate_limit_step_def config_env_def ip rl or_default_def)
  have att: "attempt ?U ?K ?p ?cfg ?io ?s = (Inl ?e, ?s')"
    by (simp add: attempt_def ep lim)
  have run: "retryWithBackoff (maxAttempts ?K) ?R (\<lambda>n. attempt ?U ?K ?p ?cfg ((\<lambda>n. ?io) n)) ?s = (Inl ?e, ?s')"
  proof -
    have n: "maxAttempts ?K - 1 = Suc (Suc 0)" by simp
    show ?thesis
      unfolding retryWithBackoff_def n by (simp add: att)
  qed
  have st: "?C ?e (case ?cfg of None \<Rightarrow> None | Some c \<Rightarrow> cfg_proxyEndpoint c) = Inr 429"
    by (simp add: Error_def)
  have h1: "\<not> (\<exists>p. Some ?p = Some p
       \<and> ((truthy (source_lang p) \<and> \<not> is_string (source_lang p))
          \<or> (truthy (target_lang p) \<and> \<not> is_string (target_lang p))))
      \<and> Some ?p = Some ?p \<and> truthy (req_text ?p)
      \<and> retryWithBackoff (maxAttempts ?K) ?R (\<lambda>n. attempt ?U ?K ?p ?cfg ((\<lambda>n. ?io) n)) ?s = (Inl ?e, ?s')
      \<and> ?C ?e (case ?cfg of None \<Rightarrow> None | Some c \<Rightarrow> cfg_proxyEndpoint c) = Inr 429"
    using run st by simp
  have h2: "\<not> (\<exists>p. Some ?q = Some p
       \<and> ((truthy (source_lang p) \<and> \<not> is_string (source_lang p))
          \<or> (truthy (target_lang p) \<and> \<not> is_string (target_lang p))))
      \<and> (\<forall>p. Some ?q = Some p \<longrightarrow> \<not> truthy (req_text p))"
    by simp
  have h3: "\<exists>p. Some ?b = Some p
       \<and> ((truthy (source_lang p) \<and> \<not> is_string (source_lang p))
          \<or> (truthy (target_lang p) \<and> \<not> is_string (target_lang p)))"
    by simp
  note T = query_collapses_errors [where U = ?U and K = ?K and isRetryableError = ?R
      and createErrorResponse = ?C and ios = "\<lambda>n. ?io"]
  note T1 = T [where params = "Some ?p" and cfg = ?cfg and s = ?s,
      THEN conjunct2, THEN conjunct2, THEN conjunct2, THEN conjunct2, THEN conjunct1,
      THEN spec, THEN spec, THEN spec, THEN spec, THEN mp, OF h1]
  note T2 = T [where params = "Some ?q" and cfg = None and s = rl_init,
      THEN conjunct2, THEN conjunct2, THEN conjunct2, THEN conjunct1, THEN mp, OF h2]
  note T3 = T [where params = "Some ?b" and cfg = None and s = rl_init,
      THEN conjunct1, THEN mp, OF h3]
  show ?thesis
    using T1 T2 T3 by (intro conjI)
qed

end
